theory Spec2Isabelle
  imports Complex_Main
begin

section \<open>Numbers, constants and basic types\<close>

text \<open>
  The program is TypeScript; every \<^verbatim>\<open>number\<close> is an IEEE double. The model uses
  \<^typ>\<open>real\<close> for coordinates, times and speeds, with exact arithmetic, and
  \<^typ>\<open>int\<close> for the counters \<^verbatim>\<open>score\<close>, \<^verbatim>\<open>lives\<close> and \<^verbatim>\<open>lane\<close>, which the
  code only ever changes by whole steps. The gesture classifier has a second
  model in which every operation is rounded, for the statement about its baseline,
  a mean that rounding moves.

  \<^verbatim>\<open>GAME_CONSTANTS\<close> (constants.ts), the entries the simulation reads.
\<close>

definition JUMP_HEIGHT :: real where "JUMP_HEIGHT = 3.5"
definition JUMP_DURATION :: real where "JUMP_DURATION = 0.7"
definition START_SPEED :: real where "START_SPEED = 15"
definition MAX_SPEED :: real where "MAX_SPEED = 40"
definition SPAWN_DISTANCE :: real where "SPAWN_DISTANCE = - 60"
definition SPAWN_INTERVAL_BASE :: real where "SPAWN_INTERVAL_BASE = 1.5"
definition LANE_CHANGE_COOLDOWN :: real where "LANE_CHANGE_COOLDOWN = 400"
definition JUMP_COOLDOWN :: real where "JUMP_COOLDOWN = 800"
definition LEAN_THRESHOLD_LEFT :: real where "LEAN_THRESHOLD_LEFT = 0.60"
definition LEAN_THRESHOLD_RIGHT :: real where "LEAN_THRESHOLD_RIGHT = 0.40"
definition JUMP_THRESHOLD_Y :: real where "JUMP_THRESHOLD_Y = 0.05"
definition INVINCIBILITY_DURATION :: real where "INVINCIBILITY_DURATION = 2000"

text \<open>\<^verbatim>\<open>Math.PI\<close>, by the decimal literal that denotes this double.\<close>

definition Math_PI :: real where "Math_PI = 3.141592653589793"

text \<open>types.ts: \<^verbatim>\<open>Gesture\<close>.\<close>

datatype gesture = NONE | LEFT | RIGHT | JUMP

text \<open>
  Reading a property of \<^verbatim>\<open>undefined\<close> throws a \<^verbatim>\<open>TypeError\<close>; it is the only
  exception the modelled code can raise.
\<close>

datatype error = TypeError


section \<open>Gesture detection (utils/gameUtils.ts)\<close>

text \<open>
  A landmark is an object with the coordinates \<^verbatim>\<open>x\<close> and \<^verbatim>\<open>y\<close> (fields
  \<open>lm_x\<close>, \<open>lm_y\<close> here, to keep \<open>x\<close> and \<open>y\<close> free for variables). The
  argument \<^verbatim>\<open>landmarks\<close> has type \<^verbatim>\<open>any\<close>: it is \<^verbatim>\<open>undefined\<close>/\<^verbatim>\<open>null\<close> (\<open>None\<close>)
  or an array whose entries may be missing. \<open>at_index\<close> is the JavaScript read
  \<^verbatim>\<open>landmarks[i]\<close>: out of range it yields \<^verbatim>\<open>undefined\<close>.
\<close>

record landmark =
  lm_x :: real
  lm_y :: real

type_synonym landmarks = "landmark option list"

definition at_index :: "landmarks \<Rightarrow> nat \<Rightarrow> landmark option" where
  "at_index lms i = (if i < length lms then lms ! i else None)"

text \<open>
  The module-level variables \<^verbatim>\<open>hipYHistory\<close>, \<^verbatim>\<open>baselineHipY\<close>, \<^verbatim>\<open>lastJumpTime\<close>
  and \<^verbatim>\<open>lastGestureTime\<close>, and \<^verbatim>\<open>resetGestureState\<close>.
\<close>

record gesture_state =
  hipYHistory :: "real list"
  baselineHipY :: real
  lastJumpTime :: real
  lastGestureTime :: real

definition resetGestureState :: gesture_state where
  "resetGestureState =
     \<lparr>hipYHistory = [], baselineHipY = 0, lastJumpTime = 0, lastGestureTime = 0\<rparr>"

text \<open>
  \<^verbatim>\<open>detectGesture(landmarks, timestamp)\<close>. The result pairs the outcome (the gesture
  returned, or the exception thrown) with the module variables as the call leaves
  them: an assignment made before a throw stays made.

  The part after the calibration branch is \<open>classify\<close>: baseline drift, jump test,
  lean test, in the order of the source. The source nests the two cooldown tests
  inside the test of \<^verbatim>\<open>jumpDiff\<close> and falls through to the lean test when either
  fails; the model writes the three tests as one conjunction. \<^verbatim>\<open>nose.x\<close> is first
  read in the lean test, so a missing nose throws only there.
\<close>

definition classify ::
  "landmark option \<Rightarrow> real \<Rightarrow> real \<Rightarrow> gesture_state \<Rightarrow> (error + gesture) \<times> gesture_state"
where
  "classify nose currentY timestamp s =
    (let s1 = (if \<bar>currentY - baselineHipY s\<bar> < 0.05
               then s\<lparr>baselineHipY := baselineHipY s + (currentY - baselineHipY s) * 0.05\<rparr>
               else s);
         jumpDiff = baselineHipY s1 - currentY;
         timeSinceLastGesture = timestamp - lastGestureTime s1
     in if jumpDiff > JUMP_THRESHOLD_Y \<and>
           timestamp - lastJumpTime s1 > JUMP_COOLDOWN \<and>
           timeSinceLastGesture > LANE_CHANGE_COOLDOWN
        then (Inr JUMP, s1\<lparr>lastJumpTime := timestamp\<rparr>)
        else if timeSinceLastGesture < LANE_CHANGE_COOLDOWN then (Inr NONE, s1)
        else (case nose of
                None \<Rightarrow> (Inl TypeError, s1)
              | Some n \<Rightarrow>
                  if lm_x n > LEAN_THRESHOLD_LEFT
                  then (Inr LEFT, s1\<lparr>lastGestureTime := timestamp\<rparr>)
                  else if lm_x n < LEAN_THRESHOLD_RIGHT
                  then (Inr RIGHT, s1\<lparr>lastGestureTime := timestamp\<rparr>)
                  else (Inr NONE, s1)))"

definition detectGesture ::
  "landmarks option \<Rightarrow> real \<Rightarrow> gesture_state \<Rightarrow> (error + gesture) \<times> gesture_state"
where
  "detectGesture lmo timestamp s =
    (case lmo of
       None \<Rightarrow> (Inr NONE, s)
     | Some lms \<Rightarrow>
        (case at_index lms 23 of None \<Rightarrow> (Inl TypeError, s) | Some leftHip \<Rightarrow>
        (case at_index lms 24 of None \<Rightarrow> (Inl TypeError, s) | Some rightHip \<Rightarrow>
        (case at_index lms 11 of None \<Rightarrow> (Inl TypeError, s) | Some leftShoulder \<Rightarrow>
        (case at_index lms 12 of None \<Rightarrow> (Inl TypeError, s) | Some rightShoulder \<Rightarrow>
          (let currentY =
                 (lm_y leftHip + lm_y rightHip + lm_y leftShoulder + lm_y rightShoulder) / 4
           in if length (hipYHistory s) < 30
              then (let h = hipYHistory s @ [currentY]
                    in (Inr NONE,
                        s\<lparr>hipYHistory := h, baselineHipY := sum_list h / real (length h)\<rparr>))
              else classify (at_index lms 0) currentY timestamp s))))))"

text \<open>
  Feeding a sequence of samples (landmarks, timestamp) to the classifier, one call
  each, collecting the outcome of every call with its timestamp.
\<close>

fun detectAll ::
  "(landmarks option \<times> real) list \<Rightarrow> gesture_state \<Rightarrow> (real \<times> (error + gesture)) list \<times> gesture_state"
where
  "detectAll [] s = ([], s)"
| "detectAll ((lmo, t) # rest) s =
     (let (r, s1) = detectGesture lmo t s;
          (rs, s2) = detectAll rest s1
      in ((t, r) # rs, s2))"


text \<open>
  The same function with the rounding of its arithmetic written out. JavaScript
  numbers are IEEE doubles: every \<^verbatim>\<open>+\<close>, \<^verbatim>\<open>-\<close>, \<^verbatim>\<open>*\<close> and \<^verbatim>\<open>/\<close> yields the exact
  result rounded once, and a decimal literal denotes its rounded value. \<open>fl\<close> is
  that rounding; \<^verbatim>\<open>Math.abs\<close> and the comparisons are exact. \<^verbatim>\<open>reduce((a, b) => a + b, 0)\<close>
  adds from the left, starting from 0. With \<open>fl\<close> the identity these are
  \<open>classify\<close>, \<open>detectGesture\<close> and \<open>detectAll\<close>.
\<close>

definition classify_fl ::
  "(real \<Rightarrow> real) \<Rightarrow> landmark option \<Rightarrow> real \<Rightarrow> real \<Rightarrow> gesture_state
     \<Rightarrow> (error + gesture) \<times> gesture_state"
where
  "classify_fl fl nose currentY timestamp s =
    (let s1 = (if \<bar>fl (currentY - baselineHipY s)\<bar> < fl 0.05
               then s\<lparr>baselineHipY :=
                        fl (baselineHipY s + fl (fl (currentY - baselineHipY s) * fl 0.05))\<rparr>
               else s);
         jumpDiff = fl (baselineHipY s1 - currentY);
         timeSinceLastGesture = fl (timestamp - lastGestureTime s1)
     in if jumpDiff > fl JUMP_THRESHOLD_Y \<and>
           fl (timestamp - lastJumpTime s1) > fl JUMP_COOLDOWN \<and>
           timeSinceLastGesture > fl LANE_CHANGE_COOLDOWN
        then (Inr JUMP, s1\<lparr>lastJumpTime := timestamp\<rparr>)
        else if timeSinceLastGesture < fl LANE_CHANGE_COOLDOWN then (Inr NONE, s1)
        else (case nose of
                None \<Rightarrow> (Inl TypeError, s1)
              | Some n \<Rightarrow>
                  if lm_x n > fl LEAN_THRESHOLD_LEFT
                  then (Inr LEFT, s1\<lparr>lastGestureTime := timestamp\<rparr>)
                  else if lm_x n < fl LEAN_THRESHOLD_RIGHT
                  then (Inr RIGHT, s1\<lparr>lastGestureTime := timestamp\<rparr>)
                  else (Inr NONE, s1)))"

definition detectGesture_fl ::
  "(real \<Rightarrow> real) \<Rightarrow> landmarks option \<Rightarrow> real \<Rightarrow> gesture_state
     \<Rightarrow> (error + gesture) \<times> gesture_state"
where
  "detectGesture_fl fl lmo timestamp s =
    (case lmo of
       None \<Rightarrow> (Inr NONE, s)
     | Some lms \<Rightarrow>
        (case at_index lms 23 of None \<Rightarrow> (Inl TypeError, s) | Some leftHip \<Rightarrow>
        (case at_index lms 24 of None \<Rightarrow> (Inl TypeError, s) | Some rightHip \<Rightarrow>
        (case at_index lms 11 of None \<Rightarrow> (Inl TypeError, s) | Some leftShoulder \<Rightarrow>
        (case at_index lms 12 of None \<Rightarrow> (Inl TypeError, s) | Some rightShoulder \<Rightarrow>
          (let currentY =
                 fl (fl (fl (fl (lm_y leftHip + lm_y rightHip) + lm_y leftShoulder)
                           + lm_y rightShoulder) / 4)
           in if length (hipYHistory s) < 30
              then (let h = hipYHistory s @ [currentY]
                    in (Inr NONE,
                        s\<lparr>hipYHistory := h,
                          baselineHipY :=
                            fl (foldl (\<lambda>a b. fl (a + b)) 0 h / real (length h))\<rparr>))
              else classify_fl fl (at_index lms 0) currentY timestamp s))))))"

fun detectAll_fl ::
  "(real \<Rightarrow> real) \<Rightarrow> (landmarks option \<times> real) list \<Rightarrow> gesture_state
     \<Rightarrow> (real \<times> (error + gesture)) list \<times> gesture_state"
where
  "detectAll_fl fl [] s = ([], s)"
| "detectAll_fl fl ((lmo, t) # rest) s =
     (let (r, s1) = detectGesture_fl fl lmo t s;
          (rs, s2) = detectAll_fl fl rest s1
      in ((t, r) # rs, s2))"


section \<open>Player state and gesture application (components/GameEngine.tsx)\<close>

text \<open>types.ts: \<^verbatim>\<open>Player3D\<close>. \<^verbatim>\<open>Lane\<close> is the TypeScript type \<^verbatim>\<open>0 | 1 | 2\<close>, erased
  at run time; the model keeps the number and proves the range.\<close>

record player3d =
  lane :: int
  isJumping :: bool
  jumpStartTime :: real
  yPosition :: real

definition initialPlayer :: player3d where
  "initialPlayer = \<lparr>lane = 1, isJumping = False, jumpStartTime = 0, yPosition = 0\<rparr>"

text \<open>The body of the input-handling effect after \<^verbatim>\<open>detectGesture\<close> has returned.\<close>

definition applyGesture :: "gesture \<Rightarrow> real \<Rightarrow> player3d \<Rightarrow> player3d" where
  "applyGesture g now p =
    (if g = JUMP \<and> \<not> isJumping p then p\<lparr>isJumping := True, jumpStartTime := now\<rparr>
     else if g = LEFT then (if lane p > 0 then p\<lparr>lane := lane p - 1\<rparr> else p)
     else if g = RIGHT then (if lane p < 2 then p\<lparr>lane := lane p + 1\<rparr> else p)
     else p)"

text \<open>A sequence of gestures, each with the time it was detected at.\<close>

fun applyGestures :: "(gesture \<times> real) list \<Rightarrow> player3d \<Rightarrow> player3d" where
  "applyGestures [] p = p"
| "applyGestures ((g, now) # rest) p = applyGestures rest (applyGesture g now p)"



section \<open>Game state and entities (types.ts, App.tsx)\<close>

text \<open>
  \<^verbatim>\<open>GameState\<close> is the React state owned by \<^verbatim>\<open>App\<close>; \<^verbatim>\<open>handleStart\<close>,
  \<^verbatim>\<open>handleRestart\<close>, \<^verbatim>\<open>handlePause\<close> and \<^verbatim>\<open>handleResume\<close> are its updaters.
\<close>

record game_state =
  isPlaying :: bool
  isPaused :: bool
  score :: int
  gameOver :: bool
  speed :: real
  cameraReady :: bool
  lastLaneChange :: real
  lives :: int

definition initialGameState :: game_state where
  "initialGameState =
     \<lparr>isPlaying = False, isPaused = False, score = 0, gameOver = False, speed = 0,
      cameraReady = False, lastLaneChange = 0, lives = 3\<rparr>"

definition handleStart :: "game_state \<Rightarrow> game_state" where
  "handleStart prev =
     prev\<lparr>isPlaying := True, isPaused := False, gameOver := False, score := 0, lives := 3\<rparr>"

definition handleRestart :: "game_state \<Rightarrow> game_state" where
  "handleRestart prev =
     prev\<lparr>isPlaying := True, isPaused := False, gameOver := False, score := 0, lives := 3\<rparr>"

definition handlePause :: "game_state \<Rightarrow> game_state" where
  "handlePause prev = prev\<lparr>isPaused := True\<rparr>"

definition handleResume :: "game_state \<Rightarrow> game_state" where
  "handleResume prev = prev\<lparr>isPaused := False\<rparr>"

text \<open>
  \<^verbatim>\<open>Obstacle3D\<close> and \<^verbatim>\<open>Decoration3D\<close>. An id is \<^verbatim>\<open>Math.random().toString()\<close>; the
  model identifies the string with the number drawn (printing a double is
  injective), so an id is a \<^typ>\<open>real\<close>.
\<close>

datatype obstacle_type = lava_block | tall_lava

record obstacle3d =
  o_id :: real
  o_lane :: int
  o_z :: real
  o_type :: obstacle_type
  o_passed :: bool

datatype decoration_type = tree | grass | flower

record decoration3d =
  d_id :: real
  d_x :: real
  d_z :: real
  d_type :: decoration_type
  d_rotation :: real


section \<open>The engine (components/GameEngine.tsx)\<close>

text \<open>
  The refs of the component that carry simulation data, the React state and the
  classifier's module variables. The React state appears twice. \<open>gameState\<close> is
  the state as React holds it, every functional update given to
  \<^verbatim>\<open>setGameState\<close> applied (the \<^verbatim>\<open>prev\<close> of the next updater). \<open>renderedState\<close>
  is the value the component was last rendered with: the \<^verbatim>\<open>gameState\<close> that the
  effects read and that their dependency arrays compare. An update made inside an
  animation frame changes the first at once and the second only when React renders
  again. The three.js scene, meshes, materials and audio are presentation and are
  left out; the refs to them are set by the initialisation that precedes the first
  frame, so their null checks in \<^verbatim>\<open>spawnObstacle\<close>, \<^verbatim>\<open>spawnDecoration\<close> and
  \<^verbatim>\<open>updateGameLogic\<close> pass.
\<close>

record engine =
  gameState :: game_state
  renderedState :: game_state
  gestures :: gesture_state
  lastHitTimeRef :: real
  playerStateRef :: player3d
  obstaclesRef :: "obstacle3d list"
  decorationsRef :: "decoration3d list"
  speedRef :: real
  scoreRef :: int
  lastTimeRef :: real
  lastSpawnTimeRef :: real
  lastDecorSpawnTimeRef :: real
  isPlayingRef :: bool
  isPausedRef :: bool

text \<open>
  What a tick takes from outside: the values of \<^verbatim>\<open>Math.random()\<close> used when a
  decoration or an obstacle is spawned, and the readings of \<^verbatim>\<open>performance.now()\<close>
  taken inside the obstacle loop (\<open>clock k\<close> is the reading while the loop is at
  position \<open>k\<close> of the array).
\<close>

record decor_draw =
  r_z :: real
  r_side :: real
  r_offset :: real
  r_type :: real
  r_id :: real
  r_rotation :: real

record obstacle_draw =
  r_lane :: real
  r_oid :: real

record tick_env =
  decorDraw1 :: decor_draw
  decorDraw2 :: decor_draw
  obstacleDraw :: obstacle_draw
  clock :: "nat \<Rightarrow> real"

definition spawnDecoration :: "real \<Rightarrow> decor_draw \<Rightarrow> engine \<Rightarrow> engine" where
  "spawnDecoration z d e =
     (let isLeft = r_side d > 0.5;
          baseOffset = 8;
          randomOffset = r_offset d * 50;
          x = (if isLeft then - (baseOffset + randomOffset) else baseOffset + randomOffset);
          ty = (if r_type d > 0.75 then tree else if r_type d > 0.4 then flower else grass)
      in e\<lparr>decorationsRef := decorationsRef e @
            [\<lparr>d_id = r_id d, d_x = x, d_z = z, d_type = ty,
              d_rotation = r_rotation d * Math_PI * 2\<rparr>]\<rparr>)"

definition spawnObstacle :: "real \<Rightarrow> obstacle_draw \<Rightarrow> engine \<Rightarrow> engine" where
  "spawnObstacle z d e =
     e\<lparr>obstaclesRef := obstaclesRef e @
          [\<lparr>o_id = r_oid d, o_lane = \<lfloor>r_lane d * 3\<rfloor>, o_z = z, o_type = lava_block,
            o_passed = False\<rparr>]\<rparr>"

text \<open>
  The updater given to \<^verbatim>\<open>setGameState\<close> on a hit; \<open>scoreNow\<close> is
  \<^verbatim>\<open>scoreRef.current\<close>. Functional updates are applied in the order they were
  queued, which the model does on the spot.
\<close>

definition hitUpdate :: "int \<Rightarrow> game_state \<Rightarrow> game_state" where
  "hitUpdate scoreNow prev =
     (let newLives = lives prev - 1
      in if newLives \<le> 0 then prev\<lparr>lives := 0, gameOver := True, score := scoreNow\<rparr>
         else prev\<lparr>lives := newLives\<rparr>)"

text \<open>\<^verbatim>\<open>updateGameLogic\<close>, step 1: difficulty.\<close>

definition difficulty :: "engine \<Rightarrow> engine" where
  "difficulty e =
     e\<lparr>speedRef := min MAX_SPEED (START_SPEED + real_of_int (scoreRef e) / 50)\<rparr>"

text \<open>
  Step 3: jump physics on \<^verbatim>\<open>player = playerStateRef.current\<close> (the lane
  interpolation and the limb animation only move meshes).
\<close>

definition playerPhysics :: "real \<Rightarrow> player3d \<Rightarrow> player3d" where
  "playerPhysics time player =
     (if isJumping player
      then (let jumpProgress = (time - jumpStartTime player) / 1000
            in if jumpProgress < JUMP_DURATION
               then (let t = jumpProgress / JUMP_DURATION
                     in player\<lparr>yPosition := JUMP_HEIGHT * 4 * t * (1 - t)\<rparr>)
               else player\<lparr>isJumping := False, yPosition := 0\<rparr>)
      else player)"

text \<open>
  The spawn test \<^verbatim>\<open>time - last > interval\<close>. In JavaScript a speed of 0 makes the
  interval \<^verbatim>\<open>Infinity\<close> and the test false; HOL's \<open>x / 0 = 0\<close> would not, so the
  case is written out.
\<close>

definition spawnDue :: "real \<Rightarrow> real \<Rightarrow> real \<Rightarrow> real \<Rightarrow> bool" where
  "spawnDue time lastSpawn v divisor =
     (v \<noteq> 0 \<and> time - lastSpawn > (SPAWN_INTERVAL_BASE * 1000) / (v / 15) / divisor)"

text \<open>Step 4, first part: spawn two decorations when they are due.\<close>

definition decorationSpawn :: "real \<Rightarrow> tick_env \<Rightarrow> engine \<Rightarrow> engine" where
  "decorationSpawn time env e =
     (if spawnDue time (lastDecorSpawnTimeRef e) (speedRef e) 8
      then (spawnDecoration (SPAWN_DISTANCE - r_z (decorDraw2 env) * 20) (decorDraw2 env)
              (spawnDecoration (SPAWN_DISTANCE - r_z (decorDraw1 env) * 20) (decorDraw1 env)
                 e))\<lparr>lastDecorSpawnTimeRef := time\<rparr>
      else e)"

text \<open>Step 4, second part: move the decorations and remove, by id, those past z = 20.\<close>

definition decorationUpdate :: "real \<Rightarrow> engine \<Rightarrow> engine" where
  "decorationUpdate dt e =
     (let moved = map (\<lambda>dec. dec\<lparr>d_z := d_z dec + speedRef e * dt\<rparr>) (decorationsRef e);
          decorsToRemove = map d_id (filter (\<lambda>dec. d_z dec > 20) moved)
      in e\<lparr>decorationsRef := filter (\<lambda>d. d_id d \<notin> set decorsToRemove) moved\<rparr>)"

text \<open>Step 5, first part: spawn an obstacle when one is due.\<close>

definition obstacleSpawn :: "real \<Rightarrow> tick_env \<Rightarrow> engine \<Rightarrow> engine" where
  "obstacleSpawn time env e =
     (if spawnDue time (lastSpawnTimeRef e) (speedRef e) 1
      then (spawnObstacle SPAWN_DISTANCE (obstacleDraw env) e)\<lparr>lastSpawnTimeRef := time\<rparr>
      else e)"

text \<open>
  The body of \<^verbatim>\<open>obstaclesRef.current.forEach\<close> for one obstacle: move, collision
  test with the invincibility check, scoring. \<open>now\<close> is the reading of
  \<^verbatim>\<open>performance.now()\<close>; the result is the obstacle as mutated, the engine, and
  \<^verbatim>\<open>obstaclesToRemove\<close>.
\<close>

definition obstacleBody ::
  "real \<Rightarrow> real \<Rightarrow> obstacle3d \<Rightarrow> engine \<Rightarrow> real list \<Rightarrow> obstacle3d \<times> engine \<times> real list"
where
  "obstacleBody dt now obs e toRemove =
     (let obs1 = obs\<lparr>o_z := o_z obs + speedRef e * dt\<rparr>;
          player = playerStateRef e;
          e1 = (if o_z obs1 > - 1 \<and> o_z obs1 < 1
                then (if o_lane obs1 = lane player
                      then (if yPosition player < 1.1
                            then (if now - lastHitTimeRef e > INVINCIBILITY_DURATION
                                  then e\<lparr>lastHitTimeRef := now,
                                         gameState := hitUpdate (scoreRef e) (gameState e)\<rparr>
                                  else e)
                            else e)
                      else e)
                else e)
      in if o_z obs1 > 5
         then (if \<not> o_passed obs1
               then (obs1\<lparr>o_passed := True\<rparr>, e1\<lparr>scoreRef := scoreRef e1 + 10\<rparr>,
                     toRemove @ [o_id obs1])
               else (obs1, e1, toRemove @ [o_id obs1]))
         else (obs1, e1, toRemove))"

fun obstacleLoop ::
  "real \<Rightarrow> (nat \<Rightarrow> real) \<Rightarrow> nat \<Rightarrow> obstacle3d list \<Rightarrow> engine \<Rightarrow> real list
     \<Rightarrow> obstacle3d list \<times> engine \<times> real list"
where
  "obstacleLoop dt clk k [] e toRemove = ([], e, toRemove)"
| "obstacleLoop dt clk k (obs # rest) e toRemove =
     (let (obs', e1, toRemove1) = obstacleBody dt (clk k) obs e toRemove;
          (rest', e2, toRemove2) = obstacleLoop dt clk (Suc k) rest e1 toRemove1
      in (obs' # rest', e2, toRemove2))"

text \<open>Step 5, second part: the loop over the obstacles and the removal by id.\<close>

definition obstacleUpdate :: "real \<Rightarrow> (nat \<Rightarrow> real) \<Rightarrow> engine \<Rightarrow> engine" where
  "obstacleUpdate dt clk e =
     (let (obs, e1, obstaclesToRemove) = obstacleLoop dt clk 0 (obstaclesRef e) e []
      in e1\<lparr>obstaclesRef := filter (\<lambda>ob. o_id ob \<notin> set obstaclesToRemove) obs\<rparr>)"

definition updateGameLogic :: "real \<Rightarrow> real \<Rightarrow> tick_env \<Rightarrow> engine \<Rightarrow> engine" where
  "updateGameLogic dt time env e =
     obstacleUpdate dt (clock env)
       (obstacleSpawn time env
         (decorationUpdate dt
           (decorationSpawn time env
             ((difficulty e)\<lparr>playerStateRef :=
                 playerPhysics time (playerStateRef (difficulty e))\<rparr>))))"

text \<open>\<^verbatim>\<open>animate\<close>, the callback of \<^verbatim>\<open>requestAnimationFrame\<close>.\<close>

definition animate :: "real \<Rightarrow> tick_env \<Rightarrow> engine \<Rightarrow> engine" where
  "animate time env e =
     (if \<not> isPlayingRef e then e
      else if isPausedRef e then e\<lparr>lastTimeRef := time\<rparr>
      else updateGameLogic ((time - lastTimeRef e) / 1000) time env (e\<lparr>lastTimeRef := time\<rparr>))"

text \<open>
  The effect with dependencies \<^verbatim>\<open>[gameState.isPlaying, gameState.gameOver]\<close>: its
  cleanup (which stops the loop) followed by its body (which resets every ref and
  starts the loop only when the rendered state is playing and not game over).
  \<open>now\<close> and \<open>now'\<close> are the two readings of \<^verbatim>\<open>performance.now()\<close> in the body.
\<close>

definition gameLoopEffect :: "real \<Rightarrow> real \<Rightarrow> engine \<Rightarrow> engine" where
  "gameLoopEffect now now' e =
     (let e1 = e\<lparr>isPlayingRef := False\<rparr>;
          e2 = e1\<lparr>gestures := resetGestureState,
                  lastTimeRef := now,
                  lastSpawnTimeRef := now,
                  lastDecorSpawnTimeRef := now,
                  playerStateRef := initialPlayer,
                  obstaclesRef := [],
                  decorationsRef := [],
                  scoreRef := 0,
                  speedRef := START_SPEED,
                  lastHitTimeRef := 0\<rparr>
      in if isPlaying (renderedState e2) \<and> \<not> gameOver (renderedState e2)
         then e2\<lparr>isPlayingRef := True, lastTimeRef := now'\<rparr>
         else e2)"

text \<open>
  The input-handling effect; it reads the rendered state. \<^verbatim>\<open>poseData\<close> is
  \<^verbatim>\<open>null\<close> (\<open>None\<close>) or the result object of the pose estimator, whose
  \<^verbatim>\<open>poseLandmarks\<close> may be undefined. An exception thrown by \<^verbatim>\<open>detectGesture\<close>
  is not caught here.
\<close>

record pose_results =
  poseLandmarks :: "landmarks option"

definition inputEffect :: "pose_results option \<Rightarrow> real \<Rightarrow> engine \<Rightarrow> error + engine" where
  "inputEffect poseData now e =
     (if \<not> isPlaying (renderedState e) \<or> gameOver (renderedState e) \<or>
         isPaused (renderedState e) \<or> poseData = None
      then Inr e
      else (case detectGesture (poseLandmarks (the poseData)) now (gestures e) of
              (Inl err, g') \<Rightarrow> Inl err
            | (Inr gesture, g') \<Rightarrow>
                Inr (e\<lparr>gestures := g',
                       playerStateRef := applyGesture gesture now (playerStateRef e)\<rparr>)))"


section \<open>A session as a sequence of events\<close>

text \<open>
  What happens to the component, one event at a time.

  \<^item> \<open>Frame\<close>: the browser calls \<^verbatim>\<open>animate\<close>. A \<^verbatim>\<open>setGameState\<close> made inside
    it is only queued: React renders later, so further frames can run before the
    component sees the new state.
  \<^item> \<open>Render\<close>: React renders the component with the current state and runs the
    effects whose dependencies changed: the game-loop effect when \<^verbatim>\<open>isPlaying\<close>
    or \<^verbatim>\<open>gameOver\<close> changed, the pause sync when \<^verbatim>\<open>isPaused\<close> changed.
  \<^item> \<open>Pose\<close>: a new pose sample arrives through \<^verbatim>\<open>setPoseData\<close>; the render it
    causes is a \<open>Render\<close> followed by the input-handling effect.
  \<^item> \<open>Start\<close>, \<open>Restart\<close>, \<open>Pause\<close>, \<open>Resume\<close>: a button is pressed; React
    renders before the click handler returns to the browser.

  \<open>ec\<close> holds the two clock readings the game-loop effect would take.
\<close>

datatype event =
    Frame real tick_env
  | Render
  | Pose "pose_results option" real
  | Start
  | Restart
  | Pause
  | Resume

definition commit :: "real \<times> real \<Rightarrow> engine \<Rightarrow> engine" where
  "commit ec e =
     (let before = renderedState e;
          e0 = e\<lparr>renderedState := gameState e\<rparr>;
          e1 = (if isPaused (renderedState e0) \<noteq> isPaused before
                then e0\<lparr>isPausedRef := isPaused (renderedState e0)\<rparr> else e0)
      in if isPlaying (renderedState e0) \<noteq> isPlaying before \<or>
            gameOver (renderedState e0) \<noteq> gameOver before
         then gameLoopEffect (fst ec) (snd ec) e1
         else e1)"

fun step :: "real \<times> real \<Rightarrow> event \<Rightarrow> engine \<Rightarrow> error + engine" where
  "step ec (Frame time env) e = Inr (animate time env e)"
| "step ec Render e = Inr (commit ec e)"
| "step ec (Pose poseData now) e = inputEffect poseData now (commit ec e)"
| "step ec Start e = Inr (commit ec (e\<lparr>gameState := handleStart (gameState e)\<rparr>))"
| "step ec Restart e = Inr (commit ec (e\<lparr>gameState := handleRestart (gameState e)\<rparr>))"
| "step ec Pause e = Inr (commit ec (e\<lparr>gameState := handlePause (gameState e)\<rparr>))"
| "step ec Resume e = Inr (commit ec (e\<lparr>gameState := handleResume (gameState e)\<rparr>))"

fun run :: "((real \<times> real) \<times> event) list \<Rightarrow> engine \<Rightarrow> error + engine" where
  "run [] e = Inr e"
| "run ((ec, ev) # rest) e =
     (case step ec ev e of Inl err \<Rightarrow> Inl err | Inr e1 \<Rightarrow> run rest e1)"

text \<open>
  The events that are not a press of a button: animation frames, renders and pose
  samples.
\<close>

fun quiet_event :: "event \<Rightarrow> bool" where
  "quiet_event (Frame time env) = True"
| "quiet_event Render = True"
| "quiet_event (Pose poseData now) = True"
| "quiet_event Start = False"
| "quiet_event Restart = False"
| "quiet_event Pause = False"
| "quiet_event Resume = False"

text \<open>The component after mounting: initial React state, refs as the first run of the
  game-loop effect leaves them (not playing, so no loop).\<close>

definition initialEngine :: "real \<Rightarrow> engine" where
  "initialEngine now =
     \<lparr>gameState = initialGameState, renderedState = initialGameState,
      gestures = resetGestureState, lastHitTimeRef = 0,
      playerStateRef = initialPlayer, obstaclesRef = [], decorationsRef = [],
      speedRef = START_SPEED, scoreRef = 0, lastTimeRef = now, lastSpawnTimeRef = now,
      lastDecorSpawnTimeRef = now, isPlayingRef = False, isPausedRef = False\<rparr>"


section \<open>Auxiliary notions for the statements\<close>

text \<open>
  A full pose with every landmark at the same point: nose x is \<open>nx\<close>, torso y is
  \<open>ty\<close>. Used to build concrete samples.
\<close>

definition posture :: "real \<Rightarrow> real \<Rightarrow> landmarks" where
  "posture nx ty = replicate 25 (Some \<lparr>lm_x = nx, lm_y = ty\<rparr>)"

text \<open>The value \<^verbatim>\<open>currentY\<close> computed from the four torso landmarks.\<close>

definition torsoY :: "landmark \<Rightarrow> landmark \<Rightarrow> landmark \<Rightarrow> landmark \<Rightarrow> real" where
  "torsoY lh rh ls rs = (lm_y lh + lm_y rh + lm_y ls + lm_y rs) / 4"

text \<open>
  The torso y of a sample whose hips and shoulders are present, and the number of
  \<open>JUMP\<close>s among the outcomes of a run.
\<close>

definition torso :: "landmarks \<Rightarrow> real option" where
  "torso lms =
     (case at_index lms 23 of None \<Rightarrow> None | Some lh \<Rightarrow>
     (case at_index lms 24 of None \<Rightarrow> None | Some rh \<Rightarrow>
     (case at_index lms 11 of None \<Rightarrow> None | Some ls \<Rightarrow>
     (case at_index lms 12 of None \<Rightarrow> None | Some rs \<Rightarrow> Some (torsoY lh rh ls rs)))))"

definition jumpCount :: "(real \<times> (error + gesture)) list \<Rightarrow> nat" where
  "jumpCount evs = length (filter (\<lambda>e. snd e = Inr JUMP) evs)"

text \<open>
  \<^verbatim>\<open>currentY\<close> as the rounded arithmetic computes it, and a rounding to try the
  rounded model on: to the nearest multiple of \<open>2\<^sup>-\<^sup>2\<^sup>0\<close>.
\<close>

definition torsoY_fl :: "(real \<Rightarrow> real) \<Rightarrow> landmark \<Rightarrow> landmark \<Rightarrow> landmark \<Rightarrow> landmark \<Rightarrow> real" where
  "torsoY_fl fl lh rh ls rs = fl (fl (fl (fl (lm_y lh + lm_y rh) + lm_y ls) + lm_y rs) / 4)"

definition grid :: "real \<Rightarrow> real" where
  "grid x = real_of_int (round (x * 1048576)) / 1048576"

text \<open>
  The calibration buffer holds \<open>k\<close> copies of \<open>Y\<close> and, once it is not empty, the
  baseline is \<open>Y\<close>.
\<close>

definition calibrated :: "real \<Rightarrow> nat \<Rightarrow> gesture_state \<Rightarrow> bool" where
  "calibrated Y k s \<longleftrightarrow>
     hipYHistory s = replicate k Y \<and> k \<le> 30 \<and> (0 < k \<longrightarrow> baselineHipY s = Y)"

text \<open>
  The same with a tolerance: the baseline is within \<open>e\<close> of \<open>Y\<close>.
\<close>

definition calibrated_within :: "real \<Rightarrow> real \<Rightarrow> nat \<Rightarrow> gesture_state \<Rightarrow> bool" where
  "calibrated_within e Y k s \<longleftrightarrow>
     hipYHistory s = replicate k Y \<and> k \<le> 30 \<and> (0 < k \<longrightarrow> \<bar>baselineHipY s - Y\<bar> \<le> e)"

text \<open>
  \<open>n\<close> samples of the same landmarks, 100 ms apart; the classifier state that 30
  upright samples (torso y 0.5) leave behind; and samples that lean left, lean
  right and raise the torso three times.
\<close>

definition samplesOf :: "landmarks \<Rightarrow> nat \<Rightarrow> (landmarks option \<times> real) list" where
  "samplesOf lms n = map (\<lambda>k. (Some lms, real k * 100)) [0..<n]"

definition calibratedState :: gesture_state where
  "calibratedState =
     \<lparr>hipYHistory = replicate 30 0.5, baselineHipY = 0.5, lastJumpTime = 0,
      lastGestureTime = 0\<rparr>"

definition gestureSamples :: "(landmarks option \<times> real) list" where
  "gestureSamples =
     [(Some (posture 0.7 0.5), 5000), (Some (posture 0.3 0.5), 5400),
      (Some (posture 0.5 0.4), 5801), (Some (posture 0.5 0.4), 6600),
      (Some (posture 0.5 0.4), 6602)]"

text \<open>The objects pushed by \<^verbatim>\<open>spawnDecoration\<close> and \<^verbatim>\<open>spawnObstacle\<close>.\<close>

definition decorationOf :: "real \<Rightarrow> decor_draw \<Rightarrow> decoration3d" where
  "decorationOf z d =
     \<lparr>d_id = r_id d,
      d_x = (if r_side d > 0.5 then - (8 + r_offset d * 50) else 8 + r_offset d * 50),
      d_z = z,
      d_type = (if r_type d > 0.75 then tree else if r_type d > 0.4 then flower else grass),
      d_rotation = r_rotation d * Math_PI * 2\<rparr>"

definition obstacleOf :: "real \<Rightarrow> obstacle_draw \<Rightarrow> obstacle3d" where
  "obstacleOf z d =
     \<lparr>o_id = r_oid d, o_lane = \<lfloor>r_lane d * 3\<rfloor>, o_z = z, o_type = lava_block,
      o_passed = False\<rparr>"

text \<open>Removal of the decorations past z = 20, by id.\<close>

definition cullDecorations :: "decoration3d list \<Rightarrow> decoration3d list" where
  "cullDecorations ds =
     filter (\<lambda>d. d_id d \<notin> set (map d_id (filter (\<lambda>dec. d_z dec > 20) ds))) ds"

text \<open>
  The depth of an obstacle after this tick's move, the collision condition in the
  words of the specification (same lane, height below 1.1, depth strictly between
  -1 and 1), and the obstacle as the loop leaves it.
\<close>

definition movedZ :: "real \<Rightarrow> engine \<Rightarrow> obstacle3d \<Rightarrow> real" where
  "movedZ dt e ob = o_z ob + speedRef e * dt"

definition collides :: "real \<Rightarrow> engine \<Rightarrow> obstacle3d \<Rightarrow> bool" where
  "collides dt e ob \<longleftrightarrow>
     o_lane ob = lane (playerStateRef e) \<and> yPosition (playerStateRef e) < 1.1 \<and>
     - 1 < movedZ dt e ob \<and> movedZ dt e ob < 1"

definition advanced :: "real \<Rightarrow> engine \<Rightarrow> obstacle3d \<Rightarrow> obstacle3d" where
  "advanced dt e ob =
     ob\<lparr>o_z := movedZ dt e ob, o_passed := (o_passed ob \<or> movedZ dt e ob > 5)\<rparr>"

text \<open>The engine inside \<^verbatim>\<open>updateGameLogic\<close> when the obstacle loop starts.\<close>

definition beforeLoop :: "real \<Rightarrow> real \<Rightarrow> tick_env \<Rightarrow> engine \<Rightarrow> engine" where
  "beforeLoop dt time env e =
     obstacleSpawn time env
       (decorationUpdate dt
         (decorationSpawn time env
           ((difficulty e)\<lparr>playerStateRef :=
               playerPhysics time (playerStateRef (difficulty e))\<rparr>)))"

text \<open>
  The ids of all live obstacles and decorations; the values a frame draws for ids;
  all such values of a session.
\<close>

definition live_ids :: "engine \<Rightarrow> real list" where
  "live_ids e = map o_id (obstaclesRef e) @ map d_id (decorationsRef e)"

fun draw_ids :: "event \<Rightarrow> real list" where
  "draw_ids (Frame time env) =
     [r_id (decorDraw1 env), r_id (decorDraw2 env), r_oid (obstacleDraw env)]"
| "draw_ids _ = []"

definition session_draws :: "((real \<times> real) \<times> event) list \<Rightarrow> real list" where
  "session_draws evs = concat (map (\<lambda>x. draw_ids (snd x)) evs)"

text \<open>What holds of the engine between any two events of a session.\<close>

definition gs_ok :: "game_state \<Rightarrow> bool" where
  "gs_ok g \<longleftrightarrow> (gameOver g \<longleftrightarrow> lives g = 0) \<and> 0 \<le> lives g \<and> lives g \<le> 3"

definition session_inv :: "engine \<Rightarrow> bool" where
  "session_inv e \<longleftrightarrow>
     gs_ok (gameState e) \<and>
     (isPlayingRef e \<longrightarrow> isPlaying (renderedState e) \<and> \<not> gameOver (renderedState e)) \<and>
     (\<not> isPlayingRef e \<longrightarrow> renderedState e = gameState e) \<and>
     isPausedRef e = isPaused (renderedState e) \<and>
     (\<forall>ob \<in> set (obstaclesRef e). \<not> o_passed ob) \<and>
     lane (playerStateRef e) \<in> {0, 1, 2} \<and>
     0 \<le> scoreRef e"

text \<open>
  Concrete inputs: an obstacle; an engine in mid-game (started at 10000 ms, three
  lives, score 0) with given obstacles; the outside values of a frame, with the
  lane draw, ids \<open>idBase + 1 .. idBase + 3\<close> and one clock reading; the same with
  both decorations drawing the same id; a session in which the player is hit at
  4000, 8000 and 11900 ms; the same session followed by React's render; and the same
  session followed instead by one more frame at 12200 ms.
\<close>

definition lava :: "real \<Rightarrow> int \<Rightarrow> real \<Rightarrow> obstacle3d" where
  "lava i l z = \<lparr>o_id = i, o_lane = l, o_z = z, o_type = lava_block, o_passed = False\<rparr>"

definition exampleEngine :: "obstacle3d list \<Rightarrow> engine" where
  "exampleEngine obs =
     (initialEngine 10000)
       \<lparr>gameState := handleStart initialGameState,
        renderedState := handleStart initialGameState,
        obstaclesRef := obs, isPlayingRef := True\<rparr>"

definition drawEnv :: "real \<Rightarrow> real \<Rightarrow> real \<Rightarrow> tick_env" where
  "drawEnv laneDraw idBase now =
     \<lparr>decorDraw1 = \<lparr>r_z = 0.5, r_side = 0.25, r_offset = 0.5, r_type = 0.5, r_id = idBase + 1,
                    r_rotation = 0\<rparr>,
      decorDraw2 = \<lparr>r_z = 0.25, r_side = 0.75, r_offset = 0.5, r_type = 0.875, r_id = idBase + 2,
                    r_rotation = 0\<rparr>,
      obstacleDraw = \<lparr>r_lane = laneDraw, r_oid = idBase + 3\<rparr>,
      clock = (\<lambda>k. now)\<rparr>"

definition dupEnv :: tick_env where
  "dupEnv = (drawEnv 0.5 10 200)\<lparr>decorDraw2 := decorDraw1 (drawEnv 0.5 10 200)\<rparr>"

definition threeHits :: "((real \<times> real) \<times> event) list" where
  "threeHits =
     [((0, 0), Start),
      ((1600, 1600), Frame 1600 (drawEnv 0.5 10 1600)),
      ((4000, 4000), Frame 4000 (drawEnv 0.125 20 4000)),
      ((5600, 5600), Frame 5600 (drawEnv 0.5 30 5600)),
      ((8000, 8000), Frame 8000 (drawEnv 0.125 40 8000)),
      ((9600, 9600), Frame 9600 (drawEnv 0.5 50 9600)),
      ((11900, 11900), Frame 11900 (drawEnv 0.5 60 11900))]"

definition threeHitsRendered :: "((real \<times> real) \<times> event) list" where
  "threeHitsRendered = threeHits @ [((12000, 12000), Render)]"

definition threeHitsOneMore :: "((real \<times> real) \<times> event) list" where
  "threeHitsOneMore = threeHits @ [((12200, 12200), Frame 12200 (drawEnv 0.5 70 12200))]"

definition twoFrames :: "((real \<times> real) \<times> event) list" where
  "twoFrames = [((0, 0), Start), ((200, 200), Frame 200 dupEnv)]"


section \<open>Gesture classifier: cooldowns\<close>

lemmas GAME_CONSTANTS =
  JUMP_HEIGHT_def JUMP_DURATION_def START_SPEED_def MAX_SPEED_def SPAWN_DISTANCE_def
  SPAWN_INTERVAL_BASE_def LANE_CHANGE_COOLDOWN_def JUMP_COOLDOWN_def
  LEAN_THRESHOLD_LEFT_def LEAN_THRESHOLD_RIGHT_def JUMP_THRESHOLD_Y_def
  INVINCIBILITY_DURATION_def


lemma classify_JUMP:
  assumes "classify nose cy t s = (Inr JUMP, s')"
  shows "t > lastJumpTime s + JUMP_COOLDOWN \<and> t > lastGestureTime s + LANE_CHANGE_COOLDOWN \<and>
         lastJumpTime s' = t \<and> lastGestureTime s' = lastGestureTime s"
  using assms
  by (auto simp: classify_def Let_def split: if_splits option.splits)

lemma classify_lean:
  assumes "classify nose cy t s = (Inr g, s')" "g = LEFT \<or> g = RIGHT"
  shows "t \<ge> lastGestureTime s + LANE_CHANGE_COOLDOWN \<and>
         lastGestureTime s' = t \<and> lastJumpTime s' = lastJumpTime s"
  using assms
  by (auto simp: classify_def Let_def split: if_splits option.splits)

lemma classify_mono:
  assumes "classify nose cy t s = (r, s')"
  shows "lastJumpTime s \<le> lastJumpTime s' \<and> lastGestureTime s \<le> lastGestureTime s'"
  using assms
  by (auto simp: classify_def Let_def GAME_CONSTANTS split: if_splits option.splits)

text \<open>
  A call either leaves both timestamps alone and emits no gesture other than
  \<open>NONE\<close>, or it went through \<open>classify\<close>.
\<close>

lemma detectGesture_cases:
  assumes "detectGesture lmo t s = (r, s')"
  obtains (quiet) "r \<noteq> Inr JUMP" "r \<noteq> Inr LEFT" "r \<noteq> Inr RIGHT"
      "lastJumpTime s' = lastJumpTime s" "lastGestureTime s' = lastGestureTime s"
  | (classified) nose cy where "classify nose cy t s = (r, s')"
  using assms
  by (auto simp: detectGesture_def Let_def split: option.splits if_splits)

lemma detectGesture_JUMP:
  assumes "detectGesture lmo t s = (Inr JUMP, s')"
  shows "t > lastJumpTime s + JUMP_COOLDOWN \<and> t > lastGestureTime s + LANE_CHANGE_COOLDOWN \<and>
         lastJumpTime s' = t \<and> lastGestureTime s' = lastGestureTime s"
  using assms by (cases rule: detectGesture_cases) (auto dest: classify_JUMP)

lemma detectGesture_lean:
  assumes "detectGesture lmo t s = (Inr g, s')" "g = LEFT \<or> g = RIGHT"
  shows "t \<ge> lastGestureTime s + LANE_CHANGE_COOLDOWN \<and>
         lastGestureTime s' = t \<and> lastJumpTime s' = lastJumpTime s"
  using assms by (cases rule: detectGesture_cases) (auto dest: classify_lean)

lemma detectGesture_mono:
  assumes "detectGesture lmo t s = (r, s')"
  shows "lastJumpTime s \<le> lastJumpTime s' \<and> lastGestureTime s \<le> lastGestureTime s'"
  using assms by (cases rule: detectGesture_cases) (auto dest: classify_mono)

lemma detectAll_Cons:
  assumes "detectAll ((lmo, t) # rest) s = (evs, s')"
  obtains r s1 rs where "detectGesture lmo t s = (r, s1)" "detectAll rest s1 = (rs, s')"
    "evs = (t, r) # rs"
  using assms by (auto split: prod.splits)

text \<open>
  Every \<open>JUMP\<close> of a run lies beyond both cooldowns counted from the timestamps the
  run started with; every lean lies at least the lane cooldown after the starting
  \<^verbatim>\<open>lastGestureTime\<close>. No order on the sample timestamps is needed: the two
  stored timestamps never decrease.
\<close>

lemma detectAll_JUMP_bound:
  "detectAll xs s = (evs, s') \<Longrightarrow> (t, Inr JUMP) \<in> set evs \<Longrightarrow>
     t > lastJumpTime s + JUMP_COOLDOWN \<and> t > lastGestureTime s + LANE_CHANGE_COOLDOWN"
proof (induction xs arbitrary: s evs)
  case Nil
  then show ?case by simp
next
  case (Cons a xs)
  obtain lmo u where a: "a = (lmo, u)" by (cases a)
  from Cons.prems(1) obtain r s1 rs where
    st: "detectGesture lmo u s = (r, s1)" and re: "detectAll xs s1 = (rs, s')"
    and ev: "evs = (u, r) # rs"
    unfolding a by (rule detectAll_Cons)
  from Cons.prems(2) ev consider "(t, Inr JUMP) = (u, r)" | "(t, Inr JUMP) \<in> set rs" by auto
  then show ?case
  proof cases
    case 1
    with st detectGesture_JUMP[of lmo t s s1] show ?thesis by simp
  next
    case 2
    from Cons.IH[OF re 2] detectGesture_mono[OF st] show ?thesis by linarith
  qed
qed

lemma detectAll_lean_bound:
  "detectAll xs s = (evs, s') \<Longrightarrow> (t, Inr g) \<in> set evs \<Longrightarrow> g = LEFT \<or> g = RIGHT \<Longrightarrow>
     t \<ge> lastGestureTime s + LANE_CHANGE_COOLDOWN"
proof (induction xs arbitrary: s evs)
  case Nil
  then show ?case by simp
next
  case (Cons a xs)
  obtain lmo u where a: "a = (lmo, u)" by (cases a)
  from Cons.prems(1) obtain r s1 rs where
    st: "detectGesture lmo u s = (r, s1)" and re: "detectAll xs s1 = (rs, s')"
    and ev: "evs = (u, r) # rs"
    unfolding a by (rule detectAll_Cons)
  from Cons.prems(2) ev consider "(t, Inr g) = (u, r)" | "(t, Inr g) \<in> set rs" by auto
  then show ?case
  proof cases
    case 1
    with st detectGesture_lean[of lmo t s g s1] Cons.prems(3) show ?thesis by simp
  next
    case 2
    have "0 \<le> LANE_CHANGE_COOLDOWN" by (simp add: GAME_CONSTANTS)
    with Cons.IH[OF re 2 Cons.prems(3)] detectGesture_mono[OF st] show ?thesis by linarith
  qed
qed

lemma detectAll_spacing:
  assumes "detectAll xs s = (evs, s')"
    and "i < j" and "j < length evs"
    and "evs ! i = (ti, Inr gi)" and "evs ! j = (tj, Inr gj)"
  shows "(gi = JUMP \<and> gj = JUMP \<longrightarrow> tj - ti > JUMP_COOLDOWN) \<and>
         (gi \<in> {LEFT, RIGHT} \<and> gj = JUMP \<longrightarrow> tj - ti > LANE_CHANGE_COOLDOWN) \<and>
         (gi \<in> {LEFT, RIGHT} \<and> gj \<in> {LEFT, RIGHT} \<longrightarrow> tj - ti \<ge> LANE_CHANGE_COOLDOWN)"
  using assms
proof (induction xs arbitrary: s evs i j)
  case Nil
  then show ?case by simp
next
  case (Cons a xs)
  obtain lmo u where a: "a = (lmo, u)" by (cases a)
  from Cons.prems(1) obtain r s1 rs where
    st: "detectGesture lmo u s = (r, s1)" and re: "detectAll xs s1 = (rs, s')"
    and ev: "evs = (u, r) # rs"
    unfolding a by (rule detectAll_Cons)
  from Cons.prems(2) obtain j' where j: "j = Suc j'" by (cases j) auto
  with Cons.prems(3,5) ev have j'len: "j' < length rs" and j'ev: "rs ! j' = (tj, Inr gj)"
    by auto
  then have mem: "(tj, Inr gj) \<in> set rs" by (metis nth_mem)
  show ?case
  proof (cases i)
    case 0
    with Cons.prems(4) ev have r: "u = ti" "r = Inr gi" by auto
    have jj: "gi = JUMP \<and> gj = JUMP \<longrightarrow> tj - ti > JUMP_COOLDOWN"
    proof
      assume g: "gi = JUMP \<and> gj = JUMP"
      with st r have "lastJumpTime s1 = ti" using detectGesture_JUMP[of lmo ti s s1] by simp
      moreover from g mem detectAll_JUMP_bound[OF re, of tj]
      have "tj > lastJumpTime s1 + JUMP_COOLDOWN" by simp
      ultimately show "tj - ti > JUMP_COOLDOWN" by linarith
    qed
    have lj: "gi \<in> {LEFT, RIGHT} \<and> gj = JUMP \<longrightarrow> tj - ti > LANE_CHANGE_COOLDOWN"
    proof
      assume g: "gi \<in> {LEFT, RIGHT} \<and> gj = JUMP"
      with st r have "lastGestureTime s1 = ti"
        using detectGesture_lean[of lmo ti s gi s1] by auto
      moreover from g mem detectAll_JUMP_bound[OF re, of tj]
      have "tj > lastGestureTime s1 + LANE_CHANGE_COOLDOWN" by simp
      ultimately show "tj - ti > LANE_CHANGE_COOLDOWN" by linarith
    qed
    have ll: "gi \<in> {LEFT, RIGHT} \<and> gj \<in> {LEFT, RIGHT} \<longrightarrow> tj - ti \<ge> LANE_CHANGE_COOLDOWN"
    proof
      assume g: "gi \<in> {LEFT, RIGHT} \<and> gj \<in> {LEFT, RIGHT}"
      with st r have "lastGestureTime s1 = ti"
        using detectGesture_lean[of lmo ti s gi s1] by auto
      moreover from g mem detectAll_lean_bound[OF re, of tj gj]
      have "tj \<ge> lastGestureTime s1 + LANE_CHANGE_COOLDOWN" by auto
      ultimately show "tj - ti \<ge> LANE_CHANGE_COOLDOWN" by linarith
    qed
    from jj lj ll show ?thesis by blast
  next
    case (Suc i')
    with Cons.prems(2,4) j ev have "i' < j'" "rs ! i' = (ti, Inr gi)" by auto
    from Cons.IH[OF re this(1) j'len this(2) j'ev] show ?thesis .
  qed
qed

text \<open>
  A single call after calibration, for a sample whose hips and shoulders are
  present. The baseline drifts only while the torso is within 0.05 of it, and a
  drifted baseline is still within 0.05 of the torso: whether the call returns
  \<open>JUMP\<close> depends on the baseline the call started with.
\<close>

lemma detectGesture_torso:
  assumes "at_index lms 23 = Some lh" "at_index lms 24 = Some rh"
    "at_index lms 11 = Some ls" "at_index lms 12 = Some rs"
  shows "detectGesture (Some lms) t s =
     (if length (hipYHistory s) < 30
      then (Inr NONE, s\<lparr>hipYHistory := hipYHistory s @ [torsoY lh rh ls rs],
              baselineHipY := sum_list (hipYHistory s @ [torsoY lh rh ls rs]) /
                               real (length (hipYHistory s @ [torsoY lh rh ls rs]))\<rparr>)
      else classify (at_index lms 0) (torsoY lh rh ls rs) t s)"
  using assms by (simp add: detectGesture_def torsoY_def Let_def)


lemma detectGesture_torso_opt:
  assumes "torso lms = Some cy" "30 \<le> length (hipYHistory s)"
  shows "detectGesture (Some lms) t s = classify (at_index lms 0) cy t s"
  using assms
  by (auto simp: torso_def detectGesture_torso split: option.splits)

lemma classify_JUMP_iff:
  "fst (classify nose cy t s) = Inr JUMP \<longleftrightarrow>
     baselineHipY s - cy > 0.05 \<and> t - lastJumpTime s > 800 \<and> t - lastGestureTime s > 400"
proof (cases "\<bar>cy - baselineHipY s\<bar> < 0.05")
  case True
  then have "\<not> baselineHipY s + (cy - baselineHipY s) * 0.05 - cy > 0.05"
    by (simp add: abs_less_iff) argo
  moreover from True have "\<not> baselineHipY s - cy > 0.05"
    by (simp add: abs_less_iff) argo
  ultimately have "\<not> baselineHipY s + (cy - baselineHipY s) * 0.05 - cy > 0.05"
    and "\<not> baselineHipY s - cy > 0.05" by blast+
  with True show ?thesis
    by (simp add: classify_def Let_def GAME_CONSTANTS split: option.splits)
next
  case False
  then show ?thesis
    by (simp add: classify_def Let_def GAME_CONSTANTS split: option.splits)
qed

lemma classify_JUMP_state:
  assumes "baselineHipY s - cy > 0.05" "t - lastJumpTime s > 800" "t - lastGestureTime s > 400"
  shows "classify nose cy t s = (Inr JUMP, s\<lparr>lastJumpTime := t\<rparr>)"
proof -
  from assms(1) have "\<not> \<bar>cy - baselineHipY s\<bar> < 0.05"
    by (simp add: abs_less_iff)
  with assms show ?thesis by (simp add: classify_def Let_def GAME_CONSTANTS)
qed

lemma classify_lean_iff:
  "(fst (classify (Some n) cy t s) = Inr LEFT \<longleftrightarrow>
      \<not> (baselineHipY s - cy > 0.05 \<and> t - lastJumpTime s > 800 \<and> t - lastGestureTime s > 400) \<and>
      t - lastGestureTime s \<ge> 400 \<and> lm_x n > 0.6) \<and>
   (fst (classify (Some n) cy t s) = Inr RIGHT \<longleftrightarrow>
      \<not> (baselineHipY s - cy > 0.05 \<and> t - lastJumpTime s > 800 \<and> t - lastGestureTime s > 400) \<and>
      t - lastGestureTime s \<ge> 400 \<and> lm_x n < 0.4)"
proof (cases "\<bar>cy - baselineHipY s\<bar> < 0.05")
  case True
  then have "\<not> baselineHipY s + (cy - baselineHipY s) * 0.05 - cy > 0.05"
    by (simp add: abs_less_iff) argo
  moreover from True have "\<not> baselineHipY s - cy > 0.05"
    by (simp add: abs_less_iff) argo
  ultimately have "\<not> baselineHipY s + (cy - baselineHipY s) * 0.05 - cy > 0.05"
    and "\<not> baselineHipY s - cy > 0.05" by blast+
  with True show ?thesis
    by (auto simp: classify_def Let_def GAME_CONSTANTS)
next
  case False
  then show ?thesis
    by (auto simp: classify_def Let_def GAME_CONSTANTS)
qed

lemma two_displacements:
  assumes "30 \<le> length (hipYHistory s)" "torso lms = Some cy" "torso lmt = Some cz"
    "baselineHipY s - cy > 0.05" "baselineHipY s - cz > 0.05"
    "t - lastJumpTime s > 800" "t - lastGestureTime s > 400"
  shows "snd (fst (detectAll [(Some lms, t), (Some lmt, u)] s) ! 0) = Inr JUMP \<and>
         (snd (fst (detectAll [(Some lms, t), (Some lmt, u)] s) ! 1) = Inr JUMP \<longleftrightarrow> u - t > 800) \<and>
         jumpCount (fst (detectAll [(Some lms, t), (Some lmt, u)] s))
           = (if u - t > 800 then 2 else 1)"
proof -
  let ?s1 = "s\<lparr>lastJumpTime := t\<rparr>"
  have a: "detectGesture (Some lms) t s = (Inr JUMP, ?s1)"
    unfolding detectGesture_torso_opt[OF assms(2,1)]
    by (rule classify_JUMP_state[OF assms(4,6,7)])
  have l: "30 \<le> length (hipYHistory ?s1)" using assms(1) by simp
  obtain r s2 where b: "detectGesture (Some lmt) u ?s1 = (r, s2)"
    by (cases "detectGesture (Some lmt) u ?s1")
  have "fst (detectGesture (Some lmt) u ?s1) = Inr JUMP \<longleftrightarrow> u - t > 800"
    unfolding detectGesture_torso_opt[OF assms(3) l] classify_JUMP_iff
    using assms(5,7) by auto
  with b have r: "r = Inr JUMP \<longleftrightarrow> u - t > 800" by simp
  have d: "fst (detectAll [(Some lms, t), (Some lmt, u)] s) = [(t, Inr JUMP), (u, r)]"
    by (simp add: a b)
  show ?thesis unfolding d using r by (simp add: jumpCount_def)
qed

text \<open>
  Claim C6, as the code has it. For every sequence of samples, fed to the
  classifier from any state: two \<open>JUMP\<close>s are more than \<open>JUMP_COOLDOWN\<close> (800 ms)
  apart; a \<open>JUMP\<close> comes more than \<open>LANE_CHANGE_COOLDOWN\<close> (400 ms) after every
  earlier \<open>LEFT\<close>/\<open>RIGHT\<close>; two lean gestures are at least 400 ms apart. Nothing
  is said about a lean that follows a \<open>JUMP\<close>: \<^verbatim>\<open>lastGestureTime\<close> is written by
  the lean branch only.

  After calibration a sample with hips and shoulders present returns \<open>JUMP\<close>
  exactly when its torso lies more than 0.05 above the baseline, more than 800 ms
  have passed since the last \<open>JUMP\<close> and more than 400 ms since the last lean;
  it returns \<open>LEFT\<close> (\<open>RIGHT\<close>) exactly when it does not return \<open>JUMP\<close>, at least
  400 ms have passed since the last lean and the nose x is above 0.6 (below 0.4).

  So of two jump-eligible displacements, the first arriving outside both
  cooldowns, the first returns \<open>JUMP\<close> and the second does exactly when it comes
  more than 800 ms after the first: fired \<open>JUMP_COOLDOWN - 1\<close> ms apart, they give
  exactly one \<open>JUMP\<close>.
\<close>

theorem gesture_spacing:
  "(i < j \<and> j < length (fst (detectAll xs s)) \<and>
    fst (detectAll xs s) ! i = (ti, Inr gi) \<and> fst (detectAll xs s) ! j = (tj, Inr gj) \<longrightarrow>
      (gi = JUMP \<and> gj = JUMP \<longrightarrow> tj - ti > JUMP_COOLDOWN) \<and>
      (gi \<in> {LEFT, RIGHT} \<and> gj = JUMP \<longrightarrow> tj - ti > LANE_CHANGE_COOLDOWN) \<and>
      (gi \<in> {LEFT, RIGHT} \<and> gj \<in> {LEFT, RIGHT} \<longrightarrow> tj - ti \<ge> LANE_CHANGE_COOLDOWN)) \<and>
   JUMP_COOLDOWN = 800 \<and> LANE_CHANGE_COOLDOWN = 400 \<and>
   (30 \<le> length (hipYHistory s) \<and> torso lms = Some cy \<longrightarrow>
      (fst (detectGesture (Some lms) t s) = Inr JUMP \<longleftrightarrow>
         baselineHipY s - cy > 0.05 \<and> t - lastJumpTime s > 800 \<and> t - lastGestureTime s > 400) \<and>
      (at_index lms 0 = Some n \<longrightarrow>
         (fst (detectGesture (Some lms) t s) = Inr LEFT \<longleftrightarrow>
            \<not> (baselineHipY s - cy > 0.05 \<and> t - lastJumpTime s > 800 \<and>
               t - lastGestureTime s > 400) \<and>
            t - lastGestureTime s \<ge> 400 \<and> lm_x n > 0.6) \<and>
         (fst (detectGesture (Some lms) t s) = Inr RIGHT \<longleftrightarrow>
            \<not> (baselineHipY s - cy > 0.05 \<and> t - lastJumpTime s > 800 \<and>
               t - lastGestureTime s > 400) \<and>
            t - lastGestureTime s \<ge> 400 \<and> lm_x n < 0.4))) \<and>
   (30 \<le> length (hipYHistory s) \<and> torso lms = Some cy \<and> torso lmt = Some cz \<and>
    baselineHipY s - cy > 0.05 \<and> baselineHipY s - cz > 0.05 \<and>
    t - lastJumpTime s > 800 \<and> t - lastGestureTime s > 400 \<longrightarrow>
      snd (fst (detectAll [(Some lms, t), (Some lmt, u)] s) ! 0) = Inr JUMP \<and>
      (snd (fst (detectAll [(Some lms, t), (Some lmt, u)] s) ! 1) = Inr JUMP
         \<longleftrightarrow> u - t > 800) \<and>
      jumpCount (fst (detectAll [(Some lms, t), (Some lmt, t + (JUMP_COOLDOWN - 1))] s)) = 1)"
proof -
  have 1: "(gi = JUMP \<and> gj = JUMP \<longrightarrow> tj - ti > JUMP_COOLDOWN) \<and>
      (gi \<in> {LEFT, RIGHT} \<and> gj = JUMP \<longrightarrow> tj - ti > LANE_CHANGE_COOLDOWN) \<and>
      (gi \<in> {LEFT, RIGHT} \<and> gj \<in> {LEFT, RIGHT} \<longrightarrow> tj - ti \<ge> LANE_CHANGE_COOLDOWN)"
    if "i < j \<and> j < length (fst (detectAll xs s)) \<and>
        fst (detectAll xs s) ! i = (ti, Inr gi) \<and> fst (detectAll xs s) ! j = (tj, Inr gj)"
    using that
    by (intro detectAll_spacing[of xs s "fst (detectAll xs s)" "snd (detectAll xs s)" i j ti gi tj gj])
      simp_all
  have 2: "JUMP_COOLDOWN = 800 \<and> LANE_CHANGE_COOLDOWN = 400" by (simp add: GAME_CONSTANTS)
  have 3: "(fst (detectGesture (Some lms) t s) = Inr JUMP \<longleftrightarrow>
         baselineHipY s - cy > 0.05 \<and> t - lastJumpTime s > 800 \<and> t - lastGestureTime s > 400) \<and>
      (at_index lms 0 = Some n \<longrightarrow>
         (fst (detectGesture (Some lms) t s) = Inr LEFT \<longleftrightarrow>
            \<not> (baselineHipY s - cy > 0.05 \<and> t - lastJumpTime s > 800 \<and>
               t - lastGestureTime s > 400) \<and>
            t - lastGestureTime s \<ge> 400 \<and> lm_x n > 0.6) \<and>
         (fst (detectGesture (Some lms) t s) = Inr RIGHT \<longleftrightarrow>
            \<not> (baselineHipY s - cy > 0.05 \<and> t - lastJumpTime s > 800 \<and>
               t - lastGestureTime s > 400) \<and>
            t - lastGestureTime s \<ge> 400 \<and> lm_x n < 0.4))"
    if h: "30 \<le> length (hipYHistory s) \<and> torso lms = Some cy"
  proof -
    from h have d: "detectGesture (Some lms) t s = classify (at_index lms 0) cy t s"
      by (simp add: detectGesture_torso_opt)
    show ?thesis unfolding d using classify_JUMP_iff[of "at_index lms 0" cy t s]
        classify_lean_iff[of n cy t s] by simp
  qed
  have 4: "snd (fst (detectAll [(Some lms, t), (Some lmt, u)] s) ! 0) = Inr JUMP \<and>
      (snd (fst (detectAll [(Some lms, t), (Some lmt, u)] s) ! 1) = Inr JUMP
         \<longleftrightarrow> u - t > 800) \<and>
      jumpCount (fst (detectAll [(Some lms, t), (Some lmt, t + (JUMP_COOLDOWN - 1))] s)) = 1"
    if h: "30 \<le> length (hipYHistory s) \<and> torso lms = Some cy \<and> torso lmt = Some cz \<and>
    baselineHipY s - cy > 0.05 \<and> baselineHipY s - cz > 0.05 \<and>
    t - lastJumpTime s > 800 \<and> t - lastGestureTime s > 400"
  proof -
    from h have a: "30 \<le> length (hipYHistory s)" "torso lms = Some cy" "torso lmt = Some cz"
      "baselineHipY s - cy > 0.05" "baselineHipY s - cz > 0.05"
      "t - lastJumpTime s > 800" "t - lastGestureTime s > 400" by simp_all
    from two_displacements[OF a, of u] two_displacements[OF a, of "t + (JUMP_COOLDOWN - 1)"]
    show ?thesis by (simp add: JUMP_COOLDOWN_def)
  qed
  from 1 2 3 4 show ?thesis by blast
qed


text \<open>
  Thirty upright samples leave \<open>calibratedState\<close>. From there \<open>gestureSamples\<close>
  give \<open>LEFT\<close> at 5000 ms, \<open>RIGHT\<close> at 5400, \<open>JUMP\<close> at 5801, nothing at 6600
  (799 ms after the jump) and \<open>JUMP\<close> at 6602. A raised torso (y 0.4 against the
  baseline 0.5) at 5801 ms returns \<open>JUMP\<close>; followed by a second one 799 ms later
  the run has one \<open>JUMP\<close>, followed by one 801 ms later it has two.
\<close>

theorem gesture_spacing_witness:
  "snd (detectAll (samplesOf (posture 0.5 0.5) 30) resetGestureState) = calibratedState \<and>
   fst (detectAll gestureSamples calibratedState)
     = [(5000, Inr LEFT), (5400, Inr RIGHT), (5801, Inr JUMP), (6600, Inr NONE),
        (6602, Inr JUMP)] \<and>
   JUMP_COOLDOWN < (6602::real) - 5801 \<and>
   LANE_CHANGE_COOLDOWN < (5801::real) - 5400 \<and>
   LANE_CHANGE_COOLDOWN \<le> (5400::real) - 5000 \<and>
   torso (posture 0.5 0.4) = Some 0.4 \<and>
   fst (detectGesture (Some (posture 0.5 0.4)) 5801 calibratedState) = Inr JUMP \<and>
   fst (detectGesture (Some (posture 0.7 0.5)) 5000 calibratedState) = Inr LEFT \<and>
   fst (detectGesture (Some (posture 0.3 0.5)) 5000 calibratedState) = Inr RIGHT \<and>
   snd (fst (detectAll [(Some (posture 0.5 0.4), 5801), (Some (posture 0.5 0.4), 6600)]
               calibratedState) ! 0) = Inr JUMP \<and>
   jumpCount (fst (detectAll [(Some (posture 0.5 0.4), 5801),
                              (Some (posture 0.5 0.4), 5801 + (JUMP_COOLDOWN - 1))]
                     calibratedState)) = 1 \<and>
   snd (fst (detectAll [(Some (posture 0.5 0.4), 5801), (Some (posture 0.5 0.4), 6602)]
               calibratedState) ! 1) = Inr JUMP"
proof -
  let ?evs = "fst (detectAll gestureSamples calibratedState)"
  let ?up = "posture 0.5 0.4"
  let ?lm = "\<lambda>x y. \<lparr>lm_x = x, lm_y = y\<rparr> :: landmark"
  have c: "snd (detectAll (samplesOf (posture 0.5 0.5) 30) resetGestureState) = calibratedState"
    by code_simp
  have all: "?evs = [(5000, Inr LEFT), (5400, Inr RIGHT), (5801, Inr JUMP), (6600, Inr NONE),
        (6602, Inr JUMP)]"
    by code_simp
  have to: "torso ?up = Some 0.4" "torso (posture 0.7 0.5) = Some 0.5"
    "torso (posture 0.3 0.5) = Some 0.5"
    by (simp_all add: torso_def torsoY_def at_index_def posture_def)
  have no: "at_index ?up 0 = Some (?lm 0.5 0.4)" "at_index (posture 0.7 0.5) 0 = Some (?lm 0.7 0.5)"
    "at_index (posture 0.3 0.5) 0 = Some (?lm 0.3 0.5)"
    by (simp_all add: at_index_def posture_def)
  have cs: "length (hipYHistory calibratedState) = 30" "baselineHipY calibratedState = 0.5"
    "lastJumpTime calibratedState = 0" "lastGestureTime calibratedState = 0"
    by (simp_all add: calibratedState_def)
  note a = gesture_spacing[where i = 2 and j = 4 and xs = gestureSamples and s = calibratedState
      and ti = 5801 and gi = JUMP and tj = 6602 and gj = JUMP
      and lms = ?up and cy = "0.4" and t = 5801 and n = "?lm 0.5 0.4"
      and lmt = ?up and cz = "0.4" and u = 6600]
  note b = gesture_spacing[where i = 1 and j = 2 and xs = gestureSamples and s = calibratedState
      and ti = 5400 and gi = RIGHT and tj = 5801 and gj = JUMP
      and lms = "posture 0.7 0.5" and cy = "0.5" and t = 5000 and n = "?lm 0.7 0.5"
      and lmt = ?up and cz = "0.4" and u = 6602]
  note d = gesture_spacing[where i = 0 and j = 1 and xs = gestureSamples and s = calibratedState
      and ti = 5000 and gi = LEFT and tj = 5400 and gj = RIGHT
      and lms = "posture 0.3 0.5" and cy = "0.5" and t = 5000 and n = "?lm 0.3 0.5"
      and lmt = ?up and cz = "0.4" and u = 6602]
  note e = gesture_spacing[where i = 2 and j = 4 and xs = gestureSamples and s = calibratedState
      and ti = 5801 and gi = JUMP and tj = 6602 and gj = JUMP
      and lms = ?up and cy = "0.4" and t = 5801 and n = "?lm 0.5 0.4"
      and lmt = ?up and cz = "0.4" and u = 6602]
  have jj: "JUMP_COOLDOWN < (6602::real) - 5801" using a unfolding all by simp
  have lj: "LANE_CHANGE_COOLDOWN < (5801::real) - 5400" using b unfolding all by simp
  have ll: "LANE_CHANGE_COOLDOWN \<le> (5400::real) - 5000" using d unfolding all by simp
  have j1: "fst (detectGesture (Some ?up) 5801 calibratedState) = Inr JUMP"
    using a to no cs by simp
  have l1: "fst (detectGesture (Some (posture 0.7 0.5)) 5000 calibratedState) = Inr LEFT"
    using b to no cs by simp
  have r1: "fst (detectGesture (Some (posture 0.3 0.5)) 5000 calibratedState) = Inr RIGHT"
    using d to no cs by simp
  have t0: "snd (fst (detectAll [(Some ?up, 5801), (Some ?up, 6600)] calibratedState) ! 0)
      = Inr JUMP"
    using a to cs by simp
  have t1: "jumpCount (fst (detectAll [(Some ?up, 5801), (Some ?up, 5801 + (JUMP_COOLDOWN - 1))]
      calibratedState)) = 1"
    using a to cs by simp
  have t2: "snd (fst (detectAll [(Some ?up, 5801), (Some ?up, 6602)] calibratedState) ! 1)
      = Inr JUMP"
    using e to cs by simp
  from c all jj lj ll to(1) j1 l1 r1 t0 t1 t2 show ?thesis by simp
qed

text \<open>
  The claim as stated fails: after the same calibration a sample that is both raised
  and leaning gives \<open>JUMP\<close> at 5000 ms, and the same sample one millisecond later
  gives \<open>LEFT\<close>, two gestures of different kinds 1 ms apart.
\<close>

theorem lean_after_jump_counterexample:
  "snd (detectAll (samplesOf (posture 0.5 0.5) 30) resetGestureState) = calibratedState \<and>
   fst (detectAll [(Some (posture 0.7 0.4), 5000), (Some (posture 0.7 0.4), 5001)]
          calibratedState)
     = [(5000, Inr JUMP), (5001, Inr LEFT)] \<and>
   (5001::real) - 5000 < LANE_CHANGE_COOLDOWN"
proof -
  have "snd (detectAll (samplesOf (posture 0.5 0.5) 30) resetGestureState) = calibratedState"
    by code_simp
  moreover have "(5001::real) - 5000 < LANE_CHANGE_COOLDOWN"
    by (simp add: LANE_CHANGE_COOLDOWN_def)
  moreover have "fst (detectAll [(Some (posture 0.7 0.4), 5000), (Some (posture 0.7 0.4), 5001)]
          calibratedState)
     = [(5000, Inr JUMP), (5001, Inr LEFT)]" by code_simp
  ultimately show ?thesis by simp
qed


section \<open>Gesture classifier: calibration\<close>

lemma calibrated_step_early:
  assumes "calibrated Y k s" "k < 30"
  shows "calibrated Y (Suc k)
     (s\<lparr>hipYHistory := hipYHistory s @ [Y],
        baselineHipY := sum_list (hipYHistory s @ [Y]) / real (length (hipYHistory s @ [Y]))\<rparr>)"
proof -
  have h: "hipYHistory s @ [Y] = replicate (Suc k) Y"
    using assms(1) by (simp add: calibrated_def replicate_append_same)
  have "sum_list (replicate (Suc k) Y) / real (length (replicate (Suc k) Y)) = Y"
    by (simp add: sum_list_replicate del: replicate.simps)
  with h assms(2) show ?thesis by (simp add: calibrated_def del: replicate.simps)
qed

lemma classify_calibrated:
  assumes "calibrated Y 30 s" "classify nose Y t s = (r, s')"
  shows "calibrated Y 30 s' \<and> r \<noteq> Inr JUMP \<and>
     (\<forall>n. nose = Some n \<and> LEAN_THRESHOLD_RIGHT \<le> lm_x n \<and> lm_x n \<le> LEAN_THRESHOLD_LEFT
        \<longrightarrow> r = Inr NONE)"
proof -
  from assms(1) have b: "baselineHipY s = Y" by (simp add: calibrated_def)
  show ?thesis using assms b
    by (auto simp: classify_def calibrated_def Let_def JUMP_THRESHOLD_Y_def
        split: if_splits option.splits)
qed

lemma detectAll_length: "length (fst (detectAll xs s)) = length xs"
proof (induction xs arbitrary: s)
  case Nil
  then show ?case by simp
next
  case (Cons a xs)
  obtain lmo t where a: "a = (lmo, t)" by (cases a)
  obtain r s1 where st: "detectGesture lmo t s = (r, s1)" by (cases "detectGesture lmo t s")
  obtain rs s2 where re: "detectAll xs s1 = (rs, s2)" by (cases "detectAll xs s1")
  from Cons.IH[of s1] re have "length rs = length xs" by simp
  with st re show ?case unfolding a by simp
qed

lemma detectAll_identical:
  assumes lm: "at_index lms 23 = Some lh" "at_index lms 24 = Some rh"
      "at_index lms 11 = Some ls" "at_index lms 12 = Some rs"
  shows "calibrated (torsoY lh rh ls rs) k s \<Longrightarrow>
     detectAll (map (\<lambda>t. (Some lms, t)) ts) s = (evs, s') \<Longrightarrow>
       (\<forall>e \<in> set (take (30 - k) evs). snd e = Inr NONE) \<and>
       calibrated (torsoY lh rh ls rs) (min 30 (k + length ts)) s' \<and>
       (\<forall>e \<in> set evs. snd e \<noteq> Inr JUMP) \<and>
       (\<forall>n. at_index lms 0 = Some n \<and> LEAN_THRESHOLD_RIGHT \<le> lm_x n \<and>
            lm_x n \<le> LEAN_THRESHOLD_LEFT \<longrightarrow> (\<forall>e \<in> set evs. snd e = Inr NONE))"
proof (induction ts arbitrary: k s evs)
  case Nil
  then show ?case by (auto simp: calibrated_def)
next
  case (Cons t ts)
  let ?Y = "torsoY lh rh ls rs"
  from Cons.prems(2) obtain r s1 rs' where
    st: "detectGesture (Some lms) t s = (r, s1)"
    and re: "detectAll (map (\<lambda>t. (Some lms, t)) ts) s1 = (rs', s')"
    and ev: "evs = (t, r) # rs'"
    by (auto split: prod.splits)
  from Cons.prems(1) have len: "length (hipYHistory s) = k" and k30: "k \<le> 30"
    by (simp_all add: calibrated_def)
  show ?case
  proof (cases "k < 30")
    case True
    with st len have r: "r = Inr NONE" and
      s1: "s1 = s\<lparr>hipYHistory := hipYHistory s @ [?Y],
              baselineHipY := sum_list (hipYHistory s @ [?Y]) /
                               real (length (hipYHistory s @ [?Y]))\<rparr>"
      by (simp_all add: detectGesture_torso[OF lm])
    have c1: "calibrated ?Y (Suc k) s1"
      unfolding s1 by (rule calibrated_step_early[OF Cons.prems(1) True])
    note ih = Cons.IH[OF c1 re]
    from True have tk: "30 - k = Suc (30 - Suc k)" by simp
    have m: "min 30 (Suc k + length ts) = min 30 (k + length (t # ts))" by simp
    show ?thesis using ih unfolding ev tk r m[symmetric] by simp
  next
    case False
    with k30 have k: "k = 30" by simp
    with st len have cl: "classify (at_index lms 0) ?Y t s = (r, s1)"
      by (simp add: detectGesture_torso[OF lm])
    from classify_calibrated[OF Cons.prems(1)[unfolded k] cl]
    have c1: "calibrated ?Y 30 s1" and rj: "r \<noteq> Inr JUMP"
      and rn: "\<And>n. at_index lms 0 = Some n \<Longrightarrow> LEAN_THRESHOLD_RIGHT \<le> lm_x n \<Longrightarrow>
            lm_x n \<le> LEAN_THRESHOLD_LEFT \<Longrightarrow> r = Inr NONE"
      by auto
    note ih = Cons.IH[OF c1 re]
    show ?thesis using ih rj rn unfolding ev k by auto
  qed
qed

text \<open>
  Rounded arithmetic. The one assumption on \<open>fl\<close> is that it moves a real of
  magnitude at most 40 by at most \<open>d\<close>; round-to-nearest doubles do so with
  \<open>d = 2\<^sup>-\<^sup>4\<^sup>8\<close>, half the spacing of the doubles between 32 and 64. With
  \<open>d \<le> 1/1000\<close> and the y coordinates in \<open>[-1, 1]\<close>: \<^verbatim>\<open>currentY\<close> is within \<open>2d\<close>
  of the exact mean; the sum of \<open>k \<le> 30\<close> copies of it is within \<open>kd\<close> of the
  exact sum, so the baseline of the calibration phase is within \<open>2d\<close> of
  \<^verbatim>\<open>currentY\<close>; and a call after calibration that finds the baseline within \<open>45d\<close>
  of \<^verbatim>\<open>currentY\<close> takes the drift branch, leaves it within \<open>45d\<close> and does not
  return \<open>JUMP\<close>.
\<close>

lemma fl_nonneg:
  assumes "\<forall>x. \<bar>x\<bar> \<le> 40 \<longrightarrow> \<bar>fl x - x\<bar> \<le> d"
  shows "0 \<le> (d::real)"
proof -
  from assms[rule_format, of 0] have "\<bar>fl 0 - 0\<bar> \<le> d" by simp
  then show ?thesis by linarith
qed

lemma fl_torso:
  assumes R: "\<forall>x. \<bar>x\<bar> \<le> 40 \<longrightarrow> \<bar>fl x - x\<bar> \<le> d" and dd: "d \<le> 1 / 1000"
    and y: "\<bar>lm_y lh\<bar> \<le> 1" "\<bar>lm_y rh\<bar> \<le> 1" "\<bar>lm_y ls\<bar> \<le> 1" "\<bar>lm_y rs\<bar> \<le> 1"
  shows "\<bar>torsoY_fl fl lh rh ls rs - torsoY lh rh ls rs\<bar> \<le> 2 * d"
proof -
  have r: "\<bar>fl x - x\<bar> \<le> d" if "\<bar>x\<bar> \<le> 40" for x using R that by blast
  define a b c e where "a = lm_y lh" and "b = lm_y rh" and "c = lm_y ls" and "e = lm_y rs"
  define s1 s2 s3 where "s1 = fl (a + b)" and "s2 = fl (s1 + c)" and "s3 = fl (s2 + e)"
  have y': "\<bar>a\<bar> \<le> 1" "\<bar>b\<bar> \<le> 1" "\<bar>c\<bar> \<le> 1" "\<bar>e\<bar> \<le> 1"
    using y by (simp_all add: a_def b_def c_def e_def)
  have e1: "\<bar>s1 - (a + b)\<bar> \<le> d" unfolding s1_def using y' by (intro r) linarith
  have e2: "\<bar>s2 - (s1 + c)\<bar> \<le> d" unfolding s2_def using y' e1 dd by (intro r) linarith
  have e3: "\<bar>s3 - (s2 + e)\<bar> \<le> d" unfolding s3_def using y' e1 e2 dd by (intro r) linarith
  have e4: "\<bar>fl (s3 / 4) - s3 / 4\<bar> \<le> d" using y' e1 e2 e3 dd by (intro r) linarith
  have "torsoY_fl fl lh rh ls rs = fl (s3 / 4)"
    by (simp add: torsoY_fl_def s1_def s2_def s3_def a_def b_def c_def e_def)
  moreover have "torsoY lh rh ls rs = (a + b + c + e) / 4"
    by (simp add: torsoY_def a_def b_def c_def e_def)
  ultimately show ?thesis using e1 e2 e3 e4 fl_nonneg[OF R] by argo
qed

lemma fl_sum:
  assumes R: "\<forall>x. \<bar>x\<bar> \<le> 40 \<longrightarrow> \<bar>fl x - x\<bar> \<le> d" and dd: "d \<le> 1 / 1000"
    and cy: "\<bar>cy\<bar> \<le> 1 + 2 * d"
  shows "k \<le> 30 \<Longrightarrow>
    \<bar>foldl (\<lambda>a b. fl (a + b)) 0 (replicate k cy) - real k * cy\<bar> \<le> real k * d"
proof (induction k)
  case 0
  then show ?case by simp
next
  case (Suc k)
  define A where "A = foldl (\<lambda>a b. fl (a + b)) 0 (replicate k cy)"
  have d0: "0 \<le> d" by (rule fl_nonneg[OF R])
  from Suc have ih: "\<bar>A - real k * cy\<bar> \<le> real k * d" and k: "real k \<le> 30"
    by (simp_all add: A_def)
  have kd: "real k * d \<le> 30 * d" using k d0 by (rule mult_right_mono)
  have "\<bar>real k * cy\<bar> = real k * \<bar>cy\<bar>" by (simp add: abs_mult)
  moreover have "real k * \<bar>cy\<bar> \<le> 30 * (1 + 2 * d)"
    using k cy by (intro mult_mono) simp_all
  ultimately have kc: "\<bar>real k * cy\<bar> \<le> 30 * (1 + 2 * d)" by simp
  define P Q where "P = real k * cy" and "Q = real k * d"
  have "\<bar>A + cy\<bar> \<le> 40" using ih kd kc cy dd unfolding P_def[symmetric] Q_def[symmetric]
    by argo
  with R have e: "\<bar>fl (A + cy) - (A + cy)\<bar> \<le> d" by blast
  have "replicate (Suc k) cy = replicate k cy @ [cy]" by (simp add: replicate_append_same)
  then have f: "foldl (\<lambda>a b. fl (a + b)) 0 (replicate (Suc k) cy) = fl (A + cy)"
    by (simp only: foldl_append foldl.simps A_def)
  have g: "real (Suc k) * cy = real k * cy + cy" "real (Suc k) * d = real k * d + d"
    by (simp_all add: algebra_simps)
  show ?case unfolding f g using e ih by linarith
qed

lemma fl_mean:
  assumes R: "\<forall>x. \<bar>x\<bar> \<le> 40 \<longrightarrow> \<bar>fl x - x\<bar> \<le> d" and dd: "d \<le> 1 / 1000"
    and cy: "\<bar>cy\<bar> \<le> 1 + 2 * d" and k: "0 < k" "k \<le> 30"
  shows "\<bar>fl (foldl (\<lambda>a b. fl (a + b)) 0 (replicate k cy) / real k) - cy\<bar> \<le> 2 * d"
proof -
  define A where "A = foldl (\<lambda>a b. fl (a + b)) 0 (replicate k cy)"
  have d0: "0 \<le> d" by (rule fl_nonneg[OF R])
  have s: "\<bar>A - real k * cy\<bar> \<le> real k * d"
    unfolding A_def by (rule fl_sum[OF R dd cy k(2)])
  have "A / real k - cy = (A - real k * cy) / real k" using k(1) by (simp add: field_simps)
  then have "\<bar>A / real k - cy\<bar> = \<bar>A - real k * cy\<bar> / real k" by simp
  also have "\<dots> \<le> d" using s k(1) by (simp add: field_simps)
  finally have q: "\<bar>A / real k - cy\<bar> \<le> d" .
  with cy dd have "\<bar>A / real k\<bar> \<le> 40" by linarith
  with R have "\<bar>fl (A / real k) - A / real k\<bar> \<le> d" by blast
  with q show ?thesis unfolding A_def[symmetric] by linarith
qed

lemma classify_fl_near:
  assumes R: "\<forall>x. \<bar>x\<bar> \<le> 40 \<longrightarrow> \<bar>fl x - x\<bar> \<le> d" and dd: "d \<le> 1 / 1000"
    and cy: "\<bar>cy\<bar> \<le> 1 + 2 * d" and b: "\<bar>baselineHipY s - cy\<bar> \<le> 45 * d"
    and c: "classify_fl fl nose cy t s = (res, s')"
  shows "\<bar>baselineHipY s' - cy\<bar> \<le> 45 * d \<and> hipYHistory s' = hipYHistory s \<and>
     res \<noteq> Inr JUMP \<and>
     (\<forall>n. nose = Some n \<and> fl LEAN_THRESHOLD_RIGHT \<le> lm_x n \<and> lm_x n \<le> fl LEAN_THRESHOLD_LEFT
        \<longrightarrow> res = Inr NONE)"
proof -
  have r: "\<bar>fl x - x\<bar> \<le> d" if "\<bar>x\<bar> \<le> 40" for x using R that by blast
  have d0: "0 \<le> d" by (rule fl_nonneg[OF R])
  define b0 where "b0 = baselineHipY s"
  define c05 where "c05 = fl (1 / 20)"
  define d1 where "d1 = fl (cy - b0)"
  define X where "X = d1 * c05"
  define p where "p = fl X"
  define b1 where "b1 = fl (b0 + p)"
  define jd where "jd = fl (b1 - cy)"
  have b': "\<bar>b0 - cy\<bar> \<le> 45 * d" using b by (simp add: b0_def)
  have e0: "\<bar>d1 - (cy - b0)\<bar> \<le> d" unfolding d1_def using b' dd by (intro r) linarith
  have ec: "\<bar>c05 - 1 / 20\<bar> \<le> d" unfolding c05_def by (intro r) simp
  have a1: "\<bar>d1\<bar> \<le> 46 / 1000" using e0 b' dd by linarith
  have "\<bar>X - d1 * (1 / 20)\<bar> = \<bar>d1\<bar> * \<bar>c05 - 1 / 20\<bar>"
    unfolding X_def by (simp add: abs_mult[symmetric] algebra_simps)
  also have "\<dots> \<le> (46 / 1000) * d" using a1 ec by (intro mult_mono) simp_all
  finally have ex: "\<bar>X - d1 * (1 / 20)\<bar> \<le> (46 / 1000) * d" .
  have "\<bar>X\<bar> \<le> 40" using ex a1 dd by linarith
  then have ep: "\<bar>p - X\<bar> \<le> d" unfolding p_def by (rule r)
  have "\<bar>b0 + p\<bar> \<le> 40" using ep ex a1 b' cy dd by linarith
  then have e1: "\<bar>b1 - (b0 + p)\<bar> \<le> d" unfolding b1_def by (rule r)
  have n1: "\<bar>b1 - cy\<bar> \<le> 45 * d" using e1 ep ex e0 b' d0 by linarith
  then have "\<bar>b1 - cy\<bar> \<le> 40" using dd by linarith
  then have "\<bar>jd - (b1 - cy)\<bar> \<le> d" unfolding jd_def by (rule r)
  with n1 dd ec have nj: "\<not> jd > c05" by linarith
  from a1 ec dd have dr: "\<bar>d1\<bar> < c05" by linarith
  let ?s1 = "s\<lparr>baselineHipY := b1\<rparr>"
  have eq: "classify_fl fl nose cy t s =
     (if fl (t - lastGestureTime s) < fl LANE_CHANGE_COOLDOWN then (Inr NONE, ?s1)
      else (case nose of
              None \<Rightarrow> (Inl TypeError, ?s1)
            | Some n \<Rightarrow>
                if lm_x n > fl LEAN_THRESHOLD_LEFT
                then (Inr LEFT, ?s1\<lparr>lastGestureTime := t\<rparr>)
                else if lm_x n < fl LEAN_THRESHOLD_RIGHT
                then (Inr RIGHT, ?s1\<lparr>lastGestureTime := t\<rparr>)
                else (Inr NONE, ?s1)))"
    using dr nj
    unfolding classify_fl_def JUMP_THRESHOLD_Y_def jd_def b1_def p_def X_def d1_def c05_def b0_def
    by (simp add: Let_def)
  from c[unfolded eq] n1 show ?thesis
    by (auto split: if_splits option.splits)
qed

lemma detectGesture_fl_torso:
  assumes "at_index lms 23 = Some lh" "at_index lms 24 = Some rh"
    "at_index lms 11 = Some ls" "at_index lms 12 = Some rs"
  shows "detectGesture_fl fl (Some lms) t s =
     (if length (hipYHistory s) < 30
      then (Inr NONE, s\<lparr>hipYHistory := hipYHistory s @ [torsoY_fl fl lh rh ls rs],
              baselineHipY :=
                fl (foldl (\<lambda>a b. fl (a + b)) 0 (hipYHistory s @ [torsoY_fl fl lh rh ls rs]) /
                    real (length (hipYHistory s @ [torsoY_fl fl lh rh ls rs])))\<rparr>)
      else classify_fl fl (at_index lms 0) (torsoY_fl fl lh rh ls rs) t s)"
  using assms by (simp add: detectGesture_fl_def torsoY_fl_def Let_def)

lemma detectAll_fl_identical:
  assumes lm: "at_index lms 23 = Some lh" "at_index lms 24 = Some rh"
      "at_index lms 11 = Some ls" "at_index lms 12 = Some rs"
    and R: "\<forall>x. \<bar>x\<bar> \<le> 40 \<longrightarrow> \<bar>fl x - x\<bar> \<le> d" and dd: "d \<le> 1 / 1000"
    and cy: "\<bar>torsoY_fl fl lh rh ls rs\<bar> \<le> 1 + 2 * d"
  shows "calibrated_within (45 * d) (torsoY_fl fl lh rh ls rs) k s \<Longrightarrow>
     detectAll_fl fl (map (\<lambda>t. (Some lms, t)) ts) s = (evs, s') \<Longrightarrow>
       (\<forall>e \<in> set (take (30 - k) evs). snd e = Inr NONE) \<and>
       calibrated_within (45 * d) (torsoY_fl fl lh rh ls rs) (min 30 (k + length ts)) s' \<and>
       (\<forall>e \<in> set evs. snd e \<noteq> Inr JUMP) \<and>
       (\<forall>n. at_index lms 0 = Some n \<and> fl LEAN_THRESHOLD_RIGHT \<le> lm_x n \<and>
            lm_x n \<le> fl LEAN_THRESHOLD_LEFT \<longrightarrow> (\<forall>e \<in> set evs. snd e = Inr NONE))"
proof (induction ts arbitrary: k s evs)
  case Nil
  then show ?case by (auto simp: calibrated_within_def)
next
  case (Cons t ts)
  let ?Y = "torsoY_fl fl lh rh ls rs"
  have d0: "0 \<le> d" by (rule fl_nonneg[OF R])
  from Cons.prems(2) obtain r s1 rs' where
    st: "detectGesture_fl fl (Some lms) t s = (r, s1)"
    and re: "detectAll_fl fl (map (\<lambda>t. (Some lms, t)) ts) s1 = (rs', s')"
    and ev: "evs = (t, r) # rs'"
    by (auto split: prod.splits)
  from Cons.prems(1) have h: "hipYHistory s = replicate k ?Y" and k30: "k \<le> 30"
    by (simp_all add: calibrated_within_def)
  then have len: "length (hipYHistory s) = k" by simp
  show ?case
  proof (cases "k < 30")
    case True
    have hh: "hipYHistory s @ [?Y] = replicate (Suc k) ?Y"
      unfolding h by (simp add: replicate_append_same)
    from True st len have r: "r = Inr NONE" and
      s1: "s1 = s\<lparr>hipYHistory := replicate (Suc k) ?Y,
              baselineHipY := fl (foldl (\<lambda>a b. fl (a + b)) 0 (replicate (Suc k) ?Y) /
                               real (Suc k))\<rparr>"
      unfolding detectGesture_fl_torso[OF lm] hh by simp_all
    from True have "Suc k \<le> 30" by simp
    from fl_mean[OF R dd cy _ this] d0
    have "\<bar>fl (foldl (\<lambda>a b. fl (a + b)) 0 (replicate (Suc k) ?Y) / real (Suc k)) - ?Y\<bar>
            \<le> 45 * d" by simp
    with True have c1: "calibrated_within (45 * d) ?Y (Suc k) s1"
      unfolding s1 by (simp add: calibrated_within_def del: replicate.simps)
    note ih = Cons.IH[OF c1 re]
    from True have tk: "30 - k = Suc (30 - Suc k)" by simp
    have m: "min 30 (Suc k + length ts) = min 30 (k + length (t # ts))" by simp
    show ?thesis using ih unfolding ev tk r m[symmetric] by simp
  next
    case False
    with k30 have k: "k = 30" by simp
    with st len have cl: "classify_fl fl (at_index lms 0) ?Y t s = (r, s1)"
      by (simp add: detectGesture_fl_torso[OF lm])
    from Cons.prems(1) k have b: "\<bar>baselineHipY s - ?Y\<bar> \<le> 45 * d"
      by (simp add: calibrated_within_def)
    from classify_fl_near[OF R dd cy b cl] h k
    have c1: "calibrated_within (45 * d) ?Y 30 s1" and rj: "r \<noteq> Inr JUMP"
      and rn: "\<And>n. at_index lms 0 = Some n \<Longrightarrow> fl LEAN_THRESHOLD_RIGHT \<le> lm_x n \<Longrightarrow>
            lm_x n \<le> fl LEAN_THRESHOLD_LEFT \<Longrightarrow> r = Inr NONE"
      by (auto simp: calibrated_within_def)
    note ih = Cons.IH[OF c1 re]
    show ?thesis using ih rj rn unfolding ev k by auto
  qed
qed

lemma detectAll_fl_length: "length (fst (detectAll_fl fl xs s)) = length xs"
proof (induction xs arbitrary: s)
  case Nil
  then show ?case by simp
next
  case (Cons a xs)
  obtain lmo t where a: "a = (lmo, t)" by (cases a)
  obtain r s1 where st: "detectGesture_fl fl lmo t s = (r, s1)"
    by (cases "detectGesture_fl fl lmo t s")
  obtain rs s2 where re: "detectAll_fl fl xs s1 = (rs, s2)" by (cases "detectAll_fl fl xs s1")
  from Cons.IH[of s1] re have "length rs = length xs" by simp
  with st re show ?case unfolding a by simp
qed

text \<open>With exact arithmetic the rounded model is the model used everywhere else.\<close>

lemma foldl_plus: "foldl (\<lambda>a b. a + b) a xs = a + sum_list xs" for a :: real
  by (induction xs arbitrary: a) simp_all

lemma classify_fl_exact: "classify_fl (\<lambda>x. x) nose cy t s = classify nose cy t s"
  by (simp add: classify_fl_def classify_def)

lemma detectGesture_fl_exact: "detectGesture_fl (\<lambda>x. x) lmo t s = detectGesture lmo t s"
  by (simp add: detectGesture_fl_def detectGesture_def classify_fl_exact foldl_plus Let_def
      split: option.splits)

lemma detectAll_fl_exact: "detectAll_fl (\<lambda>x. x) xs s = detectAll xs s"
  by (induction xs arbitrary: s) (auto simp: detectGesture_fl_exact)

text \<open>Rounding to the grid moves a number by at most \<open>2\<^sup>-\<^sup>2\<^sup>1\<close>.\<close>

lemma grid_error: "\<bar>grid x - x\<bar> \<le> 1 / 2097152"
proof -
  have "\<bar>real_of_int (round (x * 1048576)) - x * 1048576\<bar> \<le> 1 / 2"
    by (rule of_int_round_abs_le)
  then have "\<bar>(real_of_int (round (x * 1048576)) - x * 1048576) / 1048576\<bar> \<le> 1 / 2 / 1048576"
    unfolding abs_divide by (simp add: divide_right_mono)
  moreover have "(real_of_int (round (x * 1048576)) - x * 1048576) / 1048576 = grid x - x"
    by (simp add: grid_def field_simps)
  ultimately show ?thesis by simp
qed

text \<open>
  Claim C7, as the code has it. Feed any number of samples with the same landmarks
  (hips and shoulders present) to a freshly reset classifier.

  In exact arithmetic: the first 30 calls return \<open>NONE\<close>; no call returns \<open>JUMP\<close>;
  the buffer holds \<open>min 30 n\<close> values; the calls after the 30th return \<open>NONE\<close> as
  well when the nose x lies between the two lean thresholds (0.40 and 0.60).

  In rounded arithmetic, with \<open>fl\<close> moving every real of magnitude at most 40 by
  at most \<open>d \<le> 1/1000\<close> and the four y coordinates in \<open>[-1, 1]\<close>: the same holds,
  the thresholds being the rounded ones, and after every sample the baseline is
  within \<open>47d\<close> of the torso-Y of the posture, the mean of the four y
  coordinates. It need not be equal to it.
\<close>

theorem calibration_identical_posture:
  assumes "at_index lms 23 = Some lh" "at_index lms 24 = Some rh"
      "at_index lms 11 = Some ls" "at_index lms 12 = Some rs"
    and "detectAll (map (\<lambda>t. (Some lms, t)) ts) resetGestureState = (evs, s')"
    and "detectAll_fl fl (map (\<lambda>t. (Some lms, t)) ts) resetGestureState = (evf, sf)"
  shows "(\<forall>e \<in> set (take 30 evs). snd e = Inr NONE) \<and>
         (\<forall>e \<in> set evs. snd e \<noteq> Inr JUMP) \<and>
         length (hipYHistory s') = min 30 (length ts) \<and>
         (\<forall>n. at_index lms 0 = Some n \<and> LEAN_THRESHOLD_RIGHT \<le> lm_x n \<and>
              lm_x n \<le> LEAN_THRESHOLD_LEFT \<longrightarrow> (\<forall>e \<in> set evs. snd e = Inr NONE)) \<and>
         ((\<forall>x. \<bar>x\<bar> \<le> 40 \<longrightarrow> \<bar>fl x - x\<bar> \<le> d) \<and> d \<le> 1 / 1000 \<and>
          \<bar>lm_y lh\<bar> \<le> 1 \<and> \<bar>lm_y rh\<bar> \<le> 1 \<and> \<bar>lm_y ls\<bar> \<le> 1 \<and> \<bar>lm_y rs\<bar> \<le> 1 \<longrightarrow>
            (\<forall>e \<in> set (take 30 evf). snd e = Inr NONE) \<and>
            (\<forall>e \<in> set evf. snd e \<noteq> Inr JUMP) \<and>
            (ts \<noteq> [] \<longrightarrow>
               \<bar>baselineHipY sf - (lm_y lh + lm_y rh + lm_y ls + lm_y rs) / 4\<bar> \<le> 47 * d) \<and>
            length (hipYHistory sf) = min 30 (length ts) \<and>
            (\<forall>n. at_index lms 0 = Some n \<and> fl LEAN_THRESHOLD_RIGHT \<le> lm_x n \<and>
                 lm_x n \<le> fl LEAN_THRESHOLD_LEFT \<longrightarrow> (\<forall>e \<in> set evf. snd e = Inr NONE)))"
proof -
  have c0: "calibrated (torsoY lh rh ls rs) 0 resetGestureState"
    by (simp add: calibrated_def resetGestureState_def)
  from detectAll_identical[OF assms(1-4) c0 assms(5)]
  have exact: "(\<forall>e \<in> set (take 30 evs). snd e = Inr NONE) \<and>
         (\<forall>e \<in> set evs. snd e \<noteq> Inr JUMP) \<and>
         length (hipYHistory s') = min 30 (length ts) \<and>
         (\<forall>n. at_index lms 0 = Some n \<and> LEAN_THRESHOLD_RIGHT \<le> lm_x n \<and>
              lm_x n \<le> LEAN_THRESHOLD_LEFT \<longrightarrow> (\<forall>e \<in> set evs. snd e = Inr NONE))"
    by (auto simp: calibrated_def)
  have rounded: "(\<forall>e \<in> set (take 30 evf). snd e = Inr NONE) \<and>
            (\<forall>e \<in> set evf. snd e \<noteq> Inr JUMP) \<and>
            (ts \<noteq> [] \<longrightarrow>
               \<bar>baselineHipY sf - (lm_y lh + lm_y rh + lm_y ls + lm_y rs) / 4\<bar> \<le> 47 * d) \<and>
            length (hipYHistory sf) = min 30 (length ts) \<and>
            (\<forall>n. at_index lms 0 = Some n \<and> fl LEAN_THRESHOLD_RIGHT \<le> lm_x n \<and>
                 lm_x n \<le> fl LEAN_THRESHOLD_LEFT \<longrightarrow> (\<forall>e \<in> set evf. snd e = Inr NONE))"
    if h: "(\<forall>x. \<bar>x\<bar> \<le> 40 \<longrightarrow> \<bar>fl x - x\<bar> \<le> d) \<and> d \<le> 1 / 1000 \<and>
          \<bar>lm_y lh\<bar> \<le> 1 \<and> \<bar>lm_y rh\<bar> \<le> 1 \<and> \<bar>lm_y ls\<bar> \<le> 1 \<and> \<bar>lm_y rs\<bar> \<le> 1"
  proof -
    let ?Y = "torsoY_fl fl lh rh ls rs"
    from h have R: "\<forall>x. \<bar>x\<bar> \<le> 40 \<longrightarrow> \<bar>fl x - x\<bar> \<le> d" and dd: "d \<le> 1 / 1000"
      and y: "\<bar>lm_y lh\<bar> \<le> 1" "\<bar>lm_y rh\<bar> \<le> 1" "\<bar>lm_y ls\<bar> \<le> 1" "\<bar>lm_y rs\<bar> \<le> 1"
      by simp_all
    have t: "\<bar>?Y - torsoY lh rh ls rs\<bar> \<le> 2 * d" by (rule fl_torso[OF R dd y])
    have m: "\<bar>torsoY lh rh ls rs\<bar> \<le> 1" using y unfolding torsoY_def by argo
    from t m have cy: "\<bar>?Y\<bar> \<le> 1 + 2 * d" by linarith
    have c0: "calibrated_within (45 * d) ?Y 0 resetGestureState"
      by (simp add: calibrated_within_def resetGestureState_def)
    from detectAll_fl_identical[OF assms(1-4) R dd cy c0 assms(6)]
    have 1: "\<forall>e \<in> set (take 30 evf). snd e = Inr NONE"
      and c: "calibrated_within (45 * d) ?Y (min 30 (length ts)) sf"
      and 2: "\<forall>e \<in> set evf. snd e \<noteq> Inr JUMP"
      and 5: "\<forall>n. at_index lms 0 = Some n \<and> fl LEAN_THRESHOLD_RIGHT \<le> lm_x n \<and>
                 lm_x n \<le> fl LEAN_THRESHOLD_LEFT \<longrightarrow> (\<forall>e \<in> set evf. snd e = Inr NONE)"
      by simp_all
    from c have 4: "length (hipYHistory sf) = min 30 (length ts)"
      by (simp add: calibrated_within_def)
    have 3: "\<bar>baselineHipY sf - (lm_y lh + lm_y rh + lm_y ls + lm_y rs) / 4\<bar> \<le> 47 * d"
      if "ts \<noteq> []"
    proof -
      from that have "0 < min 30 (length ts)" by simp
      with c have "\<bar>baselineHipY sf - ?Y\<bar> \<le> 45 * d" by (simp add: calibrated_within_def)
      with t show ?thesis unfolding torsoY_def by linarith
    qed
    from 1 2 3 4 5 show ?thesis by blast
  qed
  from exact rounded show ?thesis by blast
qed

text \<open>
  Forty samples of an upright posture (nose x 0.5, torso y 0.3), 100 ms apart: in
  exact arithmetic (\<open>fl\<close> the identity, \<open>d = 0\<close>) the baseline is 0.3; rounding to
  the grid (\<open>d = 2\<^sup>-\<^sup>2\<^sup>1\<close>) it is within 47/2097152 of 0.3, and after three
  samples it is 314573/1048576, not 0.3.
\<close>

theorem calibration_identical_posture_witness:
  "at_index (posture 0.5 0.3) 23 = Some \<lparr>lm_x = 0.5, lm_y = 0.3\<rparr> \<and>
   at_index (posture 0.5 0.3) 24 = Some \<lparr>lm_x = 0.5, lm_y = 0.3\<rparr> \<and>
   at_index (posture 0.5 0.3) 11 = Some \<lparr>lm_x = 0.5, lm_y = 0.3\<rparr> \<and>
   at_index (posture 0.5 0.3) 12 = Some \<lparr>lm_x = 0.5, lm_y = 0.3\<rparr> \<and>
   at_index (posture 0.5 0.3) 0 = Some \<lparr>lm_x = 0.5, lm_y = 0.3\<rparr> \<and>
   map snd (fst (detectAll (samplesOf (posture 0.5 0.3) 40) resetGestureState))
     = replicate 40 (Inr NONE) \<and>
   baselineHipY (snd (detectAll (samplesOf (posture 0.5 0.3) 40) resetGestureState)) = 0.3 \<and>
   length (hipYHistory (snd (detectAll (samplesOf (posture 0.5 0.3) 40) resetGestureState)))
     = 30 \<and>
   map snd (fst (detectAll_fl grid (samplesOf (posture 0.5 0.3) 40) resetGestureState))
     = replicate 40 (Inr NONE) \<and>
   \<bar>baselineHipY (snd (detectAll_fl grid (samplesOf (posture 0.5 0.3) 40) resetGestureState))
      - 0.3\<bar> \<le> 47 / 2097152 \<and>
   length (hipYHistory (snd (detectAll_fl grid (samplesOf (posture 0.5 0.3) 40)
      resetGestureState))) = 30 \<and>
   baselineHipY (snd (detectAll_fl grid (samplesOf (posture 0.5 0.3) 3) resetGestureState))
     = 314573 / 1048576"
proof -
  let ?lm = "\<lparr>lm_x = 0.5, lm_y = 0.3\<rparr> :: landmark"
  let ?ts = "map (\<lambda>k. real k * 100) [0..<40]"
  let ?run = "detectAll (samplesOf (posture 0.5 0.3) 40) resetGestureState"
  let ?runf = "detectAll_fl grid (samplesOf (posture 0.5 0.3) 40) resetGestureState"
  have a: "at_index (posture 0.5 0.3) 23 = Some ?lm" "at_index (posture 0.5 0.3) 24 = Some ?lm"
    "at_index (posture 0.5 0.3) 11 = Some ?lm" "at_index (posture 0.5 0.3) 12 = Some ?lm"
    "at_index (posture 0.5 0.3) 0 = Some ?lm"
    by (simp_all add: at_index_def posture_def)
  have s: "samplesOf (posture 0.5 0.3) 40 = map (\<lambda>t. (Some (posture 0.5 0.3), t)) ?ts"
    by (simp add: samplesOf_def)
  have r: "detectAll (map (\<lambda>t. (Some (posture 0.5 0.3), t)) ?ts) resetGestureState
             = (fst ?run, snd ?run)"
    unfolding s[symmetric] by simp
  have rf: "detectAll_fl grid (map (\<lambda>t. (Some (posture 0.5 0.3), t)) ?ts) resetGestureState
             = (fst ?runf, snd ?runf)"
    unfolding s[symmetric] by simp
  have rx: "detectAll_fl (\<lambda>x. x) (map (\<lambda>t. (Some (posture 0.5 0.3), t)) ?ts) resetGestureState
             = (fst ?run, snd ?run)"
    unfolding s[symmetric] detectAll_fl_exact by simp
  have n: "?ts \<noteq> []" by (simp add: upt_rec_numeral)
  have l: "length ?ts = 40" by simp
  have x: "LEAN_THRESHOLD_RIGHT \<le> lm_x ?lm \<and> lm_x ?lm \<le> LEAN_THRESHOLD_LEFT"
    by (simp add: GAME_CONSTANTS)
  have g: "\<forall>x. \<bar>x\<bar> \<le> 40 \<longrightarrow> \<bar>grid x - x\<bar> \<le> 1 / 2097152"
    using grid_error by blast
  have i: "\<forall>x::real. \<bar>x\<bar> \<le> 40 \<longrightarrow> \<bar>x - x\<bar> \<le> 0" by simp
  have xf: "grid LEAN_THRESHOLD_RIGHT \<le> lm_x ?lm \<and> lm_x ?lm \<le> grid LEAN_THRESHOLD_LEFT"
    by code_simp
  have y: "\<bar>lm_y ?lm\<bar> \<le> 1" by simp
  have len: "length (fst ?run) = 40" by (simp add: detectAll_length samplesOf_def)
  have lenf: "length (fst ?runf) = 40" by (simp add: detectAll_fl_length samplesOf_def)
  note th = calibration_identical_posture[OF a(1-4) r rf, where d = "1 / 2097152"]
  note tx = calibration_identical_posture[OF a(1-4) r rx, where d = 0]
  from th a(5) l x
  have h: "length (hipYHistory (snd ?run)) = 30"
    and q: "\<forall>e \<in> set (fst ?run). snd e = Inr NONE"
    by simp_all
  from tx i y n have "\<bar>baselineHipY (snd ?run) - 0.3\<bar> \<le> 0" by simp
  then have b: "baselineHipY (snd ?run) = 0.3" by simp
  from th g y n l a(5) xf
  have bf: "\<bar>baselineHipY (snd ?runf) - 0.3\<bar> \<le> 47 / 2097152"
    and hf: "length (hipYHistory (snd ?runf)) = 30"
    and qf: "\<forall>e \<in> set (fst ?runf). snd e = Inr NONE"
    by simp_all
  from q have "\<forall>y \<in> set (map snd (fst ?run)). y = Inr NONE" by simp
  then have "replicate (length (map snd (fst ?run))) (Inr NONE) = map snd (fst ?run)"
    by (rule replicate_length_same)
  with len have m: "map snd (fst ?run) = replicate 40 (Inr NONE)" by simp
  from qf have "\<forall>y \<in> set (map snd (fst ?runf)). y = Inr NONE" by simp
  then have "replicate (length (map snd (fst ?runf))) (Inr NONE) = map snd (fst ?runf)"
    by (rule replicate_length_same)
  with lenf have mf: "map snd (fst ?runf) = replicate 40 (Inr NONE)" by simp
  have v: "baselineHipY (snd (detectAll_fl grid (samplesOf (posture 0.5 0.3) 3)
      resetGestureState)) = 314573 / 1048576" by code_simp
  from a b h m bf hf mf v show ?thesis by simp
qed

text \<open>
  The claim as stated fails for a leaning posture: with the nose at x = 0.7 in every
  sample, the 31st of 31 identical samples returns \<open>LEFT\<close>.
\<close>

theorem lean_posture_counterexample:
  "length (samplesOf (posture 0.7 0.5) 31) = 31 \<and>
   fst (detectAll (samplesOf (posture 0.7 0.5) 31) resetGestureState) ! 30 = (3000, Inr LEFT)"
proof -
  have "fst (detectAll (samplesOf (posture 0.7 0.5) 31) resetGestureState) ! 30
          = (3000, Inr LEFT)" by code_simp
  then show ?thesis by (simp add: samplesOf_def)
qed


section \<open>Gesture classifier: samples with missing landmarks\<close>

text \<open>
  Claim C8, as the code has it. When the landmark list itself is absent the call
  returns \<open>NONE\<close> and writes nothing. When the list is there but lacks a hip or a
  shoulder, the call throws a \<open>TypeError\<close> at the first read of \<^verbatim>\<open>.y\<close>, before
  any write: no gesture, classifier state unchanged.
\<close>

theorem missing_landmarks:
  "detectGesture None t s = (Inr NONE, s) \<and>
   (at_index lms 23 = None \<or> at_index lms 24 = None \<or> at_index lms 11 = None \<or>
    at_index lms 12 = None \<longrightarrow> detectGesture (Some lms) t s = (Inl TypeError, s))"
  by (auto simp: detectGesture_def split: option.splits)

theorem missing_landmarks_witness:
  "at_index ((posture 0.5 0.5)[24 := None]) 24 = None \<and>
   detectGesture (Some ((posture 0.5 0.5)[24 := None])) 1000 resetGestureState
     = (Inl TypeError, resetGestureState)"
proof -
  have h: "at_index ((posture 0.5 0.5)[24 := None]) 24 = None"
    by (simp add: at_index_def posture_def)
  with missing_landmarks[of 1000 resetGestureState "(posture 0.5 0.5)[24 := None]"]
  show ?thesis by simp
qed

text \<open>
  The claim as stated fails twice. A sample without a nose is not rejected during
  calibration: the call returns \<open>NONE\<close> and has pushed the torso-Y and set the
  baseline. A sample without a left hip is answered with an uncaught \<open>TypeError\<close>.
\<close>

theorem missing_nose_counterexample:
  "at_index ((posture 0.5 0.5)[0 := None]) 0 = None \<and>
   detectGesture (Some ((posture 0.5 0.5)[0 := None])) 1000 resetGestureState
     = (Inr NONE, resetGestureState\<lparr>hipYHistory := [0.5], baselineHipY := 0.5\<rparr>) \<and>
   resetGestureState\<lparr>hipYHistory := [0.5], baselineHipY := 0.5\<rparr> \<noteq> resetGestureState \<and>
   at_index ((posture 0.5 0.5)[23 := None]) 23 = None \<and>
   fst (detectGesture (Some ((posture 0.5 0.5)[23 := None])) 1000 resetGestureState)
     = Inl TypeError"
  by (simp add: detectGesture_def at_index_def posture_def resetGestureState_def Let_def)


section \<open>Player lane\<close>

lemma lane_step: "lane p \<in> {0, 1, 2} \<Longrightarrow> lane (applyGesture g now p) \<in> {0, 1, 2}"
  by (auto simp: applyGesture_def)

lemma lane_steps: "lane p \<in> {0, 1, 2} \<Longrightarrow> lane (applyGestures gs p) \<in> {0, 1, 2}"
proof (induction gs arbitrary: p)
  case Nil
  then show ?case by simp
next
  case (Cons a gs)
  obtain g now where a: "a = (g, now)" by (cases a)
  show ?case unfolding a applyGestures.simps
    by (rule Cons.IH) (rule lane_step[OF Cons.prems])
qed

lemma left_stays: "lane p = 0 \<Longrightarrow> lane (applyGestures (map (\<lambda>t. (LEFT, t)) ts) p) = 0"
  by (induction ts arbitrary: p) (auto simp: applyGesture_def)

lemma right_stays: "lane p = 2 \<Longrightarrow> lane (applyGestures (map (\<lambda>t. (RIGHT, t)) ts) p) = 2"
  by (induction ts arbitrary: p) (auto simp: applyGesture_def)

text \<open>
  Claim C5. From the initial player every sequence of gestures leaves the lane in
  \<open>{0, 1, 2}\<close>. From any lane in that range, one gesture keeps the range; \<open>LEFT\<close>
  gives \<open>max 0 (lane - 1)\<close> and \<open>RIGHT\<close> gives \<open>min 2 (lane + 1)\<close> (one step,
  clamped, no wraparound); \<open>NONE\<close> and \<open>JUMP\<close> keep the lane. Repeated \<open>LEFT\<close> at
  lane 0 stays at 0 and repeated \<open>RIGHT\<close> at lane 2 stays at 2.
\<close>

theorem lane_clamped:
  "lane (applyGestures gs initialPlayer) \<in> {0, 1, 2} \<and>
   (lane p \<in> {0, 1, 2} \<longrightarrow>
      lane (applyGesture g now p) \<in> {0, 1, 2} \<and>
      lane (applyGesture LEFT now p) = max 0 (lane p - 1) \<and>
      lane (applyGesture RIGHT now p) = min 2 (lane p + 1) \<and>
      lane (applyGesture NONE now p) = lane p \<and>
      lane (applyGesture JUMP now p) = lane p \<and>
      lane (applyGestures gs p) \<in> {0, 1, 2}) \<and>
   lane (applyGestures (map (\<lambda>t. (LEFT, t)) ts) (p\<lparr>lane := 0\<rparr>)) = 0 \<and>
   lane (applyGestures (map (\<lambda>t. (RIGHT, t)) ts) (p\<lparr>lane := 2\<rparr>)) = 2"
proof -
  have "lane initialPlayer \<in> {0, 1, 2}" by (simp add: initialPlayer_def)
  then have a: "lane (applyGestures gs initialPlayer) \<in> {0, 1, 2}" by (rule lane_steps)
  have b: "lane p \<in> {0, 1, 2} \<Longrightarrow> lane (applyGesture LEFT now p) = max 0 (lane p - 1)"
    by (auto simp: applyGesture_def)
  have c: "lane p \<in> {0, 1, 2} \<Longrightarrow> lane (applyGesture RIGHT now p) = min 2 (lane p + 1)"
    by (auto simp: applyGesture_def)
  have d: "lane (applyGesture NONE now p) = lane p" "lane (applyGesture JUMP now p) = lane p"
    by (auto simp: applyGesture_def)
  have e: "lane (applyGestures (map (\<lambda>t. (LEFT, t)) ts) (p\<lparr>lane := 0\<rparr>)) = 0"
    by (rule left_stays) simp
  have f: "lane (applyGestures (map (\<lambda>t. (RIGHT, t)) ts) (p\<lparr>lane := 2\<rparr>)) = 2"
    by (rule right_stays) simp
  show ?thesis using a b c d e f lane_step lane_steps by blast
qed

theorem lane_clamped_witness:
  "lane initialPlayer \<in> {0, 1, 2} \<and>
   lane (applyGesture LEFT 10 initialPlayer) = 0 \<and>
   lane (applyGesture RIGHT 10 initialPlayer) = 2 \<and>
   lane (applyGestures [(LEFT, 10), (LEFT, 500), (LEFT, 900)] initialPlayer) \<in> {0, 1, 2}"
proof -
  have h: "lane initialPlayer \<in> {0, 1, 2}" by (simp add: initialPlayer_def)
  from lane_clamped[of "[(LEFT, 10), (LEFT, 500), (LEFT, 900)]" initialPlayer NONE 10 "[]"] h
  show ?thesis by (simp add: initialPlayer_def)
qed

section \<open>Engine: the phases of a tick as record updates\<close>

lemma spawnDecoration_eq:
  "spawnDecoration z d e = e\<lparr>decorationsRef := decorationsRef e @ [decorationOf z d]\<rparr>"
  by (simp add: spawnDecoration_def decorationOf_def Let_def)

lemma spawnObstacle_eq:
  "spawnObstacle z d e = e\<lparr>obstaclesRef := obstaclesRef e @ [obstacleOf z d]\<rparr>"
  by (simp add: spawnObstacle_def obstacleOf_def)

lemma decorationSpawn_eq:
  "decorationSpawn time env e =
     e\<lparr>decorationsRef :=
          (if spawnDue time (lastDecorSpawnTimeRef e) (speedRef e) 8
           then decorationsRef e @
             [decorationOf (SPAWN_DISTANCE - r_z (decorDraw1 env) * 20) (decorDraw1 env),
              decorationOf (SPAWN_DISTANCE - r_z (decorDraw2 env) * 20) (decorDraw2 env)]
           else decorationsRef e),
       lastDecorSpawnTimeRef :=
          (if spawnDue time (lastDecorSpawnTimeRef e) (speedRef e) 8 then time
           else lastDecorSpawnTimeRef e)\<rparr>"
proof (cases "spawnDue time (lastDecorSpawnTimeRef e) (speedRef e) 8")
  case True
  then show ?thesis by (simp add: decorationSpawn_def spawnDecoration_eq)
next
  case False
  then show ?thesis by (simp add: decorationSpawn_def)
qed

lemma decorationUpdate_eq:
  "decorationUpdate dt e =
     e\<lparr>decorationsRef :=
          cullDecorations (map (\<lambda>dec. dec\<lparr>d_z := d_z dec + speedRef e * dt\<rparr>)
             (decorationsRef e))\<rparr>"
  by (simp add: decorationUpdate_def cullDecorations_def Let_def)

lemma obstacleSpawn_eq:
  "obstacleSpawn time env e =
     e\<lparr>obstaclesRef :=
          (if spawnDue time (lastSpawnTimeRef e) (speedRef e) 1
           then obstaclesRef e @ [obstacleOf SPAWN_DISTANCE (obstacleDraw env)]
           else obstaclesRef e),
       lastSpawnTimeRef :=
          (if spawnDue time (lastSpawnTimeRef e) (speedRef e) 1 then time
           else lastSpawnTimeRef e)\<rparr>"
proof (cases "spawnDue time (lastSpawnTimeRef e) (speedRef e) 1")
  case True
  then show ?thesis by (simp add: obstacleSpawn_def spawnObstacle_eq)
next
  case False
  then show ?thesis by (simp add: obstacleSpawn_def)
qed

lemma beforeLoop_fields:
  "gameState (beforeLoop dt time env e) = gameState e"
  "lastHitTimeRef (beforeLoop dt time env e) = lastHitTimeRef e"
  "scoreRef (beforeLoop dt time env e) = scoreRef e"
  "speedRef (beforeLoop dt time env e) =
      min MAX_SPEED (START_SPEED + real_of_int (scoreRef e) / 50)"
  "playerStateRef (beforeLoop dt time env e) = playerPhysics time (playerStateRef e)"
  "gestures (beforeLoop dt time env e) = gestures e"
  "isPlayingRef (beforeLoop dt time env e) = isPlayingRef e"
  "isPausedRef (beforeLoop dt time env e) = isPausedRef e"
  "lastTimeRef (beforeLoop dt time env e) = lastTimeRef e"
  "renderedState (beforeLoop dt time env e) = renderedState e"
  by (simp_all add: beforeLoop_def obstacleSpawn_eq decorationUpdate_eq decorationSpawn_eq
      difficulty_def)

lemma beforeLoop_obstacles:
  "obstaclesRef (beforeLoop dt time env e) = obstaclesRef e \<or>
   obstaclesRef (beforeLoop dt time env e) =
     obstaclesRef e @ [obstacleOf SPAWN_DISTANCE (obstacleDraw env)]"
  by (simp add: beforeLoop_def obstacleSpawn_eq decorationUpdate_eq decorationSpawn_eq
      difficulty_def)

lemma updateGameLogic_eq:
  "updateGameLogic dt time env e = obstacleUpdate dt (clock env) (beforeLoop dt time env e)"
  by (simp add: updateGameLogic_def beforeLoop_def)


section \<open>Engine: the obstacle loop\<close>

lemma obstacleBody_eq:
  "obstacleBody dt now ob e rm =
     (advanced dt e ob,
      e\<lparr>lastHitTimeRef :=
          (if collides dt e ob \<and> now - lastHitTimeRef e > INVINCIBILITY_DURATION then now
           else lastHitTimeRef e),
        gameState :=
          (if collides dt e ob \<and> now - lastHitTimeRef e > INVINCIBILITY_DURATION
           then hitUpdate (scoreRef e) (gameState e) else gameState e),
        scoreRef := scoreRef e + (if movedZ dt e ob > 5 \<and> \<not> o_passed ob then 10 else 0)\<rparr>,
      rm @ (if movedZ dt e ob > 5 then [o_id ob] else []))"
  by (auto simp: obstacleBody_def Let_def collides_def movedZ_def advanced_def)

lemma obstacleLoop_Cons:
  assumes "obstacleLoop dt clk k (ob # rest) e rm = (os', e', rm')"
  obtains e1 rm1 rest' where
    "obstacleBody dt (clk k) ob e rm = (advanced dt e ob, e1, rm1)"
    "obstacleLoop dt clk (Suc k) rest e1 rm1 = (rest', e', rm')"
    "os' = advanced dt e ob # rest'"
  using assms by (auto simp: obstacleBody_eq split: prod.splits)

lemma obstacleBody_frame:
  assumes "obstacleBody dt now ob e rm = (ob', e1, rm1)"
  shows "speedRef e1 = speedRef e \<and> playerStateRef e1 = playerStateRef e \<and>
     decorationsRef e1 = decorationsRef e \<and> gestures e1 = gestures e \<and>
     isPlayingRef e1 = isPlayingRef e \<and> isPausedRef e1 = isPausedRef e \<and>
     lastTimeRef e1 = lastTimeRef e \<and> lastSpawnTimeRef e1 = lastSpawnTimeRef e \<and>
     lastDecorSpawnTimeRef e1 = lastDecorSpawnTimeRef e \<and> obstaclesRef e1 = obstaclesRef e \<and>
     renderedState e1 = renderedState e"
  using assms by (auto simp: obstacleBody_eq)

lemma obstacleLoop_frame:
  "obstacleLoop dt clk k os e rm = (os', e', rm') \<Longrightarrow>
     speedRef e' = speedRef e \<and> playerStateRef e' = playerStateRef e \<and>
     decorationsRef e' = decorationsRef e \<and> gestures e' = gestures e \<and>
     isPlayingRef e' = isPlayingRef e \<and> isPausedRef e' = isPausedRef e \<and>
     lastTimeRef e' = lastTimeRef e \<and> lastSpawnTimeRef e' = lastSpawnTimeRef e \<and>
     lastDecorSpawnTimeRef e' = lastDecorSpawnTimeRef e \<and> obstaclesRef e' = obstaclesRef e \<and>
     renderedState e' = renderedState e"
proof (induction os arbitrary: k e rm os')
  case Nil
  then show ?case by simp
next
  case (Cons ob rest)
  from Cons.prems obtain e1 rm1 rest' where
    b: "obstacleBody dt (clk k) ob e rm = (advanced dt e ob, e1, rm1)"
    and l: "obstacleLoop dt clk (Suc k) rest e1 rm1 = (rest', e', rm')"
    by (rule obstacleLoop_Cons)
  from Cons.IH[OF l] obstacleBody_frame[OF b] show ?case by simp
qed

lemma advanced_cong: "speedRef e1 = speedRef e \<Longrightarrow> advanced dt e1 = advanced dt e"
  by (auto simp: advanced_def movedZ_def fun_eq_iff)

lemma movedZ_cong: "speedRef e1 = speedRef e \<Longrightarrow> movedZ dt e1 = movedZ dt e"
  by (auto simp: movedZ_def fun_eq_iff)

lemma collides_cong:
  "speedRef e1 = speedRef e \<Longrightarrow> playerStateRef e1 = playerStateRef e \<Longrightarrow>
     collides dt e1 = collides dt e"
  by (auto simp: collides_def movedZ_def fun_eq_iff)

lemma obstacleLoop_result:
  "obstacleLoop dt clk k os e rm = (os', e', rm') \<Longrightarrow>
     os' = map (advanced dt e) os \<and>
     rm' = rm @ map o_id (filter (\<lambda>ob. movedZ dt e ob > 5) os) \<and>
     scoreRef e' = scoreRef e +
        10 * int (length (filter (\<lambda>ob. movedZ dt e ob > 5 \<and> \<not> o_passed ob) os))"
proof (induction os arbitrary: k e rm os')
  case Nil
  then show ?case by simp
next
  case (Cons ob rest)
  from Cons.prems obtain e1 rm1 rest' where
    b: "obstacleBody dt (clk k) ob e rm = (advanced dt e ob, e1, rm1)"
    and l: "obstacleLoop dt clk (Suc k) rest e1 rm1 = (rest', e', rm')"
    and o: "os' = advanced dt e ob # rest'"
    by (rule obstacleLoop_Cons)
  from obstacleBody_frame[OF b] have v: "speedRef e1 = speedRef e" by simp
  from b have r: "rm1 = rm @ (if movedZ dt e ob > 5 then [o_id ob] else [])"
    and sc: "scoreRef e1 = scoreRef e + (if movedZ dt e ob > 5 \<and> \<not> o_passed ob then 10 else 0)"
    by (auto simp: obstacleBody_eq)
  from Cons.IH[OF l] show ?case
    unfolding o advanced_cong[OF v] movedZ_cong[OF v] r sc by simp
qed

lemma hitUpdate_fields:
  "lives (hitUpdate sc g) = max 0 (lives g - 1)"
  "gameOver (hitUpdate sc g) \<longleftrightarrow> gameOver g \<or> lives g \<le> 1"
  "isPlaying (hitUpdate sc g) = isPlaying g"
  "isPaused (hitUpdate sc g) = isPaused g"
  by (auto simp: hitUpdate_def Let_def)

lemma obstacleLoop_nohit:
  "obstacleLoop dt clk k os e rm = (os', e', rm') \<Longrightarrow>
   (\<forall>i<length os. collides dt e (os ! i) \<longrightarrow>
        clk (k + i) - lastHitTimeRef e \<le> INVINCIBILITY_DURATION) \<Longrightarrow>
   gameState e' = gameState e \<and> lastHitTimeRef e' = lastHitTimeRef e"
proof (induction os arbitrary: k e rm os')
  case Nil
  then show ?case by simp
next
  case (Cons ob rest)
  from Cons.prems(1) obtain e1 rm1 rest' where
    b: "obstacleBody dt (clk k) ob e rm = (advanced dt e ob, e1, rm1)"
    and l: "obstacleLoop dt clk (Suc k) rest e1 rm1 = (rest', e', rm')"
    by (rule obstacleLoop_Cons)
  from Cons.prems(2)[rule_format, of 0]
  have n0: "\<not> (collides dt e ob \<and> clk k - lastHitTimeRef e > INVINCIBILITY_DURATION)"
    by auto
  with b have g1: "gameState e1 = gameState e" and h1: "lastHitTimeRef e1 = lastHitTimeRef e"
    by (auto simp: obstacleBody_eq)
  from obstacleBody_frame[OF b] have c: "collides dt e1 = collides dt e"
    by (intro collides_cong) simp_all
  have "\<forall>i<length rest. collides dt e1 (rest ! i) \<longrightarrow>
        clk (Suc k + i) - lastHitTimeRef e1 \<le> INVINCIBILITY_DURATION"
  proof (intro allI impI)
    fix i assume "i < length rest" "collides dt e1 (rest ! i)"
    with Cons.prems(2)[rule_format, of "Suc i"] c h1
    show "clk (Suc k + i) - lastHitTimeRef e1 \<le> INVINCIBILITY_DURATION" by simp
  qed
  from Cons.IH[OF l this] g1 h1 show ?case by simp
qed

lemma obstacleLoop_hit:
  "obstacleLoop dt clk k os e rm = (os', e', rm') \<Longrightarrow>
   i0 < length os \<Longrightarrow> collides dt e (os ! i0) \<Longrightarrow>
   clk (k + i0) - lastHitTimeRef e > INVINCIBILITY_DURATION \<Longrightarrow>
   (\<forall>i<i0. collides dt e (os ! i) \<longrightarrow>
        clk (k + i) - lastHitTimeRef e \<le> INVINCIBILITY_DURATION) \<Longrightarrow>
   (\<forall>i. i0 < i \<and> i < length os \<and> collides dt e (os ! i) \<longrightarrow>
        clk (k + i) - clk (k + i0) \<le> INVINCIBILITY_DURATION) \<Longrightarrow>
   lastHitTimeRef e' = clk (k + i0) \<and>
   (\<exists>sc. gameState e' = hitUpdate sc (gameState e))"
proof (induction os arbitrary: k e rm os' i0)
  case Nil
  then show ?case by simp
next
  case (Cons ob rest)
  from Cons.prems(1) obtain e1 rm1 rest' where
    b: "obstacleBody dt (clk k) ob e rm = (advanced dt e ob, e1, rm1)"
    and l: "obstacleLoop dt clk (Suc k) rest e1 rm1 = (rest', e', rm')"
    by (rule obstacleLoop_Cons)
  from obstacleBody_frame[OF b] have c: "collides dt e1 = collides dt e"
    by (intro collides_cong) simp_all
  show ?case
  proof (cases i0)
    case 0
    with Cons.prems(3,4) b have g1: "gameState e1 = hitUpdate (scoreRef e) (gameState e)"
      and h1: "lastHitTimeRef e1 = clk k"
      by (auto simp: obstacleBody_eq)
    have "\<forall>i<length rest. collides dt e1 (rest ! i) \<longrightarrow>
        clk (Suc k + i) - lastHitTimeRef e1 \<le> INVINCIBILITY_DURATION"
    proof (intro allI impI)
      fix i assume "i < length rest" "collides dt e1 (rest ! i)"
      with Cons.prems(6)[rule_format, of "Suc i"] c h1 0
      show "clk (Suc k + i) - lastHitTimeRef e1 \<le> INVINCIBILITY_DURATION" by simp
    qed
    from obstacleLoop_nohit[OF l this] g1 h1 0 show ?thesis by auto
  next
    case (Suc j)
    from Cons.prems(5)[rule_format, of 0] Suc
    have n0: "\<not> (collides dt e ob \<and> clk k - lastHitTimeRef e > INVINCIBILITY_DURATION)"
      by auto
    with b have g1: "gameState e1 = gameState e" and h1: "lastHitTimeRef e1 = lastHitTimeRef e"
      by (auto simp: obstacleBody_eq)
    have p2: "j < length rest" using Cons.prems(2) Suc by simp
    have p3: "collides dt e1 (rest ! j)" using Cons.prems(3) Suc c by simp
    have p4: "clk (Suc k + j) - lastHitTimeRef e1 > INVINCIBILITY_DURATION"
      using Cons.prems(4) Suc h1 by simp
    have p5: "\<forall>i<j. collides dt e1 (rest ! i) \<longrightarrow>
        clk (Suc k + i) - lastHitTimeRef e1 \<le> INVINCIBILITY_DURATION"
    proof (intro allI impI)
      fix i assume "i < j" "collides dt e1 (rest ! i)"
      with Cons.prems(5)[rule_format, of "Suc i"] c h1 Suc
      show "clk (Suc k + i) - lastHitTimeRef e1 \<le> INVINCIBILITY_DURATION" by simp
    qed
    have p6: "\<forall>i. j < i \<and> i < length rest \<and> collides dt e1 (rest ! i) \<longrightarrow>
        clk (Suc k + i) - clk (Suc k + j) \<le> INVINCIBILITY_DURATION"
    proof (intro allI impI)
      fix i assume "j < i \<and> i < length rest \<and> collides dt e1 (rest ! i)"
      with Cons.prems(6)[rule_format, of "Suc i"] c Suc
      show "clk (Suc k + i) - clk (Suc k + j) \<le> INVINCIBILITY_DURATION" by simp
    qed
    from Cons.IH[OF l p2 p3 p4 p5 p6] g1 Suc show ?thesis by simp
  qed
qed

lemma obstacleUpdate_unfold:
  obtains os' e' rm' where
    "obstacleLoop dt clk 0 (obstaclesRef e) e [] = (os', e', rm')"
    "obstacleUpdate dt clk e = e'\<lparr>obstaclesRef := filter (\<lambda>ob. o_id ob \<notin> set rm') os'\<rparr>"
proof -
  obtain os' e' rm' where l: "obstacleLoop dt clk 0 (obstaclesRef e) e [] = (os', e', rm')"
    by (metis prod_cases3)
  then have "obstacleUpdate dt clk e = e'\<lparr>obstaclesRef := filter (\<lambda>ob. o_id ob \<notin> set rm') os'\<rparr>"
    by (simp add: obstacleUpdate_def)
  with l that show ?thesis by blast
qed

lemma obstacleUpdate_fields:
  "speedRef (obstacleUpdate dt clk e) = speedRef e"
  "playerStateRef (obstacleUpdate dt clk e) = playerStateRef e"
  "decorationsRef (obstacleUpdate dt clk e) = decorationsRef e"
  "gestures (obstacleUpdate dt clk e) = gestures e"
  "isPlayingRef (obstacleUpdate dt clk e) = isPlayingRef e"
  "isPausedRef (obstacleUpdate dt clk e) = isPausedRef e"
  "lastTimeRef (obstacleUpdate dt clk e) = lastTimeRef e"
  "renderedState (obstacleUpdate dt clk e) = renderedState e"
proof -
  obtain os' e' rm' where l: "obstacleLoop dt clk 0 (obstaclesRef e) e [] = (os', e', rm')"
    and u: "obstacleUpdate dt clk e = e'\<lparr>obstaclesRef := filter (\<lambda>ob. o_id ob \<notin> set rm') os'\<rparr>"
    by (rule obstacleUpdate_unfold)
  from obstacleLoop_frame[OF l] show
  "speedRef (obstacleUpdate dt clk e) = speedRef e"
  "playerStateRef (obstacleUpdate dt clk e) = playerStateRef e"
  "decorationsRef (obstacleUpdate dt clk e) = decorationsRef e"
  "gestures (obstacleUpdate dt clk e) = gestures e"
  "isPlayingRef (obstacleUpdate dt clk e) = isPlayingRef e"
  "isPausedRef (obstacleUpdate dt clk e) = isPausedRef e"
  "lastTimeRef (obstacleUpdate dt clk e) = lastTimeRef e"
  "renderedState (obstacleUpdate dt clk e) = renderedState e"
    unfolding u by simp_all
qed

lemma obstacleUpdate_score:
  "scoreRef (obstacleUpdate dt clk e) = scoreRef e +
     10 * int (length (filter (\<lambda>ob. movedZ dt e ob > 5 \<and> \<not> o_passed ob) (obstaclesRef e)))"
proof -
  obtain os' e' rm' where l: "obstacleLoop dt clk 0 (obstaclesRef e) e [] = (os', e', rm')"
    and u: "obstacleUpdate dt clk e = e'\<lparr>obstaclesRef := filter (\<lambda>ob. o_id ob \<notin> set rm') os'\<rparr>"
    by (rule obstacleUpdate_unfold)
  from obstacleLoop_result[OF l] show ?thesis unfolding u by simp
qed

lemma obstacleUpdate_obstacles:
  "obstaclesRef (obstacleUpdate dt clk e) =
     filter (\<lambda>ob. o_id ob \<notin> o_id ` {x \<in> set (obstaclesRef e). movedZ dt e x > 5})
       (map (advanced dt e) (obstaclesRef e))"
proof -
  obtain os' e' rm' where l: "obstacleLoop dt clk 0 (obstaclesRef e) e [] = (os', e', rm')"
    and u: "obstacleUpdate dt clk e = e'\<lparr>obstaclesRef := filter (\<lambda>ob. o_id ob \<notin> set rm') os'\<rparr>"
    by (rule obstacleUpdate_unfold)
  from obstacleLoop_result[OF l] have "os' = map (advanced dt e) (obstaclesRef e)"
    and "set rm' = o_id ` {x \<in> set (obstaclesRef e). movedZ dt e x > 5}" by auto
  then show ?thesis unfolding u by simp
qed

lemma obstacleUpdate_nohit:
  assumes "\<forall>k<length (obstaclesRef e). collides dt e (obstaclesRef e ! k) \<longrightarrow>
        clk k - lastHitTimeRef e \<le> INVINCIBILITY_DURATION"
  shows "gameState (obstacleUpdate dt clk e) = gameState e \<and>
         lastHitTimeRef (obstacleUpdate dt clk e) = lastHitTimeRef e"
proof -
  obtain os' e' rm' where l: "obstacleLoop dt clk 0 (obstaclesRef e) e [] = (os', e', rm')"
    and u: "obstacleUpdate dt clk e = e'\<lparr>obstaclesRef := filter (\<lambda>ob. o_id ob \<notin> set rm') os'\<rparr>"
    by (rule obstacleUpdate_unfold)
  from assms have "\<forall>i<length (obstaclesRef e). collides dt e (obstaclesRef e ! i) \<longrightarrow>
        clk (0 + i) - lastHitTimeRef e \<le> INVINCIBILITY_DURATION" by simp
  from obstacleLoop_nohit[OF l this] show ?thesis unfolding u by simp
qed

lemma obstacleUpdate_hit:
  assumes "k0 < length (obstaclesRef e)" "collides dt e (obstaclesRef e ! k0)"
    "clk k0 - lastHitTimeRef e > INVINCIBILITY_DURATION"
    "\<forall>k<k0. collides dt e (obstaclesRef e ! k) \<longrightarrow>
        clk k - lastHitTimeRef e \<le> INVINCIBILITY_DURATION"
    "\<forall>k. k0 < k \<and> k < length (obstaclesRef e) \<and> collides dt e (obstaclesRef e ! k) \<longrightarrow>
        clk k - clk k0 \<le> INVINCIBILITY_DURATION"
  shows "lastHitTimeRef (obstacleUpdate dt clk e) = clk k0 \<and>
         (\<exists>sc. gameState (obstacleUpdate dt clk e) = hitUpdate sc (gameState e))"
proof -
  obtain os' e' rm' where l: "obstacleLoop dt clk 0 (obstaclesRef e) e [] = (os', e', rm')"
    and u: "obstacleUpdate dt clk e = e'\<lparr>obstaclesRef := filter (\<lambda>ob. o_id ob \<notin> set rm') os'\<rparr>"
    by (rule obstacleUpdate_unfold)
  have "lastHitTimeRef e' = clk (0 + k0) \<and> (\<exists>sc. gameState e' = hitUpdate sc (gameState e))"
    by (rule obstacleLoop_hit[OF l assms(1,2)]) (use assms(3-5) in simp_all)
  then show ?thesis unfolding u by simp
qed

lemma advanced_fields:
  "o_id (advanced dt e ob) = o_id ob"
  "o_z (advanced dt e ob) = movedZ dt e ob"
  "o_passed (advanced dt e ob) \<longleftrightarrow> o_passed ob \<or> movedZ dt e ob > 5"
  "o_lane (advanced dt e ob) = o_lane ob"
  by (simp_all add: advanced_def)

lemma beforeLoop_unpassed:
  assumes "\<forall>ob \<in> set (obstaclesRef e). \<not> o_passed ob"
  shows "\<forall>ob \<in> set (obstaclesRef (beforeLoop dt time env e)). \<not> o_passed ob"
  using assms beforeLoop_obstacles[of dt time env e] by (auto simp: obstacleOf_def)

lemma updateGameLogic_speed:
  "speedRef (updateGameLogic dt time env e) =
     min MAX_SPEED (START_SPEED + real_of_int (scoreRef e) / 50)"
  unfolding updateGameLogic_eq obstacleUpdate_fields by (rule beforeLoop_fields)

lemma updateGameLogic_score:
  "scoreRef (updateGameLogic dt time env e) = scoreRef e +
     10 * int (length (filter (\<lambda>ob. movedZ dt (beforeLoop dt time env e) ob > 5 \<and> \<not> o_passed ob)
        (obstaclesRef (beforeLoop dt time env e))))"
  unfolding updateGameLogic_eq obstacleUpdate_score by (simp add: beforeLoop_fields)


section \<open>Collision and invincibility\<close>

text \<open>
  Claim C1. In every tick, with \<open>b\<close> the engine as the obstacle loop finds it
  and \<open>collides\<close> the condition "same lane as the player, player height below 1.1,
  depth after the move strictly between -1 and 1": if every colliding obstacle is
  visited while the invincibility window is active (the clock reading is at most
  \<open>INVINCIBILITY_DURATION\<close> past \<^verbatim>\<open>lastHitTimeRef\<close>), or none collides, the tick
  leaves lives and the window untouched; if obstacle \<open>j\<close> is the first that
  collides outside the window (and the later ones are visited within the new
  window), the window restarts at the clock reading of that visit and lives drop
  by exactly one (never below 0).
\<close>

theorem collision_invincibility:
  assumes "b = beforeLoop dt time env e" and "e' = updateGameLogic dt time env e"
  shows
   "((\<forall>k<length (obstaclesRef b). collides dt b (obstaclesRef b ! k) \<longrightarrow>
          clock env k - lastHitTimeRef e \<le> INVINCIBILITY_DURATION) \<longrightarrow>
       gameState e' = gameState e \<and> lastHitTimeRef e' = lastHitTimeRef e) \<and>
    (j < length (obstaclesRef b) \<and> collides dt b (obstaclesRef b ! j) \<and>
     clock env j - lastHitTimeRef e > INVINCIBILITY_DURATION \<and>
     (\<forall>k<j. collides dt b (obstaclesRef b ! k) \<longrightarrow>
          clock env k - lastHitTimeRef e \<le> INVINCIBILITY_DURATION) \<and>
     (\<forall>k. j < k \<and> k < length (obstaclesRef b) \<and> collides dt b (obstaclesRef b ! k) \<longrightarrow>
          clock env k - clock env j \<le> INVINCIBILITY_DURATION) \<longrightarrow>
       lastHitTimeRef e' = clock env j \<and>
       lives (gameState e') = max 0 (lives (gameState e) - 1) \<and>
       (1 \<le> lives (gameState e) \<longrightarrow> lives (gameState e') = lives (gameState e) - 1))"
proof -
  have e': "e' = obstacleUpdate dt (clock env) b"
    unfolding assms by (rule updateGameLogic_eq)
  have g: "gameState b = gameState e" and h: "lastHitTimeRef b = lastHitTimeRef e"
    unfolding assms(1) by (rule beforeLoop_fields)+
  have A: "gameState e' = gameState e \<and> lastHitTimeRef e' = lastHitTimeRef e"
    if "\<forall>k<length (obstaclesRef b). collides dt b (obstaclesRef b ! k) \<longrightarrow>
          clock env k - lastHitTimeRef e \<le> INVINCIBILITY_DURATION"
    using obstacleUpdate_nohit[of b dt "clock env"] that unfolding e' g h by simp
  have B: "lastHitTimeRef e' = clock env j \<and>
       lives (gameState e') = max 0 (lives (gameState e) - 1) \<and>
       (1 \<le> lives (gameState e) \<longrightarrow> lives (gameState e') = lives (gameState e) - 1)"
    if p: "j < length (obstaclesRef b)" "collides dt b (obstaclesRef b ! j)"
     "clock env j - lastHitTimeRef e > INVINCIBILITY_DURATION"
     "\<forall>k<j. collides dt b (obstaclesRef b ! k) \<longrightarrow>
          clock env k - lastHitTimeRef e \<le> INVINCIBILITY_DURATION"
     "\<forall>k. j < k \<and> k < length (obstaclesRef b) \<and> collides dt b (obstaclesRef b ! k) \<longrightarrow>
          clock env k - clock env j \<le> INVINCIBILITY_DURATION"
  proof -
    from obstacleUpdate_hit[of j b dt "clock env"] p
    have "lastHitTimeRef e' = clock env j"
      and "\<exists>sc. gameState e' = hitUpdate sc (gameState e)"
      unfolding e' g h by simp_all
    then show ?thesis by (auto simp: hitUpdate_fields)
  qed
  from A B show ?thesis by blast
qed

text \<open>
  One obstacle in the player's lane arrives at depth -0.25: with the last hit at 0
  and the clock at 10050 the player goes from 3 lives to 2 and the window starts
  at 10050; with the last hit at 9000 nothing changes.
\<close>

theorem collision_invincibility_witness:
  "length (obstaclesRef (beforeLoop 0.05 10050 (drawEnv 0.5 10 10050)
              (exampleEngine [lava 7 1 (- 1)]))) = 1 \<and>
   collides 0.05 (beforeLoop 0.05 10050 (drawEnv 0.5 10 10050) (exampleEngine [lava 7 1 (- 1)]))
      (lava 7 1 (- 1)) \<and>
   lives (gameState (exampleEngine [lava 7 1 (- 1)])) = 3 \<and>
   lives (gameState (updateGameLogic 0.05 10050 (drawEnv 0.5 10 10050)
              (exampleEngine [lava 7 1 (- 1)]))) = 2 \<and>
   lastHitTimeRef (updateGameLogic 0.05 10050 (drawEnv 0.5 10 10050)
              (exampleEngine [lava 7 1 (- 1)])) = 10050 \<and>
   gameState (updateGameLogic 0.05 10050 (drawEnv 0.5 10 10050)
              ((exampleEngine [lava 7 1 (- 1)])\<lparr>lastHitTimeRef := 9000\<rparr>))
     = gameState (exampleEngine [lava 7 1 (- 1)])"
proof -
  let ?env = "drawEnv 0.5 10 10050"
  let ?e = "exampleEngine [lava 7 1 (- 1)]"
  let ?b = "beforeLoop 0.05 10050 ?env ?e"
  let ?e2 = "?e\<lparr>lastHitTimeRef := 9000\<rparr>"
  let ?b2 = "beforeLoop 0.05 10050 ?env ?e2"
  have clk: "clock ?env k = 10050" for k by (simp add: drawEnv_def)
  have ob: "obstaclesRef ?b = [lava 7 1 (- 1)]" by code_simp
  have co: "collides 0.05 ?b (lava 7 1 (- 1))" by code_simp
  have l3: "lives (gameState ?e) = 3" by code_simp
  have h0: "lastHitTimeRef ?e = 0" by code_simp
  have g2: "gameState ?e2 = gameState ?e" by simp
  have B: "0 < length (obstaclesRef ?b) \<and> collides 0.05 ?b (obstaclesRef ?b ! 0) \<and>
     clock ?env 0 - lastHitTimeRef ?e > INVINCIBILITY_DURATION \<and>
     (\<forall>k<0. collides 0.05 ?b (obstaclesRef ?b ! k) \<longrightarrow>
          clock ?env k - lastHitTimeRef ?e \<le> INVINCIBILITY_DURATION) \<and>
     (\<forall>k. 0 < k \<and> k < length (obstaclesRef ?b) \<and> collides 0.05 ?b (obstaclesRef ?b ! k) \<longrightarrow>
          clock ?env k - clock ?env 0 \<le> INVINCIBILITY_DURATION)"
    using co unfolding ob h0 clk by (simp add: INVINCIBILITY_DURATION_def)
  have A: "\<forall>k<length (obstaclesRef ?b2). collides 0.05 ?b2 (obstaclesRef ?b2 ! k) \<longrightarrow>
          clock ?env k - lastHitTimeRef ?e2 \<le> INVINCIBILITY_DURATION"
    unfolding clk by (simp add: INVINCIBILITY_DURATION_def)
  from collision_invincibility[OF refl refl, where dt = "0.05" and time = "10050" and env = ?env
      and e = ?e and j = 0] B l3
  have 1: "lastHitTimeRef (updateGameLogic 0.05 10050 ?env ?e) = 10050"
    and 2: "lives (gameState (updateGameLogic 0.05 10050 ?env ?e)) = 2"
    unfolding clk by simp_all
  from collision_invincibility[OF refl refl, where dt = "0.05" and time = "10050" and env = ?env
      and e = ?e2 and j = 0] A g2
  have 3: "gameState (updateGameLogic 0.05 10050 ?env ?e2) = gameState ?e" by simp
  from ob co l3 1 2 3 show ?thesis by simp
qed


section \<open>Scoring a passed obstacle\<close>

text \<open>
  Claim C2. Live obstacles are never marked passed (this holds in every state of a
  session, see \<open>run_inv\<close> below). In a tick, with \<open>b\<close> the engine as the obstacle
  loop finds it: the score grows by exactly 10 for each obstacle whose depth after
  the move exceeds 5, whatever the collision test did; each such obstacle is gone
  from the live collection afterwards (no live obstacle carries its id); and the
  obstacles that stay are not past 5, not marked passed and not yet scored, being
  the moved copies of obstacles that were there before.
\<close>

theorem passed_scores_once:
  assumes "\<forall>ob \<in> set (obstaclesRef e). \<not> o_passed ob"
    and "b = beforeLoop dt time env e" and "e' = updateGameLogic dt time env e"
  shows
   "scoreRef e' = scoreRef e +
       10 * int (length (filter (\<lambda>ob. o_z ob + speedRef b * dt > 5) (obstaclesRef b))) \<and>
    (\<forall>ob \<in> set (obstaclesRef b). o_z ob + speedRef b * dt > 5 \<longrightarrow>
         o_id ob \<notin> o_id ` set (obstaclesRef e')) \<and>
    (\<forall>ob' \<in> set (obstaclesRef e'). o_z ob' \<le> 5 \<and> \<not> o_passed ob' \<and>
         (\<exists>ob \<in> set (obstaclesRef b). ob' = ob\<lparr>o_z := o_z ob + speedRef b * dt\<rparr>))"
proof -
  have e': "e' = obstacleUpdate dt (clock env) b"
    unfolding assms by (rule updateGameLogic_eq)
  have sc: "scoreRef b = scoreRef e" unfolding assms(2) by (rule beforeLoop_fields)
  have un: "\<forall>ob \<in> set (obstaclesRef b). \<not> o_passed ob"
    unfolding assms(2) by (rule beforeLoop_unpassed[OF assms(1)])
  then have f: "filter (\<lambda>ob. movedZ dt b ob > 5 \<and> \<not> o_passed ob) (obstaclesRef b)
     = filter (\<lambda>ob. movedZ dt b ob > 5) (obstaclesRef b)"
    by (intro filter_cong) auto
  have 1: "scoreRef e' = scoreRef e +
       10 * int (length (filter (\<lambda>ob. o_z ob + speedRef b * dt > 5) (obstaclesRef b)))"
    unfolding e' obstacleUpdate_score f sc by (simp add: movedZ_def)
  have 2: "\<forall>ob \<in> set (obstaclesRef b). o_z ob + speedRef b * dt > 5 \<longrightarrow>
         o_id ob \<notin> o_id ` set (obstaclesRef e')"
  proof (intro ballI impI)
    fix ob assume ob: "ob \<in> set (obstaclesRef b)" "o_z ob + speedRef b * dt > 5"
    then have "o_id ob \<in> o_id ` {x \<in> set (obstaclesRef b). movedZ dt b x > 5}"
      by (auto simp: movedZ_def)
    then show "o_id ob \<notin> o_id ` set (obstaclesRef e')"
      unfolding e' obstacleUpdate_obstacles by (auto simp: advanced_fields)
  qed
  have 3: "\<forall>ob' \<in> set (obstaclesRef e'). o_z ob' \<le> 5 \<and> \<not> o_passed ob' \<and>
         (\<exists>ob \<in> set (obstaclesRef b). ob' = ob\<lparr>o_z := o_z ob + speedRef b * dt\<rparr>)"
  proof
    fix ob' assume "ob' \<in> set (obstaclesRef e')"
    then obtain ob where ob: "ob \<in> set (obstaclesRef b)" "ob' = advanced dt b ob"
      and keep: "o_id ob \<notin> o_id ` {x \<in> set (obstaclesRef b). movedZ dt b x > 5}"
      unfolding e' obstacleUpdate_obstacles by (auto simp: advanced_fields)
    from keep ob(1) have z: "\<not> movedZ dt b ob > 5" by auto
    with un ob show "o_z ob' \<le> 5 \<and> \<not> o_passed ob' \<and>
         (\<exists>ob \<in> set (obstaclesRef b). ob' = ob\<lparr>o_z := o_z ob + speedRef b * dt\<rparr>)"
      by (auto simp: advanced_def movedZ_def intro!: bexI[of _ ob])
  qed
  from 1 2 3 show ?thesis by blast
qed

text \<open>
  Of two obstacles at depths 4.5 and -20, a tick of 50 ms at speed 15 scores the
  first (depth 5.25) and keeps the second.
\<close>

theorem passed_scores_once_witness:
  "o_passed (lava 7 1 4.5) = False \<and> o_passed (lava 8 0 (- 20)) = False \<and>
   scoreRef (updateGameLogic 0.05 10050 (drawEnv 0.5 10 10050)
       (exampleEngine [lava 7 1 4.5, lava 8 0 (- 20)]))
     = scoreRef (exampleEngine [lava 7 1 4.5, lava 8 0 (- 20)]) + 10 \<and>
   obstaclesRef (updateGameLogic 0.05 10050 (drawEnv 0.5 10 10050)
       (exampleEngine [lava 7 1 4.5, lava 8 0 (- 20)]))
     = [lava 8 0 (- 19.25)]"
proof -
  let ?env = "drawEnv 0.5 10 10050"
  let ?e = "exampleEngine [lava 7 1 4.5, lava 8 0 (- 20)]"
  let ?b = "beforeLoop 0.05 10050 ?env ?e"
  have u: "\<forall>ob \<in> set (obstaclesRef ?e). \<not> o_passed ob"
    by (simp add: exampleEngine_def lava_def)
  have n: "length (filter (\<lambda>ob. o_z ob + speedRef ?b * 0.05 > 5) (obstaclesRef ?b)) = 1"
    by code_simp
  have r: "obstaclesRef (updateGameLogic 0.05 10050 ?env ?e) = [lava 8 0 (- 19.25)]"
    by code_simp
  from passed_scores_once[OF u refl refl, where dt = "0.05" and time = "10050" and env = ?env]
  have "scoreRef (updateGameLogic 0.05 10050 ?env ?e) = scoreRef ?e + 10"
    unfolding n by simp
  with r show ?thesis by (simp add: lava_def)
qed


section \<open>Speed and score\<close>

text \<open>
  Claim C4. After every tick the speed is \<open>min MAX_SPEED (START_SPEED + score / 50)\<close>
  of the score the tick started with: 15 for score 0, 25 for score 500, 40 and not
  41.25 for score 1300; two ticks that start with the same score end with the same
  speed, whatever their times, random draws and other state.
\<close>

theorem speed_from_score:
  "speedRef (updateGameLogic dt time env e) =
     min MAX_SPEED (START_SPEED + real_of_int (scoreRef e) / 50) \<and>
   speedRef (updateGameLogic dt time env (e\<lparr>scoreRef := 0\<rparr>)) = 15 \<and>
   speedRef (updateGameLogic dt time env (e\<lparr>scoreRef := 500\<rparr>)) = 25 \<and>
   speedRef (updateGameLogic dt time env (e\<lparr>scoreRef := 1300\<rparr>)) = 40 \<and>
   speedRef (updateGameLogic dt time env (e\<lparr>scoreRef := 1300\<rparr>)) \<noteq> 41.25 \<and>
   (scoreRef e = scoreRef e' \<longrightarrow>
       speedRef (updateGameLogic dt time env e) = speedRef (updateGameLogic dt' time' env' e'))"
  by (simp add: updateGameLogic_speed MAX_SPEED_def START_SPEED_def)

theorem speed_from_score_witness:
  "scoreRef (exampleEngine []) = scoreRef ((exampleEngine [lava 7 1 0])\<lparr>lastHitTimeRef := 77\<rparr>) \<and>
   speedRef (updateGameLogic 0.016 10016 (drawEnv 0.5 10 10016) (exampleEngine []))
     = speedRef (updateGameLogic 0.5 20000 (drawEnv 0.125 30 20000)
          ((exampleEngine [lava 7 1 0])\<lparr>lastHitTimeRef := 77\<rparr>)) \<and>
   speedRef (updateGameLogic 0.016 10016 (drawEnv 0.5 10 10016) (exampleEngine [])) = 15"
proof -
  have s: "scoreRef (exampleEngine []) =
      scoreRef ((exampleEngine [lava 7 1 0])\<lparr>lastHitTimeRef := 77\<rparr>)"
    by (simp add: exampleEngine_def initialEngine_def)
  have z: "scoreRef (exampleEngine []) = 0"
    by (simp add: exampleEngine_def initialEngine_def)
  from speed_from_score[where dt = "0.016" and time = "10016" and env = "drawEnv 0.5 10 10016"
      and e = "exampleEngine []"
      and e' = "(exampleEngine [lava 7 1 0])\<lparr>lastHitTimeRef := 77\<rparr>"
      and dt' = "0.5" and time' = "20000" and env' = "drawEnv 0.125 30 20000"]
    s z show ?thesis by (simp add: MAX_SPEED_def START_SPEED_def)
qed

text \<open>
  Claim C10. A tick never lowers the score: it adds a multiple of 10 (ten per
  obstacle scored), and so does an animation frame, paused or not. Hence the speed
  after the next tick is at least the speed after this one; it never exceeds
  \<open>MAX_SPEED\<close> and, the score being non-negative, never falls below \<open>START_SPEED\<close>.
\<close>

theorem score_speed_monotone:
  "scoreRef e \<le> scoreRef (updateGameLogic dt time env e) \<and>
   scoreRef e \<le> scoreRef (animate time env e) \<and>
   10 dvd (scoreRef (updateGameLogic dt time env e) - scoreRef e) \<and>
   speedRef (updateGameLogic dt time env e) \<le>
     speedRef (updateGameLogic dt' time' env' (updateGameLogic dt time env e)) \<and>
   speedRef (updateGameLogic dt time env e) \<le> MAX_SPEED \<and>
   (0 \<le> scoreRef e \<longrightarrow> START_SPEED \<le> speedRef (updateGameLogic dt time env e))"
proof -
  have m: "scoreRef x \<le> scoreRef (updateGameLogic d t v x)" for x d t v
    unfolding updateGameLogic_score by simp
  have a: "scoreRef e \<le> scoreRef (animate time env e)"
    using m[of "e\<lparr>lastTimeRef := time\<rparr>"] by (simp add: animate_def)
  have d: "10 dvd (scoreRef (updateGameLogic dt time env e) - scoreRef e)"
    unfolding updateGameLogic_score by simp
  have s: "speedRef (updateGameLogic dt time env e) \<le>
     speedRef (updateGameLogic dt' time' env' (updateGameLogic dt time env e))"
    unfolding updateGameLogic_speed using m[of e dt time env] by (simp add: min_le_iff_disj divide_right_mono)
  have u: "speedRef (updateGameLogic dt time env e) \<le> MAX_SPEED"
    unfolding updateGameLogic_speed by simp
  have l: "0 \<le> scoreRef e \<Longrightarrow> START_SPEED \<le> speedRef (updateGameLogic dt time env e)"
    unfolding updateGameLogic_speed by (simp add: MAX_SPEED_def START_SPEED_def)
  from m a d s u l show ?thesis by blast
qed

theorem score_speed_monotone_witness:
  "0 \<le> scoreRef (exampleEngine [lava 7 1 4.5]) \<and>
   scoreRef (updateGameLogic 0.05 10050 (drawEnv 0.5 10 10050) (exampleEngine [lava 7 1 4.5])) = 10 \<and>
   START_SPEED \<le> speedRef (updateGameLogic 0.05 10050 (drawEnv 0.5 10 10050)
       (exampleEngine [lava 7 1 4.5])) \<and>
   speedRef (updateGameLogic 0.05 10050 (drawEnv 0.5 10 10050) (exampleEngine [lava 7 1 4.5]))
     \<le> speedRef (updateGameLogic 0.05 10100 (drawEnv 0.5 20 10100)
          (updateGameLogic 0.05 10050 (drawEnv 0.5 10 10050) (exampleEngine [lava 7 1 4.5])))"
proof -
  have z: "0 \<le> scoreRef (exampleEngine [lava 7 1 4.5])"
    by (simp add: exampleEngine_def initialEngine_def)
  have t: "scoreRef (updateGameLogic 0.05 10050 (drawEnv 0.5 10 10050)
       (exampleEngine [lava 7 1 4.5])) = 10"
    by code_simp
  from score_speed_monotone[where e = "exampleEngine [lava 7 1 4.5]" and dt = "0.05"
      and time = "10050" and env = "drawEnv 0.5 10 10050"
      and dt' = "0.05" and time' = "10100" and env' = "drawEnv 0.5 20 10100"] z t
  show ?thesis by simp
qed


section \<open>Sessions: what holds between events\<close>

lemma hitUpdate_ok: "gs_ok g \<Longrightarrow> gs_ok (hitUpdate sc g)"
  by (auto simp: gs_ok_def hitUpdate_def Let_def)

lemma obstacleLoop_gameState:
  "obstacleLoop dt clk k os e rm = (os', e', rm') \<Longrightarrow> gs_ok (gameState e) \<Longrightarrow>
     gs_ok (gameState e') \<and> isPlaying (gameState e') = isPlaying (gameState e) \<and>
     isPaused (gameState e') = isPaused (gameState e) \<and>
     (gameOver (gameState e) \<longrightarrow> gameOver (gameState e'))"
proof (induction os arbitrary: k e rm os')
  case Nil
  then show ?case by simp
next
  case (Cons ob rest)
  from Cons.prems(1) obtain e1 rm1 rest' where
    b: "obstacleBody dt (clk k) ob e rm = (advanced dt e ob, e1, rm1)"
    and l: "obstacleLoop dt clk (Suc k) rest e1 rm1 = (rest', e', rm')"
    by (rule obstacleLoop_Cons)
  from b have "gameState e1 = gameState e \<or> gameState e1 = hitUpdate (scoreRef e) (gameState e)"
    by (auto simp: obstacleBody_eq)
  with Cons.prems(2) have "gs_ok (gameState e1) \<and> isPlaying (gameState e1) = isPlaying (gameState e) \<and>
     isPaused (gameState e1) = isPaused (gameState e) \<and>
     (gameOver (gameState e) \<longrightarrow> gameOver (gameState e1))"
    by (auto simp: hitUpdate_ok hitUpdate_fields)
  with Cons.IH[OF l] show ?case by simp
qed

lemma updateGameLogic_gameState:
  assumes "gs_ok (gameState e)"
  shows "gs_ok (gameState (updateGameLogic dt time env e)) \<and>
     isPlaying (gameState (updateGameLogic dt time env e)) = isPlaying (gameState e) \<and>
     isPaused (gameState (updateGameLogic dt time env e)) = isPaused (gameState e) \<and>
     (gameOver (gameState e) \<longrightarrow> gameOver (gameState (updateGameLogic dt time env e)))"
proof -
  let ?b = "beforeLoop dt time env e"
  obtain os' e' rm' where l: "obstacleLoop dt (clock env) 0 (obstaclesRef ?b) ?b [] = (os', e', rm')"
    and u: "obstacleUpdate dt (clock env) ?b = e'\<lparr>obstaclesRef := filter (\<lambda>ob. o_id ob \<notin> set rm') os'\<rparr>"
    by (rule obstacleUpdate_unfold)
  have "gs_ok (gameState ?b)" using assms by (simp add: beforeLoop_fields)
  from obstacleLoop_gameState[OF l this] show ?thesis
    unfolding updateGameLogic_eq u by (simp add: beforeLoop_fields)
qed

lemma playerPhysics_lane: "lane (playerPhysics time p) = lane p"
  by (simp add: playerPhysics_def Let_def)

lemma updateGameLogic_refs:
  "isPlayingRef (updateGameLogic dt time env e) = isPlayingRef e"
  "isPausedRef (updateGameLogic dt time env e) = isPausedRef e"
  "lane (playerStateRef (updateGameLogic dt time env e)) = lane (playerStateRef e)"
  "gestures (updateGameLogic dt time env e) = gestures e"
  "renderedState (updateGameLogic dt time env e) = renderedState e"
  unfolding updateGameLogic_eq obstacleUpdate_fields
  by (simp_all add: beforeLoop_fields playerPhysics_lane)

lemma updateGameLogic_unpassed:
  assumes "\<forall>ob \<in> set (obstaclesRef e). \<not> o_passed ob"
  shows "\<forall>ob \<in> set (obstaclesRef (updateGameLogic dt time env e)). \<not> o_passed ob"
proof
  fix ob' assume "ob' \<in> set (obstaclesRef (updateGameLogic dt time env e))"
  then obtain ob where ob: "ob \<in> set (obstaclesRef (beforeLoop dt time env e))"
      "ob' = advanced dt (beforeLoop dt time env e) ob"
    and keep: "o_id ob \<notin> o_id ` {x \<in> set (obstaclesRef (beforeLoop dt time env e)).
         movedZ dt (beforeLoop dt time env e) x > 5}"
    unfolding updateGameLogic_eq obstacleUpdate_obstacles by (auto simp: advanced_fields)
  from keep ob(1) have "\<not> movedZ dt (beforeLoop dt time env e) ob > 5" by auto
  with beforeLoop_unpassed[OF assms, of dt time env] ob show "\<not> o_passed ob'"
    by (auto simp: advanced_fields)
qed

lemma gameLoopEffect_fields:
  "gameState (gameLoopEffect n n' e) = gameState e"
  "renderedState (gameLoopEffect n n' e) = renderedState e"
  "isPausedRef (gameLoopEffect n n' e) = isPausedRef e"
  "isPlayingRef (gameLoopEffect n n' e) \<longleftrightarrow>
     isPlaying (renderedState e) \<and> \<not> gameOver (renderedState e)"
  "obstaclesRef (gameLoopEffect n n' e) = []"
  "decorationsRef (gameLoopEffect n n' e) = []"
  "playerStateRef (gameLoopEffect n n' e) = initialPlayer"
  "scoreRef (gameLoopEffect n n' e) = 0"
  by (simp_all add: gameLoopEffect_def Let_def)

lemma gameLoopEffect_inv:
  assumes "gs_ok (gameState e)" "isPausedRef e = isPaused (renderedState e)"
    "renderedState e = gameState e"
  shows "session_inv (gameLoopEffect n n' e)"
  using assms by (simp add: session_inv_def gameLoopEffect_fields initialPlayer_def)

lemma commit_fields:
  "gameState (commit ec e) = gameState e"
  "renderedState (commit ec e) = gameState e"
  by (simp_all add: commit_def Let_def gameLoopEffect_fields)

lemma commit_inv:
  assumes "gs_ok (gameState e)"
    and "isPlayingRef e \<longrightarrow> isPlaying (renderedState e) \<and> \<not> gameOver (renderedState e)"
    and "isPausedRef e = isPaused (renderedState e)"
    and "\<forall>ob \<in> set (obstaclesRef e). \<not> o_passed ob"
    and "lane (playerStateRef e) \<in> {0, 1, 2}" and "0 \<le> scoreRef e"
  shows "session_inv (commit ec e)"
proof -
  let ?e0 = "e\<lparr>renderedState := gameState e\<rparr>"
  let ?e1 = "if isPaused (gameState e) \<noteq> isPaused (renderedState e)
             then ?e0\<lparr>isPausedRef := isPaused (gameState e)\<rparr> else ?e0"
  have p: "isPausedRef ?e1 = isPaused (renderedState ?e1)" using assms(3) by auto
  have g: "gameState ?e1 = gameState e" "renderedState ?e1 = gameState e" by simp_all
  show ?thesis
  proof (cases "isPlaying (gameState e) \<noteq> isPlaying (renderedState e) \<or>
            gameOver (gameState e) \<noteq> gameOver (renderedState e)")
    case True
    then have "commit ec e = gameLoopEffect (fst ec) (snd ec) ?e1"
      by (simp add: commit_def Let_def)
    moreover have "session_inv (gameLoopEffect (fst ec) (snd ec) ?e1)"
      by (rule gameLoopEffect_inv) (use assms(1) p g in simp_all)
    ultimately show ?thesis by simp
  next
    case False
    then have c: "commit ec e = ?e1" by (simp add: commit_def Let_def)
    from False assms show ?thesis unfolding c by (auto simp: session_inv_def)
  qed
qed

lemma commit_same:
  assumes "renderedState e = gameState e"
  shows "commit ec e = e"
proof -
  have "e\<lparr>renderedState := gameState e\<rparr> = e" using assms[symmetric] by simp
  then show ?thesis using assms by (simp add: commit_def Let_def)
qed

lemma animate_cases:
  obtains (stopped) "\<not> isPlayingRef e" "animate time env e = e"
  | (paused) "isPlayingRef e" "isPausedRef e" "animate time env e = e\<lparr>lastTimeRef := time\<rparr>"
  | (tick) "isPlayingRef e" "\<not> isPausedRef e"
      "animate time env e =
         updateGameLogic ((time - lastTimeRef e) / 1000) time env (e\<lparr>lastTimeRef := time\<rparr>)"
  by (cases "isPlayingRef e"; cases "isPausedRef e") (simp_all add: animate_def)

lemma animate_inv:
  assumes "session_inv e"
  shows "session_inv (animate time env e)"
proof (cases rule: animate_cases[of e time env])
  case stopped
  with assms show ?thesis by simp
next
  case paused
  with assms show ?thesis by (simp add: session_inv_def)
next
  case tick
  let ?e = "e\<lparr>lastTimeRef := time\<rparr>"
  let ?dt = "(time - lastTimeRef e) / 1000"
  from assms have g: "gs_ok (gameState ?e)" and u: "\<forall>ob \<in> set (obstaclesRef ?e). \<not> o_passed ob"
    and s: "0 \<le> scoreRef ?e"
    by (simp_all add: session_inv_def)
  have sc: "scoreRef ?e \<le> scoreRef (updateGameLogic ?dt time env ?e)"
    unfolding updateGameLogic_score by simp
  from updateGameLogic_gameState[OF g, of ?dt time env] updateGameLogic_unpassed[OF u, of ?dt time env]
    updateGameLogic_refs[of ?dt time env ?e] sc s assms tick(1)
  show ?thesis unfolding tick(3) by (simp add: session_inv_def)
qed

lemma animate_gameOver:
  assumes "gs_ok (gameState e)" "gameOver (gameState e)"
  shows "gameOver (gameState (animate time env e))"
proof (cases rule: animate_cases[of e time env])
  case stopped
  with assms show ?thesis by simp
next
  case paused
  with assms show ?thesis by simp
next
  case tick
  have g: "gs_ok (gameState (e\<lparr>lastTimeRef := time\<rparr>))" using assms(1) by simp
  from updateGameLogic_gameState[OF g, of "(time - lastTimeRef e) / 1000" time env] assms(2)
  show ?thesis unfolding tick(3) by simp
qed

lemma inputEffect_cases:
  assumes "inputEffect pd now e = Inr e'"
  obtains (ignored) "e' = e"
  | (applied) g gs' where "\<not> gameOver (renderedState e)" "isPlaying (renderedState e)"
      "e' = e\<lparr>gestures := gs', playerStateRef := applyGesture g now (playerStateRef e)\<rparr>"
proof (cases "\<not> isPlaying (renderedState e) \<or> gameOver (renderedState e) \<or>
         isPaused (renderedState e) \<or> pd = None")
  case True
  with assms have "e' = e" unfolding inputEffect_def by simp
  then show ?thesis by (rule ignored)
next
  case False
  obtain r gs' where d: "detectGesture (poseLandmarks (the pd)) now (gestures e) = (r, gs')"
    by (cases "detectGesture (poseLandmarks (the pd)) now (gestures e)")
  show ?thesis
  proof (cases r)
    case (Inl err)
    from False have "pd \<noteq> None" by simp
    with Inl assms False d show ?thesis unfolding inputEffect_def by simp
  next
    case (Inr g)
    from False have "pd \<noteq> None" by simp
    with Inr assms False d
    have "e' = e\<lparr>gestures := gs', playerStateRef := applyGesture g now (playerStateRef e)\<rparr>"
      unfolding inputEffect_def by simp
    with False show ?thesis by (intro applied[of g gs']) simp_all
  qed
qed

lemma inputEffect_inv:
  assumes "session_inv e" "inputEffect pd now e = Inr e'"
  shows "session_inv e'"
  using assms(2)
proof (cases rule: inputEffect_cases)
  case ignored
  with assms(1) show ?thesis by simp
next
  case (applied g gs')
  from assms(1) have "lane (playerStateRef e) \<in> {0, 1, 2}" by (simp add: session_inv_def)
  from lane_step[OF this, of g now] assms(1) show ?thesis
    unfolding applied(3) by (simp add: session_inv_def)
qed

lemma session_inv_commit: "session_inv e \<Longrightarrow> session_inv (commit ec e)"
  by (rule commit_inv) (simp_all add: session_inv_def)

lemma button_inv:
  assumes "session_inv e" "gs_ok g"
  shows "session_inv (commit ec (e\<lparr>gameState := g\<rparr>))"
  using assms by (intro commit_inv) (simp_all add: session_inv_def)

lemma step_inv:
  assumes "session_inv e" "step ec ev e = Inr e'"
  shows "session_inv e'"
proof (cases ev)
  case (Frame time env)
  with assms(2) have "e' = animate time env e" by simp
  with animate_inv[OF assms(1)] show ?thesis by simp
next
  case Render
  with assms(2) have "e' = commit ec e" by simp
  with session_inv_commit[OF assms(1)] show ?thesis by simp
next
  case (Pose pd now)
  with assms(2) have "inputEffect pd now (commit ec e) = Inr e'" by simp
  from inputEffect_inv[OF session_inv_commit[OF assms(1)] this] show ?thesis .
next
  case Start
  have "gs_ok (handleStart (gameState e))" by (simp add: gs_ok_def handleStart_def)
  from button_inv[OF assms(1) this, where ec = ec] assms(2) Start show ?thesis by auto
next
  case Restart
  have "gs_ok (handleRestart (gameState e))" by (simp add: gs_ok_def handleRestart_def)
  from button_inv[OF assms(1) this, where ec = ec] assms(2) Restart show ?thesis by auto
next
  case Pause
  from assms(1) have "gs_ok (handlePause (gameState e))"
    by (simp add: session_inv_def gs_ok_def handlePause_def)
  from button_inv[OF assms(1) this, where ec = ec] assms(2) Pause show ?thesis by auto
next
  case Resume
  from assms(1) have "gs_ok (handleResume (gameState e))"
    by (simp add: session_inv_def gs_ok_def handleResume_def)
  from button_inv[OF assms(1) this, where ec = ec] assms(2) Resume show ?thesis by auto
qed

lemma run_inv: "session_inv e \<Longrightarrow> run evs e = Inr e' \<Longrightarrow> session_inv e'"
proof (induction evs arbitrary: e)
  case Nil
  then show ?case by simp
next
  case (Cons a evs)
  obtain ec ev where a: "a = (ec, ev)" by (cases a)
  from Cons.prems(2) obtain e1 where s: "step ec ev e = Inr e1" and r: "run evs e1 = Inr e'"
    unfolding a by (auto split: sum.splits)
  from Cons.IH[OF step_inv[OF Cons.prems(1) s] r] show ?case .
qed

lemma initialEngine_inv: "session_inv (initialEngine t0)"
  by (simp add: session_inv_def gs_ok_def initialEngine_def initialGameState_def initialPlayer_def)


section \<open>Game over\<close>

lemma step_game_over:
  assumes i: "session_inv e" and go: "gameOver (renderedState e)" and p: "quiet_event ev"
  shows "step ec ev e = Inr e"
proof -
  from i go have np: "\<not> isPlayingRef e" by (auto simp: session_inv_def)
  with i have r: "renderedState e = gameState e" by (simp add: session_inv_def)
  from np have a: "animate time env e = e" for time env by (simp add: animate_def)
  have c: "commit ec e = e" by (rule commit_same[OF r])
  from go have "inputEffect pd now e = Inr e" for pd now by (simp add: inputEffect_def)
  with a c p show ?thesis by (cases ev) simp_all
qed

lemma run_game_over:
  assumes "session_inv e" "gameOver (renderedState e)"
  shows "list_all quiet_event (map snd evs) \<Longrightarrow> run evs e = Inr e"
proof (induction evs)
  case Nil
  then show ?case by simp
next
  case (Cons a evs)
  obtain ec ev where a: "a = (ec, ev)" by (cases a)
  from Cons.prems a have "quiet_event ev" and rest: "list_all quiet_event (map snd evs)" by simp_all
  from step_game_over[OF assms this(1), of ec] Cons.IH[OF rest] show ?case
    unfolding a by simp
qed

text \<open>
  Claim C3, as the code has it. In every state a session can reach:
  lives are 0 exactly when the state React holds says game over; from then on every
  animation frame keeps lives at 0 and the game over; React's next render shows the
  game over to the component and leaves the loop stopped (\<^verbatim>\<open>isPlayingRef\<close> false);
  and once the rendered state says game over, every sequence of animation frames,
  renders and pose samples leaves the whole engine as it is: React state (with
  score and lives), refs and classifier state. Nothing is said of what a frame does
  to the refs between the fatal hit and that render.
\<close>

theorem game_over_terminal:
  assumes "run evs (initialEngine t0) = Inr e"
  shows "(lives (gameState e) = 0 \<longleftrightarrow> gameOver (gameState e)) \<and>
         (gameOver (gameState e) \<longrightarrow>
            lives (gameState (animate time env e)) = 0 \<and>
            gameOver (gameState (animate time env e)) \<and>
            gameOver (renderedState (commit ec e)) \<and>
            lives (gameState (commit ec e)) = 0 \<and>
            \<not> isPlayingRef (commit ec e)) \<and>
         (gameOver (renderedState e) \<longrightarrow>
            step ec (Frame time env) e = Inr e \<and>
            step ec Render e = Inr e \<and>
            step ec (Pose pd now) e = Inr e) \<and>
         (gameOver (renderedState e) \<and> list_all quiet_event (map snd later) \<longrightarrow>
            run later e = Inr e)"
proof -
  from run_inv[OF initialEngine_inv assms] have i: "session_inv e" .
  then have ok: "gs_ok (gameState e)" by (simp add: session_inv_def)
  then have 1: "lives (gameState e) = 0 \<longleftrightarrow> gameOver (gameState e)"
    by (auto simp: gs_ok_def)
  have 2: "lives (gameState (animate time env e)) = 0 \<and>
            gameOver (gameState (animate time env e)) \<and>
            gameOver (renderedState (commit ec e)) \<and>
            lives (gameState (commit ec e)) = 0 \<and>
            \<not> isPlayingRef (commit ec e)"
    if go: "gameOver (gameState e)"
  proof -
    from animate_gameOver[OF ok go] have a: "gameOver (gameState (animate time env e))" .
    from animate_inv[OF i, of time env] have "gs_ok (gameState (animate time env e))"
      by (simp add: session_inv_def)
    with a have b: "lives (gameState (animate time env e)) = 0" by (simp add: gs_ok_def)
    from go have c: "gameOver (renderedState (commit ec e))" by (simp add: commit_fields)
    from go 1 have d: "lives (gameState (commit ec e)) = 0" by (simp add: commit_fields)
    from session_inv_commit[OF i, of ec] c have "\<not> isPlayingRef (commit ec e)"
      by (auto simp: session_inv_def)
    with a b c d show ?thesis by simp
  qed
  have 3: "step ec (Frame time env) e = Inr e \<and> step ec Render e = Inr e \<and>
           step ec (Pose pd now) e = Inr e"
    if go: "gameOver (renderedState e)"
    using step_game_over[OF i go, where ev = "Frame time env" and ec = ec]
      step_game_over[OF i go, where ev = Render and ec = ec]
      step_game_over[OF i go, where ev = "Pose pd now" and ec = ec]
    by (simp only: quiet_event.simps simp_thms)
  have 4: "run later e = Inr e"
    if "gameOver (renderedState e) \<and> list_all quiet_event (map snd later)"
    using that run_game_over[OF i, of later] by simp
  from 1 2 3 4 show ?thesis by blast
qed

text \<open>
  The session \<open>threeHitsRendered\<close> ends with no lives, game over rendered, final
  score 40; a frame, a render and a pose sample leave that state as it is.
\<close>

theorem game_over_terminal_witness:
  "\<not> isl (run threeHitsRendered (initialEngine 0)) \<and>
   gameOver (gameState (projr (run threeHitsRendered (initialEngine 0)))) \<and>
   gameOver (renderedState (projr (run threeHitsRendered (initialEngine 0)))) \<and>
   lives (gameState (projr (run threeHitsRendered (initialEngine 0)))) = 0 \<and>
   score (gameState (projr (run threeHitsRendered (initialEngine 0)))) = 40 \<and>
   step (12000, 12000) (Frame 12016 (drawEnv 0.5 70 12016))
        (projr (run threeHitsRendered (initialEngine 0)))
     = Inr (projr (run threeHitsRendered (initialEngine 0))) \<and>
   step (12000, 12000) Render (projr (run threeHitsRendered (initialEngine 0)))
     = Inr (projr (run threeHitsRendered (initialEngine 0))) \<and>
   step (12000, 12000) (Pose (Some \<lparr>poseLandmarks = Some (posture 0.7 0.5)\<rparr>) 12000)
        (projr (run threeHitsRendered (initialEngine 0)))
     = Inr (projr (run threeHitsRendered (initialEngine 0))) \<and>
   run [((12016, 12016), Frame 12016 (drawEnv 0.5 70 12016)),
        ((12020, 12020), Pose (Some \<lparr>poseLandmarks = Some (posture 0.7 0.5)\<rparr>) 12020),
        ((12032, 12032), Render),
        ((13400, 13400), Frame 13400 (drawEnv 0.5 70 13400))]
       (projr (run threeHitsRendered (initialEngine 0)))
     = Inr (projr (run threeHitsRendered (initialEngine 0)))"
proof -
  let ?r = "run threeHitsRendered (initialEngine 0)"
  let ?later = "[((12016, 12016), Frame 12016 (drawEnv 0.5 70 12016)),
        ((12020, 12020), Pose (Some \<lparr>poseLandmarks = Some (posture 0.7 0.5)\<rparr>) 12020),
        ((12032, 12032), Render),
        ((13400, 13400), Frame 13400 (drawEnv 0.5 70 13400))]"
  have i: "\<not> isl ?r" by code_simp
  then have r: "?r = Inr (projr ?r)" by simp
  have g: "gameOver (gameState (projr ?r))" by code_simp
  have g': "gameOver (renderedState (projr ?r))" by code_simp
  have s: "score (gameState (projr ?r)) = 40" by code_simp
  have p: "list_all quiet_event (map snd ?later)" by simp
  note t = game_over_terminal[OF r, where ec = "(12000, 12000)" and time = "12016"
      and env = "drawEnv 0.5 70 12016"
      and pd = "Some \<lparr>poseLandmarks = Some (posture 0.7 0.5)\<rparr>" and now = "12000"
      and later = ?later]
  from t g have l: "lives (gameState (projr ?r)) = 0" by blast
  from t g' have f: "step (12000, 12000) (Frame 12016 (drawEnv 0.5 70 12016)) (projr ?r)
      = Inr (projr ?r)"
    and c: "step (12000, 12000) Render (projr ?r) = Inr (projr ?r)"
    and q: "step (12000, 12000) (Pose (Some \<lparr>poseLandmarks = Some (posture 0.7 0.5)\<rparr>) 12000)
      (projr ?r) = Inr (projr ?r)"
    by blast+
  from t g' p have u: "run ?later (projr ?r) = Inr (projr ?r)" by blast
  from i g g' l s f c q u show ?thesis by (intro conjI)
qed

text \<open>
  The claim as stated fails. The session \<open>threeHits\<close> ends with the frame of the
  fatal hit, at 11900 ms: no lives, game over in the state React holds, score 40,
  the obstacle with id 53 at depth 0.52. React has not rendered yet and
  \<^verbatim>\<open>isPlayingRef\<close> is still true, so the frame that follows 300 ms later in
  \<open>threeHitsOneMore\<close> runs a full tick: it moves that obstacle past depth 5,
  scores it, removes it, and takes the score from 40 to 50.
\<close>

theorem frame_after_game_over_counterexample:
  "\<not> isl (run threeHits (initialEngine 0)) \<and>
   gameOver (gameState (projr (run threeHits (initialEngine 0)))) \<and>
   lives (gameState (projr (run threeHits (initialEngine 0)))) = 0 \<and>
   scoreRef (projr (run threeHits (initialEngine 0))) = 40 \<and>
   map o_id (obstaclesRef (projr (run threeHits (initialEngine 0)))) = [53, 63] \<and>
   \<not> isl (run threeHitsOneMore (initialEngine 0)) \<and>
   scoreRef (projr (run threeHitsOneMore (initialEngine 0))) = 50 \<and>
   map o_id (obstaclesRef (projr (run threeHitsOneMore (initialEngine 0)))) = [63]"
proof -
  have "\<not> isl (run threeHits (initialEngine 0))" by code_simp
  moreover have "gameOver (gameState (projr (run threeHits (initialEngine 0))))" by code_simp
  moreover have "lives (gameState (projr (run threeHits (initialEngine 0)))) = 0" by code_simp
  moreover have "scoreRef (projr (run threeHits (initialEngine 0))) = 40" by code_simp
  moreover have "map o_id (obstaclesRef (projr (run threeHits (initialEngine 0)))) = [53, 63]"
    by code_simp
  moreover have "\<not> isl (run threeHitsOneMore (initialEngine 0))" by code_simp
  moreover have "scoreRef (projr (run threeHitsOneMore (initialEngine 0))) = 50" by code_simp
  moreover have "map o_id (obstaclesRef (projr (run threeHitsOneMore (initialEngine 0))))
      = [63]" by code_simp
  ultimately show ?thesis by simp
qed


section \<open>Entity ids\<close>

lemma distinct_sub_append:
  assumes "distinct (A @ B)" "distinct A'" "distinct B'" "set A' \<subseteq> set A" "set B' \<subseteq> set B"
  shows "distinct (A' @ B')"
  using assms by auto

lemma cull_ids:
  "distinct (map d_id ds) \<Longrightarrow> distinct (map d_id (cullDecorations ds))"
  "set (map d_id (cullDecorations ds)) \<subseteq> set (map d_id ds)"
  by (auto simp: cullDecorations_def distinct_map_filter)

lemma beforeLoop_decoration_ids:
  "\<exists>ds. decorationsRef (beforeLoop dt time env e) = cullDecorations ds \<and>
     (map d_id ds = map d_id (decorationsRef e) \<or>
      map d_id ds = map d_id (decorationsRef e) @ [r_id (decorDraw1 env), r_id (decorDraw2 env)])"
proof -
  let ?e1 = "(difficulty e)\<lparr>playerStateRef := playerPhysics time (playerStateRef (difficulty e))\<rparr>"
  let ?e2 = "decorationSpawn time env ?e1"
  have d: "decorationsRef (beforeLoop dt time env e) =
     cullDecorations (map (\<lambda>dec. dec\<lparr>d_z := d_z dec + speedRef ?e2 * dt\<rparr>) (decorationsRef ?e2))"
    by (simp add: beforeLoop_def obstacleSpawn_eq decorationUpdate_eq)
  have m: "map d_id (map (\<lambda>dec. dec\<lparr>d_z := d_z dec + v\<rparr>) xs) = map d_id xs" for v xs
    by simp
  have "decorationsRef ?e2 = decorationsRef e \<or>
        decorationsRef ?e2 = decorationsRef e @
             [decorationOf (SPAWN_DISTANCE - r_z (decorDraw1 env) * 20) (decorDraw1 env),
              decorationOf (SPAWN_DISTANCE - r_z (decorDraw2 env) * 20) (decorDraw2 env)]"
    by (simp add: decorationSpawn_eq difficulty_def)
  then have "map d_id (decorationsRef ?e2) = map d_id (decorationsRef e) \<or>
      map d_id (decorationsRef ?e2) =
        map d_id (decorationsRef e) @ [r_id (decorDraw1 env), r_id (decorDraw2 env)]"
    by (auto simp: decorationOf_def)
  then have "map d_id (map (\<lambda>dec. dec\<lparr>d_z := d_z dec + speedRef ?e2 * dt\<rparr>) (decorationsRef ?e2))
        = map d_id (decorationsRef e) \<or>
      map d_id (map (\<lambda>dec. dec\<lparr>d_z := d_z dec + speedRef ?e2 * dt\<rparr>) (decorationsRef ?e2)) =
        map d_id (decorationsRef e) @ [r_id (decorDraw1 env), r_id (decorDraw2 env)]"
    unfolding m .
  with d show ?thesis by (intro exI conjI)
qed

lemma updateGameLogic_decorations:
  "decorationsRef (updateGameLogic dt time env e) = decorationsRef (beforeLoop dt time env e)"
  unfolding updateGameLogic_eq by (rule obstacleUpdate_fields)

lemma updateGameLogic_obstacle_ids:
  "distinct (map o_id (obstaclesRef (beforeLoop dt time env e))) \<Longrightarrow>
     distinct (map o_id (obstaclesRef (updateGameLogic dt time env e)))"
  "set (map o_id (obstaclesRef (updateGameLogic dt time env e)))
     \<subseteq> set (map o_id (obstaclesRef (beforeLoop dt time env e)))"
proof -
  let ?b = "beforeLoop dt time env e"
  have m: "map o_id (map (advanced dt ?b) xs) = map o_id xs" for xs
    by (simp add: advanced_fields)
  show "distinct (map o_id (obstaclesRef (updateGameLogic dt time env e)))"
    if "distinct (map o_id (obstaclesRef ?b))"
  proof -
    from that have "distinct (map o_id (map (advanced dt ?b) (obstaclesRef ?b)))"
      unfolding m .
    then show ?thesis
      unfolding updateGameLogic_eq obstacleUpdate_obstacles by (rule distinct_map_filter)
  qed
  show "set (map o_id (obstaclesRef (updateGameLogic dt time env e)))
     \<subseteq> set (map o_id (obstaclesRef ?b))"
    unfolding updateGameLogic_eq obstacleUpdate_obstacles by (auto simp: advanced_fields)
qed

lemma updateGameLogic_ids:
  assumes "distinct (live_ids e)" "distinct (draw_ids (Frame time env))"
    "set (live_ids e) \<inter> set (draw_ids (Frame time env)) = {}"
  shows "distinct (live_ids (updateGameLogic dt time env e)) \<and>
     set (live_ids (updateGameLogic dt time env e))
       \<subseteq> set (live_ids e) \<union> set (draw_ids (Frame time env))"
proof -
  let ?b = "beforeLoop dt time env e"
  let ?u = "updateGameLogic dt time env e"
  obtain ds where ds: "decorationsRef ?b = cullDecorations ds"
    and dsid: "map d_id ds = map d_id (decorationsRef e) \<or>
      map d_id ds = map d_id (decorationsRef e) @ [r_id (decorDraw1 env), r_id (decorDraw2 env)]"
    using beforeLoop_decoration_ids by blast
  have os: "map o_id (obstaclesRef ?b) = map o_id (obstaclesRef e) \<or>
      map o_id (obstaclesRef ?b) = map o_id (obstaclesRef e) @ [r_oid (obstacleDraw env)]"
    using beforeLoop_obstacles[of dt time env e] by (auto simp: obstacleOf_def)
  have big: "distinct (map o_id (obstaclesRef ?b) @ map d_id ds) \<and>
     set (map o_id (obstaclesRef ?b) @ map d_id ds)
       \<subseteq> set (live_ids e) \<union> set (draw_ids (Frame time env))"
    using assms os dsid unfolding live_ids_def by (elim disjE) auto
  have "distinct (map o_id (obstaclesRef ?u) @ map d_id (decorationsRef ?u))"
  proof (rule distinct_sub_append)
    show "distinct (map o_id (obstaclesRef ?b) @ map d_id ds)" using big by simp
    show "distinct (map o_id (obstaclesRef ?u))"
      using big by (intro updateGameLogic_obstacle_ids) simp
    show "distinct (map d_id (decorationsRef ?u))"
      unfolding updateGameLogic_decorations ds using big by (intro cull_ids) simp
    show "set (map o_id (obstaclesRef ?u)) \<subseteq> set (map o_id (obstaclesRef ?b))"
      by (rule updateGameLogic_obstacle_ids)
    show "set (map d_id (decorationsRef ?u)) \<subseteq> set (map d_id ds)"
      unfolding updateGameLogic_decorations ds by (rule cull_ids)
  qed
  moreover have "set (map o_id (obstaclesRef ?u) @ map d_id (decorationsRef ?u))
      \<subseteq> set (map o_id (obstaclesRef ?b) @ map d_id ds)"
    using updateGameLogic_obstacle_ids(2)[of dt time env e] cull_ids(2)[of ds]
    unfolding updateGameLogic_decorations ds by auto
  ultimately show ?thesis using big unfolding live_ids_def by blast
qed

lemma commit_ids:
  assumes "distinct (live_ids e)"
  shows "distinct (live_ids (commit ec e)) \<and>
         set (live_ids (commit ec e)) \<subseteq> set (live_ids e)"
proof -
  have "live_ids (commit ec e) = live_ids e \<or> live_ids (commit ec e) = []"
    by (simp add: commit_def Let_def live_ids_def gameLoopEffect_fields)
  with assms show ?thesis by auto
qed

lemma live_ids_gameState: "live_ids (e\<lparr>gameState := g\<rparr>) = live_ids e"
  by (simp add: live_ids_def)

lemma button_ids:
  assumes "distinct (live_ids e)"
  shows "distinct (live_ids (commit ec (e\<lparr>gameState := g\<rparr>))) \<and>
         set (live_ids (commit ec (e\<lparr>gameState := g\<rparr>))) \<subseteq> set (live_ids e)"
proof -
  from assms have "distinct (live_ids (e\<lparr>gameState := g\<rparr>))"
    by (simp only: live_ids_gameState)
  from commit_ids[OF this, of ec] show ?thesis unfolding live_ids_gameState .
qed

lemma animate_ids:
  assumes "distinct (live_ids e)" "distinct (draw_ids (Frame time env))"
    "set (live_ids e) \<inter> set (draw_ids (Frame time env)) = {}"
  shows "distinct (live_ids (animate time env e)) \<and>
     set (live_ids (animate time env e))
       \<subseteq> set (live_ids e) \<union> set (draw_ids (Frame time env))"
proof (cases rule: animate_cases[of e time env])
  case stopped
  with assms show ?thesis by auto
next
  case paused
  with assms show ?thesis by (auto simp: live_ids_def)
next
  case tick
  have l: "live_ids (e\<lparr>lastTimeRef := time\<rparr>) = live_ids e" by (simp add: live_ids_def)
  from updateGameLogic_ids[of "e\<lparr>lastTimeRef := time\<rparr>" time env "(time - lastTimeRef e) / 1000"]
    assms show ?thesis unfolding tick(3) l by simp
qed

lemma step_ids:
  assumes "step ec ev e = Inr e'" "distinct (live_ids e)" "distinct (draw_ids ev)"
    "set (live_ids e) \<inter> set (draw_ids ev) = {}"
  shows "distinct (live_ids e') \<and> set (live_ids e') \<subseteq> set (live_ids e) \<union> set (draw_ids ev)"
proof (cases ev)
  case (Frame time env)
  with assms(1) have e': "e' = animate time env e" by simp
  from animate_ids[of e time env] assms(2-4) Frame show ?thesis
    unfolding e' by simp
next
  case Render
  with assms(1) have e': "e' = commit ec e" by simp
  from commit_ids[OF assms(2), of ec] show ?thesis unfolding e' by blast
next
  case (Pose pd now)
  with assms(1) have "inputEffect pd now (commit ec e) = Inr e'" by simp
  then have "live_ids e' = live_ids (commit ec e)"
    by (cases rule: inputEffect_cases) (simp_all add: live_ids_def)
  with commit_ids[OF assms(2), of ec] show ?thesis by auto
next
  case Start
  with assms(1) have e': "e' = commit ec (e\<lparr>gameState := handleStart (gameState e)\<rparr>)"
    by simp
  from button_ids[OF assms(2), of ec] show ?thesis unfolding e' by blast
next
  case Restart
  with assms(1) have e': "e' = commit ec (e\<lparr>gameState := handleRestart (gameState e)\<rparr>)"
    by simp
  from button_ids[OF assms(2), of ec] show ?thesis unfolding e' by blast
next
  case Pause
  with assms(1) have e': "e' = commit ec (e\<lparr>gameState := handlePause (gameState e)\<rparr>)"
    by simp
  from button_ids[OF assms(2), of ec] show ?thesis unfolding e' by blast
next
  case Resume
  with assms(1) have e': "e' = commit ec (e\<lparr>gameState := handleResume (gameState e)\<rparr>)"
    by simp
  from button_ids[OF assms(2), of ec] show ?thesis unfolding e' by blast
qed

lemma run_ids:
  "run evs e = Inr e' \<Longrightarrow> distinct (live_ids e) \<Longrightarrow>
   distinct (session_draws evs) \<Longrightarrow>
   set (live_ids e) \<inter> set (session_draws evs) = {} \<Longrightarrow>
   distinct (live_ids e')"
proof (induction evs arbitrary: e)
  case Nil
  then show ?case by simp
next
  case (Cons a evs)
  obtain ec ev where a: "a = (ec, ev)" by (cases a)
  from Cons.prems(1) obtain e1 where s: "step ec ev e = Inr e1" and r: "run evs e1 = Inr e'"
    unfolding a by (auto split: sum.splits)
  have sd: "session_draws (a # evs) = draw_ids ev @ session_draws evs"
    unfolding a by (simp add: session_draws_def)
  from Cons.prems(3) have d1: "distinct (draw_ids ev)" and d2: "distinct (session_draws evs)"
    and d3: "set (draw_ids ev) \<inter> set (session_draws evs) = {}"
    unfolding sd by auto
  from Cons.prems(4) have i1: "set (live_ids e) \<inter> set (draw_ids ev) = {}"
    and i2: "set (live_ids e) \<inter> set (session_draws evs) = {}"
    unfolding sd by auto
  from step_ids[OF s Cons.prems(2) d1 i1]
  have x: "distinct (live_ids e1)" and y: "set (live_ids e1) \<subseteq> set (live_ids e) \<union> set (draw_ids ev)"
    by simp_all
  from y d3 i2 have "set (live_ids e1) \<inter> set (session_draws evs) = {}" by blast
  from Cons.IH[OF r x d2 this] show ?case .
qed

text \<open>
  Claim C9, as the code has it. An id is the value of one call of
  \<^verbatim>\<open>Math.random()\<close> and nothing compares it with the ids in use. In every state
  of a session in which the values drawn for ids were pairwise different, no two
  live obstacles or decorations share an id.
\<close>

theorem ids_unique_for_distinct_draws:
  assumes "run evs (initialEngine t0) = Inr e"
    and "distinct (session_draws evs)"
  shows "distinct (map o_id (obstaclesRef e) @ map d_id (decorationsRef e))"
proof -
  have "distinct (live_ids (initialEngine t0))" "set (live_ids (initialEngine t0)) = {}"
    by (simp_all add: live_ids_def initialEngine_def)
  with run_ids[OF assms(1) _ assms(2)] show ?thesis by (simp add: live_ids_def)
qed

text \<open>The first three frames of \<open>threeHits\<close>: two obstacles and six decorations.\<close>

theorem ids_unique_for_distinct_draws_witness:
  "\<not> isl (run (take 4 threeHits) (initialEngine 0)) \<and>
   session_draws (take 4 threeHits) = [11, 12, 13, 21, 22, 23, 31, 32, 33] \<and>
   map o_id (obstaclesRef (projr (run (take 4 threeHits) (initialEngine 0)))) @
   map d_id (decorationsRef (projr (run (take 4 threeHits) (initialEngine 0))))
     = [23, 33, 11, 12, 21, 22, 31, 32] \<and>
   distinct (map o_id (obstaclesRef (projr (run (take 4 threeHits) (initialEngine 0)))) @
             map d_id (decorationsRef (projr (run (take 4 threeHits) (initialEngine 0)))))"
proof -
  let ?r = "run (take 4 threeHits) (initialEngine 0)"
  have i: "\<not> isl ?r" by code_simp
  then have r: "?r = Inr (projr ?r)" by simp
  have d: "session_draws (take 4 threeHits) = [11, 12, 13, 21, 22, 23, 31, 32, 33]"
    by code_simp
  then have dd: "distinct (session_draws (take 4 threeHits))" by simp
  have l: "map o_id (obstaclesRef (projr ?r)) @ map d_id (decorationsRef (projr ?r))
     = [23, 33, 11, 12, 21, 22, 31, 32]" by code_simp
  from ids_unique_for_distinct_draws[OF r dd] i d l show ?thesis by simp
qed

text \<open>
  The claim as stated fails: when the two decorations spawned by one frame draw the
  same value (11), both are live with the same id.
\<close>

theorem equal_draws_counterexample:
  "\<not> isl (run twoFrames (initialEngine 0)) \<and>
   map d_id (decorationsRef (projr (run twoFrames (initialEngine 0)))) = [11, 11]"
proof -
  have "\<not> isl (run twoFrames (initialEngine 0))" by code_simp
  moreover have "map d_id (decorationsRef (projr (run twoFrames (initialEngine 0)))) = [11, 11]"
    by code_simp
  ultimately show ?thesis by simp
qed

end
